(* ===== verification/Prelude.thy ===== *)
theory Prelude
  imports Main "HOL-Library.Word" "HOL-Library.Product_Lexorder" "HOL-Library.Monad_Syntax"
begin

unbundle bit_operations_syntax

text \<open>
  What every component of the model shares.

  \<^item> The machine integers of the source (\<open>u8\<close>, \<open>u16\<close>, \<open>u32\<close>, \<open>u64\<close>) are words of
    HOL-Library.Word, so \<open>+\<close>, \<open>-\<close> and \<open>*\<close> wrap as they do in the release build the
    repository publishes; \<open>usize\<close> lengths and offsets are \<open>nat\<close>.
  \<^item> A \<open>Vec<u8>\<close> or a byte slice is a list of bytes.
  \<^item> \<open>Result<T, String>\<close> is a sum with the error on the left; \<open>bind_result\<close> is the
    question-mark operator. A panic (an index or a slice out of range) is the error
    \<open>Panic\<close>, so it is never hidden behind an unspecified value.
  \<^item> The generic lemmas on membership in half-open ranges and on neighbouring elements of a
    list carry the placement proofs.
\<close>

section \<open>Machine types\<close>

type_synonym u8 = "8 word"
type_synonym u16 = "16 word"
type_synonym u32 = "32 word"
type_synonym u64 = "64 word"
type_synonym bytes = "u8 list"

named_theorems layout_consts \<open>the numeric constants of the source, unfolded\<close>

text \<open>\<open>u64::is_multiple_of\<close>; a zero divisor divides only zero, as in the standard library.\<close>

definition is_multiple_of :: "'a::len word \<Rightarrow> 'a word \<Rightarrow> bool" where
  "is_multiple_of a b \<longleftrightarrow> a mod b = 0"

lemma is_multiple_of_0 [simp]: "is_multiple_of 0 b"
  by (simp add: is_multiple_of_def)

section \<open>Errors and results\<close>

text \<open>
  The errors of the source, one constructor per message with the values the message formats,
  grouped by the part that raises them. \<open>Panic\<close> is an index or slice out of range.
\<close>

datatype parse_int_error = EmptyInt | InvalidDigit | IntOverflow
datatype cli_error = ParseInt parse_int_error | SizeOverflows | ExpectedBaseSize
datatype params_error =
  BadRam | BadVcpus | BadCbit | CmdlineNotAscii | HoleUnaligned | HoleOutside
datatype boot_error =
  BzTooShort | BzNotLinux | BzOldProtocol | BzNotHigh | BzNo64BitEntry | BzBadAlignment
  | BzNotRelocatable | BzNoPayload | E820TooLong nat
datatype place_error =
  NothingPlacedAt u64 | FillDoesNotFit u64 | PlacedOverlap u64 | PlacedUnaligned u64
  | PlacedOutside u64
datatype prepare_error =
  KernelOverInitramfs | InitSizeOverInitramfs | InitramfsBeyondMemory | InitramfsAbove4G
  | SetupTooLarge | CmdlineTooLong u32
datatype image_error =
  BadConfigHash nat | ShimDataTooLong nat | ShimCodeOverrun | ShimOwnedTooLarge nat
  | NoMeasuredContents u64 | NotAMeasuredPage | IgvmMismatch
datatype snp_error = SvnNeedsKey | SnpPagesOverlap u64 | VmsaInvariant | IdKeyNotAffine
datatype extern_error =
  IoError string string | IgvmConstruct string | IgvmSerialize string | IgvmReadBack string
  | ManifestJson string | ParseIdKey string
datatype error =
  Panic | Cli cli_error | Params params_error | Boot boot_error | Place place_error
  | Prepare prepare_error | Image image_error | Snp snp_error | Extern extern_error

type_synonym 'a result = "error + 'a"

fun bind_result :: "'e + 'a \<Rightarrow> ('a \<Rightarrow> 'e + 'b) \<Rightarrow> 'e + 'b" where
  "bind_result (Inl e) f = Inl e"
| "bind_result (Inr x) f = f x"

fun or_error :: "'e \<Rightarrow> 'a option \<Rightarrow> 'e + 'a" where
  "or_error e None = Inl e"
| "or_error e (Some x) = Inr x"

abbreviation or_panic :: "'a option \<Rightarrow> 'a result" where
  "or_panic \<equiv> or_error Panic"

text \<open>\<open>Iterator::map(f).collect::<Result<Vec<_>, _>>()\<close>: the first error stops it.\<close>

fun map_result :: "('a \<Rightarrow> 'e + 'b) \<Rightarrow> 'a list \<Rightarrow> 'e + 'b list" where
  "map_result f [] = Inr []"
| "map_result f (x # xs) =
     bind_result (f x) (\<lambda>y. bind_result (map_result f xs) (\<lambda>ys. Inr (y # ys)))"

lemma bind_result_Inr_conv:
  "bind_result m f = Inr y \<longleftrightarrow> (\<exists>x. m = Inr x \<and> f x = Inr y)"
  by (cases m) auto

lemma bind_result_Inl_conv:
  "bind_result m f = Inl e \<longleftrightarrow> m = Inl e \<or> (\<exists>x. m = Inr x \<and> f x = Inl e)"
  by (cases m) auto

lemma or_error_Inr_conv [simp]: "or_error e m = Inr x \<longleftrightarrow> m = Some x"
  by (cases m) auto

lemma or_error_Inl_conv [simp]: "or_error e m = Inl d \<longleftrightarrow> m = None \<and> d = e"
  by (cases m) auto

lemma map_result_all_Inr:
  "(\<And>x. x \<in> set xs \<Longrightarrow> f x = Inr (g x)) \<Longrightarrow> map_result f xs = Inr (map g xs)"
  by (induction xs) auto

lemma map_result_Inr_conv:
  "map_result f xs = Inr ys \<longleftrightarrow> list_all2 (\<lambda>x y. f x = Inr y) xs ys"
  by (induction xs arbitrary: ys) (auto simp: bind_result_Inr_conv list_all2_Cons1)

section \<open>Half-open ranges\<close>

definition in_range :: "'a::linorder \<Rightarrow> 'a \<times> 'a \<Rightarrow> bool" where
  "in_range a r \<longleftrightarrow> fst r \<le> a \<and> a < snd r"

lemma those_map_Some: "(\<And>x. x \<in> set xs \<Longrightarrow> f x = Some (g x)) \<Longrightarrow> those (map f xs) = Some (map g xs)"
  by (induction xs) auto

lemma in_range_pair [simp]: "in_range a (lo, hi) \<longleftrightarrow> lo \<le> a \<and> a < hi"
  by (simp add: in_range_def)

text \<open>Ranges in ascending order, none empty, none overlapping the next.\<close>

fun ascending :: "('a::linorder \<times> 'a) list \<Rightarrow> bool" where
  "ascending [] \<longleftrightarrow> True"
| "ascending [r] \<longleftrightarrow> fst r < snd r"
| "ascending (r # s # rs) \<longleftrightarrow> fst r < snd r \<and> snd r \<le> fst s \<and> ascending (s # rs)"

lemma ascending_Cons:
  "ascending (r # rs) \<longleftrightarrow> fst r < snd r \<and> (\<forall>s\<in>set rs. snd r \<le> fst s) \<and> ascending rs"
proof (induction rs arbitrary: r)
  case Nil
  then show ?case by simp
next
  case (Cons s rs)
  from Cons.IH [of s] show ?case by auto
qed

lemma ascending_unique:
  assumes "ascending rs" "r \<in> set rs" "s \<in> set rs" "in_range a r" "in_range a s"
  shows "r = s"
  using assms
proof (induction rs)
  case Nil
  then show ?case by simp
next
  case (Cons q qs)
  have apart: "\<not> (in_range a q \<and> in_range a t)" if "t \<in> set qs" for t
    using Cons.prems(1) that
    by (auto simp: ascending_Cons in_range_def dest: le_less_trans order.strict_trans2 leD)
  have "ascending qs"
    using Cons.prems(1) by (simp add: ascending_Cons)
  with Cons apart show ?case
    by (metis set_ConsD)
qed

text \<open>\<open>windows(2)\<close>: every pair of neighbours.\<close>

definition windows2 :: "'a list \<Rightarrow> ('a \<times> 'a) list" where
  "windows2 xs = zip xs (tl xs)"

lemma windows2_simps [simp]:
  "windows2 [] = []"
  "windows2 [x] = []"
  "windows2 (x # y # ys) = (x, y) # windows2 (y # ys)"
  by (simp_all add: windows2_def)

text \<open>\<open>align_up\<close> and the unsigned helpers are in the layout theory; here the word facts.\<close>

lemma word_add_sub_cancel: "(b::'a::len word) + (e - b) = e"
  by simp

lemma unat_add_noov:
  "unat (a::'a::len word) + unat b < 2 ^ LENGTH('a) \<Longrightarrow> unat (a + b) = unat a + unat b"
  by (simp add: unat_word_ariths)

lemma word_le_plus_iff:
  "(a::'a::len word) \<le> a + b \<longleftrightarrow> unat a + unat b < 2 ^ LENGTH('a)"
  using no_olen_add_nat by blast

lemma unat_of_nat_u64: "n < 2 ^ 64 \<Longrightarrow> unat (of_nat n :: u64) = n"
  by (simp add: unat_of_nat)

lemma unat_of_nat_u32: "n < 2 ^ 32 \<Longrightarrow> unat (of_nat n :: u32) = n"
  by (simp add: unat_of_nat)

lemma unat_of_nat_u8: "n < 256 \<Longrightarrow> unat (of_nat n :: u8) = n"
  by (simp add: unat_of_nat)

lemma unat_u8_less: "unat (w :: u8) < 256"
  by (rule order.strict_trans2 [OF unsigned_less]) simp

lemma unat_u32_less: "unat (w :: u32) < 4294967296"
  by (rule order.strict_trans2 [OF unsigned_less]) simp

lemma unat_u64_less: "unat (w :: u64) < 18446744073709551616"
  by (rule order.strict_trans2 [OF unsigned_less]) simp

lemma unat_ucast_u32_u64 [simp]: "unat (ucast (w :: u32) :: u64) = unat w"
  using unat_u32_less [of w] by (simp add: unsigned_ucast_eq take_bit_nat_eq_self)

lemma ucast_u32_u64_eq_0 [simp]: "(ucast (w :: u32) :: u64) = 0 \<longleftrightarrow> w = 0"
  by (metis unat_ucast_u32_u64 unat_eq_zero)

end
