(* ===== verification/Rust_Str.thy ===== *)
theory Rust_Str
  imports Prelude
begin

text \<open>
  What the source uses of Rust's \<open>str\<close> and integer parsing and formatting. A \<open>str\<close> is the
  list of its Unicode scalar values (\<open>rstr\<close>); \<open>utf8\<close> gives its bytes, so \<open>len()\<close> and
  \<open>bytes()\<close> are what the source counts. \<open>trim\<close> and \<open>split_whitespace\<close> use Unicode
  White_Space. \<open>from_str_radix\<close> is the standard library's unsigned parser: a leading plus
  sign is accepted, an empty string, a bare sign and overflow are errors.
\<close>

section \<open>Strings\<close>

type_synonym rstr = "nat list"

definition lit :: "string \<Rightarrow> rstr" where
  "lit s = map of_char s"

definition is_whitespace :: "nat \<Rightarrow> bool" where
  "is_whitespace c \<longleftrightarrow>
     c \<in> {9, 10, 11, 12, 13, 32, 0x85, 0xa0, 0x1680, 0x2028, 0x2029, 0x202f, 0x205f, 0x3000}
     \<or> 0x2000 \<le> c \<and> c \<le> 0x200a"

definition trim_start :: "rstr \<Rightarrow> rstr" where
  "trim_start s = dropWhile is_whitespace s"

definition trim :: "rstr \<Rightarrow> rstr" where
  "trim s = rev (trim_start (rev (trim_start s)))"

fun split_ws :: "rstr \<Rightarrow> rstr \<Rightarrow> rstr list" where
  "split_ws word [] = (if word = [] then [] else [word])"
| "split_ws word (c # cs) =
     (if is_whitespace c then (if word = [] then split_ws [] cs else word # split_ws [] cs)
      else split_ws (word @ [c]) cs)"

definition split_whitespace :: "rstr \<Rightarrow> rstr list" where
  "split_whitespace s = split_ws [] s"

fun split_once :: "nat \<Rightarrow> rstr \<Rightarrow> (rstr \<times> rstr) option" where
  "split_once c [] = None"
| "split_once c (x # xs) =
     (if x = c then Some ([], xs)
      else map_option (\<lambda>(a, b). (x # a, b)) (split_once c xs))"

lemma split_once_absent: "c \<notin> set a \<Longrightarrow> split_once c (a @ c # b) = Some (a, b)"
  by (induction a) auto

lemma split_once_shorter: "split_once c s = Some (a, b) \<Longrightarrow> length b < length s"
  by (induction s arbitrary: a) (auto split: if_splits option.splits)

fun strip_0x :: "rstr \<Rightarrow> rstr option" where
  "strip_0x (a # b # s) = (if a = 48 \<and> b = 120 then Some s else None)"
| "strip_0x _ = None"

text \<open>\<open>trim_start_matches("0x")\<close> removes the prefix as often as it occurs.\<close>

fun trim_start_0x :: "rstr \<Rightarrow> rstr" where
  "trim_start_0x (a # b # s) = (if a = 48 \<and> b = 120 then trim_start_0x s else a # b # s)"
| "trim_start_0x s = s"

definition to_ascii_lowercase :: "rstr \<Rightarrow> rstr" where
  "to_ascii_lowercase s = map (\<lambda>c. if 65 \<le> c \<and> c \<le> 90 then c + 32 else c) s"

definition is_ascii_hexdigit :: "nat \<Rightarrow> bool" where
  "is_ascii_hexdigit c \<longleftrightarrow> 48 \<le> c \<and> c \<le> 57 \<or> 65 \<le> c \<and> c \<le> 70 \<or> 97 \<le> c \<and> c \<le> 102"

definition utf8_char :: "nat \<Rightarrow> bytes" where
  "utf8_char c =
     (if c < 0x80 then [of_nat c]
      else if c < 0x800 then [of_nat (0xc0 + c div 64), of_nat (0x80 + c mod 64)]
      else if c < 0x10000 then
        [of_nat (0xe0 + c div 4096), of_nat (0x80 + c div 64 mod 64), of_nat (0x80 + c mod 64)]
      else
        [of_nat (0xf0 + c div 262144), of_nat (0x80 + c div 4096 mod 64),
         of_nat (0x80 + c div 64 mod 64), of_nat (0x80 + c mod 64)])"

definition utf8 :: "rstr \<Rightarrow> bytes" where
  "utf8 s = concat (map utf8_char s)"

section \<open>Integers as text\<close>

definition to_digit :: "nat \<Rightarrow> nat \<Rightarrow> nat option" where
  "to_digit radix c =
     (let d = (if 48 \<le> c \<and> c \<le> 57 then c - 48
               else if 97 \<le> c \<and> c \<le> 122 then c - 87
               else if 65 \<le> c \<and> c \<le> 90 then c - 55 else radix)
      in if d < radix then Some d else None)"

fun parse_digits :: "nat \<Rightarrow> nat \<Rightarrow> rstr \<Rightarrow> parse_int_error + nat" where
  "parse_digits radix acc [] = Inr acc"
| "parse_digits radix acc (c # cs) =
     (case to_digit radix c of
        None \<Rightarrow> Inl InvalidDigit
      | Some d \<Rightarrow>
          if acc * radix + d < 2 ^ 64 then parse_digits radix (acc * radix + d) cs
          else Inl IntOverflow)"

definition from_str_radix :: "rstr \<Rightarrow> nat \<Rightarrow> parse_int_error + u64" where
  "from_str_radix s radix =
     (if s = [] then Inl EmptyInt
      else if s = [43] \<or> s = [45] then Inl InvalidDigit
      else map_sum id of_nat
             (parse_digits radix 0 (if hd s = 43 then tl s else s)))"

definition digit_char :: "nat \<Rightarrow> nat" where
  "digit_char d = (if d < 10 then 48 + d else 87 + d)"

fun show_radix :: "nat \<Rightarrow> nat \<Rightarrow> rstr" where
  "show_radix b n =
     (if b < 2 \<or> n < b then [digit_char n]
      else show_radix b (n div b) @ [digit_char (n mod b)])"

declare show_radix.simps [simp del]

text \<open>\<open>{:0wx}\<close>: hexadecimal, padded with zeros to at least \<open>w\<close> digits.\<close>

definition fmt_hex :: "nat \<Rightarrow> nat \<Rightarrow> rstr" where
  "fmt_hex w n = replicate (w - length (show_radix 16 n)) 48 @ show_radix 16 n"

section \<open>Facts\<close>

lemma lit_simps [simp]:
  "lit [] = []"
  "lit (c # s) = of_char c # lit s"
  by (simp_all add: lit_def)

lemma to_digit_digit_char:
  "d < radix \<Longrightarrow> radix \<le> 16 \<Longrightarrow> to_digit radix (digit_char d) = Some d"
  by (auto simp: to_digit_def digit_char_def Let_def)

lemma parse_digits_snoc:
  assumes "parse_digits radix acc cs = Inr a" "to_digit radix c = Some d"
    "a * radix + d < 2 ^ 64"
  shows "parse_digits radix acc (cs @ [c]) = Inr (a * radix + d)"
  using assms by (induction cs arbitrary: acc) (auto split: option.splits if_splits)

lemma parse_digits_show_radix:
  assumes "2 \<le> b" "b \<le> 16" "n < 2 ^ 64"
  shows "parse_digits b 0 (show_radix b n) = Inr n"
  using assms
proof (induction b n rule: show_radix.induct)
  case (1 b n)
  show ?case
  proof (cases "n < b")
    case True
    with "1.prems" show ?thesis
      by (subst show_radix.simps) (simp add: to_digit_digit_char)
  next
    case False
    with "1.prems" have "n div b < 2 ^ 64"
      by (meson div_le_dividend le_less_trans)
    with 1 False have "parse_digits b 0 (show_radix b (n div b)) = Inr (n div b)"
      by simp
    then have "parse_digits b 0 (show_radix b (n div b) @ [digit_char (n mod b)])
        = Inr (n div b * b + n mod b)"
      using "1.prems" False by (intro parse_digits_snoc) (simp_all add: to_digit_digit_char)
    with False "1.prems" show ?thesis by (subst show_radix.simps) simp
  qed
qed

lemma show_radix_nonempty [simp]: "show_radix b n \<noteq> []"
  by (subst show_radix.simps) simp

lemma show_radix_digits:
  "2 \<le> b \<Longrightarrow> b \<le> 16 \<Longrightarrow> c \<in> set (show_radix b n) \<Longrightarrow> \<exists>d<b. c = digit_char d"
proof (induction b n rule: show_radix.induct)
  case (1 b n)
  have eq: "show_radix b n = (if b < 2 \<or> n < b then [digit_char n]
      else show_radix b (n div b) @ [digit_char (n mod b)])"
    by (rule show_radix.simps)
  show ?case
  proof (cases "n < b")
    case True
    with eq "1.prems" show ?thesis by auto
  next
    case False
    with eq "1.prems" have "c \<in> set (show_radix b (n div b)) \<or> c = digit_char (n mod b)"
      by auto
    then show ?thesis
      using False "1.IH" "1.prems"(1,2) by (auto intro: exI [of _ "n mod b"])
  qed
qed

lemma from_str_radix_show:
  assumes "2 \<le> b" "b \<le> 16"
  shows "from_str_radix (show_radix b (unat v)) b = Inr v"
proof -
  have ne: "c \<noteq> 43 \<and> c \<noteq> 45" if "c \<in> set (show_radix b (unat v))" for c
    using show_radix_digits [OF assms that] by (auto simp: digit_char_def split: if_splits)
  then have "hd (show_radix b (unat v)) \<noteq> 43"
    by (meson hd_in_set show_radix_nonempty)
  moreover have "show_radix b (unat v) \<notin> {[43], [45]}"
    using ne by force
  moreover have "unat v < 2 ^ 64"
    using unsigned_less [of v] by simp
  ultimately show ?thesis
    using assms by (simp add: from_str_radix_def parse_digits_show_radix)
qed

text \<open>Trimming removes nothing from a text without whitespace.\<close>

lemma trim_no_ws: "\<forall>c\<in>set s. \<not> is_whitespace c \<Longrightarrow> trim s = s"
proof -
  assume s: "\<forall>c\<in>set s. \<not> is_whitespace c"
  have "dropWhile is_whitespace t = t" if "\<forall>c\<in>set t. \<not> is_whitespace c" for t
    using that by (cases t) auto
  from this [OF s] this [of "rev s"] s show ?thesis
    by (simp add: trim_def trim_start_def)
qed

lemma digit_not_whitespace: "d < 16 \<Longrightarrow> \<not> is_whitespace (digit_char d)"
  by (auto simp: is_whitespace_def digit_char_def)

lemma length_to_ascii_lowercase [simp]: "length (to_ascii_lowercase s) = length s"
  by (simp add: to_ascii_lowercase_def)

lemma utf8_ascii: "\<forall>c\<in>set s. c < 128 \<Longrightarrow> utf8 s = map of_nat s"
  by (induction s) (auto simp: utf8_def utf8_char_def)

end
