(* ===== verification/Layout.thy ===== *)
theory Layout
  imports Rust_Str
begin

text \<open>
  src/src/layout.rs: the fixed guest-physical layout as 64-bit constants, the compile-time
  assertions on it, and \<open>Params::new\<close> with its two entry points \<open>Params::tdx\<close> and
  \<open>Params::snp\<close>. The lemmas give what a successful construction guarantees: the bounds and
  alignment of the described memory, the mandatory command-line word, the PCI aperture of a
  split guest, and what the aperture check does not exclude when \<open>base + size\<close> wraps.
\<close>

section \<open>Constants\<close>

definition PAGE :: u64 where [layout_consts]: "PAGE = 4096"
definition ZERO_PAGE :: u64 where [layout_consts]: "ZERO_PAGE = 0x7000"
definition CMDLINE :: u64 where [layout_consts]: "CMDLINE = 0x20000"
definition ACPI_BASE :: u64 where [layout_consts]: "ACPI_BASE = 0xe0000"
definition MAILBOX :: u64 where [layout_consts]: "MAILBOX = 0xf0000"
definition SNP_CPUID :: u64 where [layout_consts]: "SNP_CPUID = 0xf0000"
definition SNP_SECRETS :: u64 where [layout_consts]: "SNP_SECRETS = 0xf1000"
definition SNP_CC_BLOB :: u64 where [layout_consts]: "SNP_CC_BLOB = 0xf2000"
definition PAGE_TABLES :: u64 where [layout_consts]: "PAGE_TABLES = 0x100000"
definition PAGE_TABLE_SIZE :: u64 where [layout_consts]: "PAGE_TABLE_SIZE = 3 * PAGE"
definition BSP_STACK :: u64 where [layout_consts]: "BSP_STACK = 0x107000"
definition BSP_STACK_SIZE :: u64 where [layout_consts]: "BSP_STACK_SIZE = 0x10000"
definition BSP_STACK_TOP :: u64 where [layout_consts]: "BSP_STACK_TOP = BSP_STACK + BSP_STACK_SIZE"
definition SNP_GHCB :: u64 where [layout_consts]: "SNP_GHCB = 0x117000"
definition SHIM_BASE :: u64 where [layout_consts]: "SHIM_BASE = 0x120000"
definition SHIM_SIZE :: u64 where [layout_consts]: "SHIM_SIZE = PAGE"
definition KERNEL_SETUP_BASE :: u64 where [layout_consts]: "KERNEL_SETUP_BASE = 0x121000"
definition KERNEL_SETUP_AREA_SIZE :: u64 where [layout_consts]: "KERNEL_SETUP_AREA_SIZE = 0x2f000"
definition KERNEL_SETUP_END :: u64 where [layout_consts]: "KERNEL_SETUP_END = KERNEL_SETUP_BASE + KERNEL_SETUP_AREA_SIZE"
definition KERNEL_BASE :: u64 where [layout_consts]: "KERNEL_BASE = 0x1000000"
definition INITRAMFS_BASE :: u64 where [layout_consts]: "INITRAMFS_BASE = 0x20000000"
definition RESET_ALIAS :: u64 where [layout_consts]: "RESET_ALIAS = 0xfffff000"
definition SNP_VMSA :: u64 where [layout_consts]: "SNP_VMSA = 0xfffffffff000"
definition BOOT_CS32 :: u64 where [layout_consts]: "BOOT_CS32 = 0x08"
definition BOOT_CS :: u64 where [layout_consts]: "BOOT_CS = 0x10"
definition BOOT_DS :: u64 where [layout_consts]: "BOOT_DS = 0x18"
definition GDT_LIMIT :: u64 where [layout_consts]: "GDT_LIMIT = BOOT_DS + 7"
definition GDT_PTR :: u64 where [layout_consts]: "GDT_PTR = BSP_STACK + GDT_LIMIT + 1"
definition SHIM_AP_PARK :: u64 where [layout_consts]: "SHIM_AP_PARK = 0xb00"
definition SNP_AP_ENTRY :: u64 where [layout_consts]: "SNP_AP_ENTRY = SHIM_BASE + SHIM_AP_PARK"
definition SHARED_ALIAS :: u64 where [layout_consts]: "SHARED_ALIAS = 0x8000000000"
definition SHIM_DATA :: u64 where [layout_consts]: "SHIM_DATA = 0xc00"
definition RESET_VECTOR :: u64 where [layout_consts]: "RESET_VECTOR = PAGE - 16"
definition SHIM_DATA_SIZE :: u64 where [layout_consts]: "SHIM_DATA_SIZE = RESET_VECTOR - SHIM_DATA"

text \<open>Sizes and limits of the identity map and of the q35 memory split.\<close>

definition SHIM_LIMIT :: nat where [layout_consts]: "SHIM_LIMIT = 256 * 1024"
definition GIB :: u64 where [layout_consts]: "GIB = 0x40000000"
definition MAP_LIMIT :: u64 where [layout_consts]: "MAP_LIMIT = 512 * GIB"
definition FOUR_GIB :: u64 where [layout_consts]: "FOUR_GIB = 4 * GIB"
definition Q35_SPLIT :: u64 where [layout_consts]: "Q35_SPLIT = 0xb0000000"
definition Q35_LOWMEM :: u64 where [layout_consts]: "Q35_LOWMEM = 2 * GIB"
definition MAX_RAM :: u64 where [layout_consts]: "MAX_RAM = MAP_LIMIT - FOUR_GIB + Q35_LOWMEM"

text \<open>The ACPI page.\<close>

definition ACPI_XSDT :: u64 where [layout_consts]: "ACPI_XSDT = 0x100"
definition ACPI_FADT :: u64 where [layout_consts]: "ACPI_FADT = 0x200"
definition ACPI_DSDT :: u64 where [layout_consts]: "ACPI_DSDT = 0x400"
definition ACPI_MADT :: u64 where [layout_consts]: "ACPI_MADT = 0x500"
definition RSDP_LEN :: u64 where [layout_consts]: "RSDP_LEN = 36"
definition XSDT_LEN :: u64 where [layout_consts]: "XSDT_LEN = 52"
definition FADT_LEN :: u64 where [layout_consts]: "FADT_LEN = 276"
definition DSDT_LEN :: u64 where [layout_consts]: "DSDT_LEN = 36"
definition MADT_HEADER_LEN :: u64 where [layout_consts]: "MADT_HEADER_LEN = 44"
definition MADT_LAPIC_LEN :: u64 where [layout_consts]: "MADT_LAPIC_LEN = 8"
definition MADT_WAKEUP_LEN :: u64 where [layout_consts]: "MADT_WAKEUP_LEN = 16"
definition MAX_VCPUS :: u32 where [layout_consts]: "MAX_VCPUS = ucast ((PAGE - ACPI_MADT - MADT_HEADER_LEN - MADT_WAKEUP_LEN) div MADT_LAPIC_LEN)"

text \<open>SEV-SNP launch values and the defaults of the command line.\<close>

definition SNP_SEV_FEATURES :: u64 where [layout_consts]: "SNP_SEV_FEATURES = 1"
definition POLICY_ABI_MINOR :: u64 where [layout_consts]: "POLICY_ABI_MINOR = 51"
definition POLICY_ABI_MAJOR :: u64 where [layout_consts]: "POLICY_ABI_MAJOR = push_bit 8 1"
definition POLICY_SMT :: u64 where [layout_consts]: "POLICY_SMT = push_bit 16 1"
definition POLICY_RESERVED_ONE :: u64 where [layout_consts]: "POLICY_RESERVED_ONE = push_bit 17 1"
definition SNP_GUEST_POLICY :: u64 where [layout_consts]: "SNP_GUEST_POLICY = POLICY_ABI_MINOR OR POLICY_ABI_MAJOR OR POLICY_SMT OR POLICY_RESERVED_ONE"
definition DEFAULT_RAM :: u64 where [layout_consts]: "DEFAULT_RAM = 0x40000000"
definition DEFAULT_VCPUS :: u32 where [layout_consts]: "DEFAULT_VCPUS = 4"
definition DEFAULT_CBIT :: u8 where [layout_consts]: "DEFAULT_CBIT = 51"

definition DEFAULT_CMDLINE :: rstr where "DEFAULT_CMDLINE = lit ''panic=-1''"
definition REQUIRED_CMDLINE :: rstr where "REQUIRED_CMDLINE = lit ''no5lvl''"

text \<open>The compile-time assertions.\<close>

definition layout_asserts :: bool where
  "layout_asserts \<longleftrightarrow>
     RESET_ALIAS < MAP_LIMIT
   \<and> MAILBOX + PAGE \<le> PAGE_TABLES
   \<and> SNP_CPUID + PAGE = SNP_SECRETS \<and> SNP_SECRETS + PAGE = SNP_CC_BLOB
   \<and> SNP_CC_BLOB + PAGE \<le> PAGE_TABLES
   \<and> PAGE_TABLES + PAGE_TABLE_SIZE \<le> BSP_STACK
   \<and> GDT_PTR + 10 \<le> BSP_STACK_TOP
   \<and> BSP_STACK_TOP \<le> SNP_GHCB \<and> SNP_GHCB + PAGE \<le> SHIM_BASE
   \<and> SHARED_ALIAS = MAP_LIMIT
   \<and> SHIM_BASE + SHIM_SIZE = KERNEL_SETUP_BASE
   \<and> KERNEL_SETUP_END \<le> KERNEL_BASE
   \<and> KERNEL_BASE < INITRAMFS_BASE
   \<and> SHIM_DATA + SHIM_DATA_SIZE \<le> SHIM_SIZE
   \<and> MAX_VCPUS \<le> 0xffff
   \<and> SHIM_AP_PARK + 64 \<le> SHIM_DATA
   \<and> RESET_ALIAS + PAGE = 0x100000000"

definition acpi_asserts :: bool where
  "acpi_asserts \<longleftrightarrow>
     RSDP_LEN \<le> ACPI_XSDT
   \<and> ACPI_XSDT + XSDT_LEN \<le> ACPI_FADT
   \<and> ACPI_FADT + FADT_LEN \<le> ACPI_DSDT
   \<and> ACPI_DSDT + DSDT_LEN \<le> ACPI_MADT"

lemma layout_asserts_hold: layout_asserts
  by (simp add: layout_asserts_def layout_consts)

lemma acpi_asserts_hold: acpi_asserts
  by (simp add: acpi_asserts_def layout_consts)

section \<open>Parameters\<close>

record params =
  p_memory :: u64
  p_vcpus :: u32
  p_cmdline :: rstr
  p_cbit :: u8
  p_mmio :: "(u64 \<times> u64) list"

definition div_ceil :: "u64 \<Rightarrow> u64 \<Rightarrow> u64" where
  "div_ceil a b = (if a mod b = 0 then a div b else a div b + 1)"

definition align_up :: "u64 \<Rightarrow> u64 \<Rightarrow> u64" where
  "align_up value alignment = div_ceil value alignment * alignment"

fun check_holes :: "u64 \<Rightarrow> (u64 \<times> u64) list \<Rightarrow> unit result" where
  "check_holes memory [] = Inr ()"
| "check_holes memory ((base, sz) # rest) =
     (if \<not> is_multiple_of base PAGE \<or> \<not> is_multiple_of sz PAGE \<or> sz = 0 then Inl (Params HoleUnaligned)
      else if base + sz > memory then Inl (Params HoleOutside)
      else check_holes memory rest)"

definition full_cmdline :: "rstr \<Rightarrow> rstr" where
  "full_cmdline cmdline =
     (let c = trim cmdline
      in if c = [] then DEFAULT_CMDLINE @ lit '' '' @ REQUIRED_CMDLINE
         else if REQUIRED_CMDLINE \<in> set (split_whitespace c) then c
         else c @ lit '' '' @ REQUIRED_CMDLINE)"

definition new_params ::
  "u64 \<Rightarrow> u32 \<Rightarrow> rstr \<Rightarrow> u8 \<Rightarrow> (u64 \<times> u64) list \<Rightarrow> u64 \<Rightarrow> params result" where
  "new_params ram vcpus cmdline cbit mmio hole_end =
     (if \<not> is_multiple_of ram PAGE \<or> ram \<le> INITRAMFS_BASE \<or> ram > MAX_RAM then Inl (Params BadRam)
      else if vcpus = 0 \<or> vcpus > MAX_VCPUS then Inl (Params BadVcpus)
      else if \<not> (32 \<le> cbit \<and> cbit \<le> 63) then Inl (Params BadCbit)
      else
        let cmdline = full_cmdline cmdline
        in if \<exists>b\<in>set (utf8 cmdline). b = 0 \<or> \<not> b < 128 then Inl (Params CmdlineNotAscii)
        else
          let split = (ram \<ge> Q35_SPLIT);
              memory = (if split then FOUR_GIB + ram - Q35_LOWMEM else ram);
              mmio = (if split then [(Q35_LOWMEM, hole_end - Q35_LOWMEM)] else []) @ mmio
          in bind_result (check_holes memory mmio) (\<lambda>_.
               Inr \<lparr>p_memory = memory, p_vcpus = vcpus, p_cmdline = cmdline, p_cbit = cbit,
                    p_mmio = mmio\<rparr>))"

definition tdx_params ::
  "u64 \<Rightarrow> u32 \<Rightarrow> rstr \<Rightarrow> (u64 \<times> u64) list \<Rightarrow> params result" where
  "tdx_params ram vcpus cmdline mmio = new_params ram vcpus cmdline DEFAULT_CBIT mmio RESET_ALIAS"

definition snp_params ::
  "u64 \<Rightarrow> u32 \<Rightarrow> u8 \<Rightarrow> rstr \<Rightarrow> (u64 \<times> u64) list \<Rightarrow> params result" where
  "snp_params ram vcpus cbit cmdline mmio = new_params ram vcpus cmdline cbit mmio FOUR_GIB"

section \<open>Page alignment\<close>

lemma PAGE_aligned_iff: "is_multiple_of (a::u64) PAGE \<longleftrightarrow> 4096 dvd unat a"
proof -
  have "unat (a mod PAGE) = unat a mod 4096"
    by (simp add: unat_mod PAGE_def)
  then show ?thesis
    unfolding is_multiple_of_def by (metis unat_eq_zero mod_0_imp_dvd dvd_imp_mod_0)
qed

lemma dvd_mod_2p64: "(4096::nat) dvd n mod 18446744073709551616 \<longleftrightarrow> 4096 dvd n"
  by (rule dvd_mod_iff) simp

lemma PAGE_aligned_add: "is_multiple_of (a::u64) PAGE \<Longrightarrow> is_multiple_of b PAGE \<Longrightarrow> is_multiple_of (a + b) PAGE"
  by (simp add: PAGE_aligned_iff unat_word_ariths dvd_mod_2p64)

lemma PAGE_aligned_diff:
  assumes "is_multiple_of (a::u64) PAGE" "is_multiple_of b PAGE"
  shows "is_multiple_of (a - b) PAGE"
proof (cases "b \<le> a")
  case True
  with assms show ?thesis
    by (simp add: PAGE_aligned_iff unat_sub dvd_diff_nat)
next
  case False
  then have "unat (a - b) = unat a + 2 ^ 64 - unat b"
    by (simp add: unat_sub_if_size word_size word_le_nat_alt)
  moreover have "(4096::nat) dvd 2 ^ 64" by simp
  ultimately show ?thesis
    using assms by (simp only: PAGE_aligned_iff dvd_diff_nat dvd_add)
qed

lemma unat_PAGE [simp]: "unat PAGE = 4096"
  by (simp add: PAGE_def)

lemma PAGE_aligned_mult: "is_multiple_of (x * PAGE) PAGE"
  by (simp only: PAGE_aligned_iff unat_word_ariths(2) unat_PAGE len_bit0 len_num1)
    (simp add: dvd_mod_2p64)

lemma PAGE_aligned_align_up: "is_multiple_of (align_up v PAGE) PAGE"
  unfolding align_up_def by (rule PAGE_aligned_mult)

lemma PAGE_aligned_max_min:
  fixes a b :: u64
  assumes "is_multiple_of a PAGE" "is_multiple_of b PAGE"
  shows "is_multiple_of (max a b) PAGE" "is_multiple_of (min a b) PAGE"
  using assms by (simp_all add: max_def min_def)

lemma PAGE_aligned_PAGE: "is_multiple_of PAGE PAGE"
  by (simp add: PAGE_aligned_iff)

lemmas page_aligned_arith = PAGE_aligned_add PAGE_aligned_diff PAGE_aligned_max_min
  PAGE_aligned_align_up PAGE_aligned_PAGE

lemma ceil_div_page:
  "(n + 4095) div 4096 = (if n mod 4096 = 0 then n div 4096 else n div 4096 + (1::nat))"
proof -
  define q r where "q = n div 4096" and "r = n mod 4096"
  have r: "r < 4096" by (simp add: r_def)
  have "n + 4095 = 4096 * q + (r + 4095)" by (simp add: q_def r_def)
  then have "(n + 4095) div 4096 = q + (r + 4095) div 4096"
    by (metis div_mult_self4 zero_neq_numeral)
  moreover have "(r + 4095) div 4096 = (if r = 0 then 0 else 1)"
    using r by (auto intro!: div_nat_eqI)
  ultimately show ?thesis by (simp add: q_def r_def)
qed

lemma unat_pages_needed:
  assumes "unat v + 4095 < 2 ^ 64"
  shows "unat (div_ceil v PAGE) = (unat v + 4095) div 4096"
proof (cases "is_multiple_of v PAGE")
  case True
  then show ?thesis
    by (simp add: div_ceil_def unat_div flip: is_multiple_of_def)
      (simp add: PAGE_aligned_iff dvd_eq_mod_eq_0 ceil_div_page)
next
  case False
  have "unat (v div PAGE) + unat (1::u64) < 2 ^ LENGTH(64)"
    using assms by (simp add: unat_div)
  then have "unat (v div PAGE + 1) = unat (v div PAGE) + 1"
    by (subst unat_add_noov) simp_all
  with False show ?thesis
    by (simp add: div_ceil_def unat_div flip: is_multiple_of_def)
      (simp add: PAGE_aligned_iff dvd_eq_mod_eq_0 ceil_div_page)
qed

lemma unat_align_up:
  assumes "unat v + 4095 < 2 ^ 64"
  shows "unat (align_up v PAGE) = (unat v + 4095) div 4096 * 4096"
proof -
  have "(unat v + 4095) div 4096 * 4096 \<le> unat v + 4095"
    by (rule div_times_less_eq_dividend)
  also have "\<dots> < 2 ^ LENGTH(64)"
    using assms by simp
  finally have "(unat v + 4095) div 4096 * 4096 < 2 ^ LENGTH(64)" .
  then show ?thesis
    unfolding align_up_def
    by (subst unat_word_ariths(2)) (simp only: unat_pages_needed [OF assms] unat_PAGE mod_less)
qed

lemma align_up_ge:
  assumes "unat v + 4095 < 2 ^ 64"
  shows "v \<le> align_up v PAGE"
proof -
  have "unat v \<le> (unat v + 4095) div 4096 * 4096"
    using div_mult_mod_eq [of "unat v" 4096] mod_less_divisor [of 4096 "unat v"]
    by (auto simp: ceil_div_page algebra_simps)
  with unat_align_up [OF assms] show ?thesis by (simp add: word_le_nat_alt)
qed

section \<open>What a successful \<open>Params::new\<close> guarantees\<close>

lemma split_ws_append_sep:
  "is_whitespace s \<Longrightarrow> split_ws w (xs @ s # ys) = split_ws w xs @ split_ws [] ys"
  by (induction w xs rule: split_ws.induct) auto

lemma full_cmdline_has_required:
  "REQUIRED_CMDLINE \<in> set (split_whitespace (full_cmdline cmdline))"
proof -
  have sp: "is_whitespace (of_char CHR '' '')"
    by (simp add: is_whitespace_def)
  have req: "REQUIRED_CMDLINE \<in> set (split_ws [] REQUIRED_CMDLINE)"
    by (simp add: REQUIRED_CMDLINE_def is_whitespace_def)
  have "REQUIRED_CMDLINE \<in> set (split_ws [] (c @ lit '' '' @ REQUIRED_CMDLINE))" for c
    using split_ws_append_sep [OF sp, of "[]" c REQUIRED_CMDLINE] req by simp
  then show ?thesis
    by (simp add: full_cmdline_def split_whitespace_def Let_def)
qed

lemma check_holes_Inr_iff:
  "check_holes memory hs = Inr () \<longleftrightarrow>
     (\<forall>(base, sz)\<in>set hs. is_multiple_of base PAGE \<and> is_multiple_of sz PAGE \<and> sz \<noteq> 0 \<and> base + sz \<le> memory)"
  by (induction memory hs rule: check_holes.induct) auto

lemma new_paramsE:
  assumes "new_params ram vcpus cmdline cbit mmio hole_end = Inr p"
  obtains "is_multiple_of ram PAGE" "INITRAMFS_BASE < ram" "ram \<le> MAX_RAM"
    "0 < vcpus" "vcpus \<le> MAX_VCPUS" "32 \<le> cbit" "cbit \<le> 63"
    "\<forall>b\<in>set (utf8 (full_cmdline cmdline)). b \<noteq> 0 \<and> b < 128"
    "p = \<lparr>p_memory = (if ram \<ge> Q35_SPLIT then FOUR_GIB + ram - Q35_LOWMEM else ram),
        p_vcpus = vcpus, p_cmdline = full_cmdline cmdline, p_cbit = cbit,
        p_mmio = (if ram \<ge> Q35_SPLIT then [(Q35_LOWMEM, hole_end - Q35_LOWMEM)] else []) @ mmio\<rparr>"
    "check_holes (p_memory p) (p_mmio p) = Inr ()"
  using assms
  by (auto simp: new_params_def Let_def bind_result_Inr_conv word_gt_0 split: if_splits)

lemma split_memory:
  assumes "Q35_SPLIT \<le> ram" "ram \<le> MAX_RAM"
  shows "unat (FOUR_GIB + ram - Q35_LOWMEM) = unat ram + 2147483648"
proof -
  have "FOUR_GIB + ram - Q35_LOWMEM = ram + (FOUR_GIB - Q35_LOWMEM)"
    by (simp only: algebra_simps)
  also have "FOUR_GIB - Q35_LOWMEM = 2147483648"
    by (simp add: layout_consts)
  finally have "FOUR_GIB + ram - Q35_LOWMEM = ram + 2147483648" .
  moreover have "unat (ram + 2147483648) = unat ram + 2147483648"
    using assms by (subst unat_add_noov) (auto simp: layout_consts word_le_nat_alt)
  ultimately show ?thesis by (simp only:)
qed

lemma new_params_memory:
  assumes "new_params ram vcpus cmdline cbit mmio hole_end = Inr p"
  shows "INITRAMFS_BASE < p_memory p \<and> p_memory p \<le> MAP_LIMIT \<and> is_multiple_of (p_memory p) PAGE"
proof -
  from assms obtain ram: "is_multiple_of ram PAGE" "INITRAMFS_BASE < ram" "ram \<le> MAX_RAM"
    and p: "p_memory p = (if ram \<ge> Q35_SPLIT then FOUR_GIB + ram - Q35_LOWMEM else ram)"
    by (elim new_paramsE) simp
  show ?thesis
  proof (cases "Q35_SPLIT \<le> ram")
    case True
    have mem: "unat (p_memory p) = unat ram + 2147483648"
      using split_memory [OF True ram(3)] p True by simp
    have "4096 dvd unat (p_memory p)"
      using ram(1) mem by (simp add: PAGE_aligned_iff)
    then have "is_multiple_of (p_memory p) PAGE"
      by (simp only: PAGE_aligned_iff)
    moreover have "INITRAMFS_BASE < p_memory p \<and> p_memory p \<le> MAP_LIMIT"
      using mem ram True by (simp add: layout_consts word_le_nat_alt word_less_nat_alt)
    ultimately show ?thesis by blast
  next
    case False
    with p ram show ?thesis
      by (auto simp: layout_consts word_le_nat_alt)
  qed
qed

section \<open>Properties\<close>

text \<open>C36: parameters that are accepted describe a guest the measured tables can map: the memory is
  page-aligned, holds the initramfs address and ends inside the identity map, the processor
  count fits the MADT page, every aperture is a page-aligned non-empty range whose end does
  not exceed the memory, and the command line is ASCII without NUL and asks for four-level
  paging as a word of its own.\<close>

theorem params_in_bounds:
  assumes "new_params ram vcpus cmdline cbit mmio hole_end = Inr p"
  shows "INITRAMFS_BASE < p_memory p \<and> p_memory p \<le> MAP_LIMIT \<and>
    is_multiple_of (p_memory p) PAGE \<and> 1 \<le> p_vcpus p \<and> p_vcpus p \<le> MAX_VCPUS \<and>
    (\<forall>(base, len)\<in>set (p_mmio p).
       is_multiple_of base PAGE \<and> is_multiple_of len PAGE \<and> len \<noteq> 0 \<and> base + len \<le> p_memory p) \<and>
    REQUIRED_CMDLINE \<in> set (split_whitespace (p_cmdline p)) \<and>
    (\<forall>b\<in>set (utf8 (p_cmdline p)). b \<noteq> 0 \<and> b < 128)"
proof -
  from assms have p: "p_cmdline p = full_cmdline cmdline" "p_vcpus p = vcpus"
    "check_holes (p_memory p) (p_mmio p) = Inr ()"
    "\<forall>b\<in>set (utf8 (full_cmdline cmdline)). b \<noteq> 0 \<and> b < 128"
    "0 < vcpus" "vcpus \<le> MAX_VCPUS"
    by (elim new_paramsE; simp)+
  from p(5) have "1 \<le> vcpus" by (simp add: word_le_nat_alt word_less_nat_alt Suc_le_eq)
  with p new_params_memory [OF assms] show ?thesis
    by (simp add: check_holes_Inr_iff full_cmdline_has_required)
qed

text \<open>The default guest of the tests, with no command line of its own.\<close>

definition default_params :: params where
  "default_params = \<lparr>p_memory = DEFAULT_RAM, p_vcpus = DEFAULT_VCPUS,
     p_cmdline = lit ''panic=-1 no5lvl'', p_cbit = DEFAULT_CBIT, p_mmio = []\<rparr>"

lemma default_params: "tdx_params DEFAULT_RAM DEFAULT_VCPUS [] [] = Inr default_params"
  by (simp add: tdx_params_def new_params_def full_cmdline_def trim_def trim_start_def
      DEFAULT_CMDLINE_def REQUIRED_CMDLINE_def utf8_def utf8_char_def layout_consts
      is_multiple_of_def default_params_def)

theorem params_in_bounds_witness:
  "tdx_params DEFAULT_RAM DEFAULT_VCPUS [] [] = Inr default_params \<and>
   p_memory default_params \<le> MAP_LIMIT \<and>
   lit ''no5lvl'' \<in> set (split_whitespace (p_cmdline default_params))"
  using params_in_bounds [OF default_params [unfolded tdx_params_def]] default_params
  by (simp add: REQUIRED_CMDLINE_def)

text \<open>
  Two inputs the error messages exclude and the checks accept: a command line with a control
  character, and an aperture whose end wraps below its base.
\<close>

lemma control_character_accepted:
  "\<exists>p. tdx_params DEFAULT_RAM DEFAULT_VCPUS [97, 7, 98] [] = Inr p \<and> 7 \<in> set (p_cmdline p)"
  by (simp add: tdx_params_def new_params_def full_cmdline_def trim_def trim_start_def
      is_whitespace_def split_whitespace_def REQUIRED_CMDLINE_def utf8_def utf8_char_def
      layout_consts is_multiple_of_def)

lemma wrapping_aperture_accepted:
  "tdx_params DEFAULT_RAM DEFAULT_VCPUS [] [(0x10000000, 0xfffffffff0001000)] =
     Inr (default_params\<lparr>p_mmio := [(0x10000000, 0xfffffffff0001000)]\<rparr>)"
  by (simp add: tdx_params_def new_params_def full_cmdline_def trim_def trim_start_def
      DEFAULT_CMDLINE_def REQUIRED_CMDLINE_def utf8_def utf8_char_def layout_consts
      is_multiple_of_def default_params_def)

end
