(* ===== verification/Bytes.thy ===== *)
theory Bytes
  imports Prelude
begin

text \<open>
  Byte buffers: little-endian integers (\<open>to_le_bytes\<close>, \<open>from_le_bytes\<close>), slices that
  panic out of range (\<open>peek\<close> reads \<open>v[at..at+n]\<close>, \<open>poke\<close> is \<open>copy_from_slice\<close> into
  \<open>v[at..at+n]\<close>), and the accessors \<open>get16\<close>, \<open>get32\<close>, \<open>get64\<close>, \<open>put32\<close>,
  \<open>put64\<close> of src/src/boot.rs. The locale \<open>fixed_codec\<close> states what every fixed-width
  record format of the image promises; its lemmas give injectivity and read-back of
  concatenated records, and each record format of the model interprets it.
\<close>

section \<open>Little-endian integers\<close>

definition le_bytes :: "nat \<Rightarrow> 'a::len word \<Rightarrow> bytes" where
  "le_bytes n w = map (\<lambda>i. ucast (drop_bit (8 * i) w)) [0..<n]"

fun le_word :: "bytes \<Rightarrow> 'a::len word" where
  "le_word [] = 0"
| "le_word (b # bs) = ucast b OR push_bit 8 (le_word bs)"

abbreviation le16 :: "u16 \<Rightarrow> bytes" where "le16 \<equiv> le_bytes 2"
abbreviation le32 :: "u32 \<Rightarrow> bytes" where "le32 \<equiv> le_bytes 4"
abbreviation le64 :: "u64 \<Rightarrow> bytes" where "le64 \<equiv> le_bytes 8"

lemma length_le_bytes [simp]: "length (le_bytes n w) = n"
  by (simp add: le_bytes_def)

lemma nth_le_bytes [simp]: "i < n \<Longrightarrow> le_bytes n w ! i = ucast (drop_bit (8 * i) w)"
  by (simp add: le_bytes_def)

lemma bit_le_word:
  "bit (le_word bs :: 'a::len word) k \<longleftrightarrow>
     k < LENGTH('a) \<and> k div 8 < length bs \<and> bit (bs ! (k div 8)) (k mod 8)"
proof (induction bs arbitrary: k)
  case Nil
  then show ?case by simp
next
  case (Cons b bs)
  show ?case
  proof (cases "k < 8")
    case True
    then show ?thesis
      by (auto simp: bit_or_iff bit_ucast_iff bit_push_bit_iff)
  next
    case False
    then have k: "k div 8 = Suc ((k - 8) div 8)" "k mod 8 = (k - 8) mod 8"
      by (simp_all add: le_div_geq le_mod_geq)
    from False have "\<not> bit b k"
      by (metis bit_imp_le_length len_num0 len_num1 len_bit0 linorder_not_less mult_2 numeral_Bit0
          numeral_eq_Suc nat_mult_1_right order_less_le_trans bit_word_def not_le numeral_code(1)
          less_or_eq_imp_le)
    with False show ?thesis
      by (auto simp: bit_or_iff bit_ucast_iff bit_push_bit_iff Cons.IH k)
  qed
qed

lemma le_word_le_bytes:
  assumes "LENGTH('a) \<le> 8 * n"
  shows "le_word (le_bytes n (w :: 'a::len word)) = w"
proof (rule bit_word_eqI)
  fix k assume k: "k < LENGTH('a)"
  with assms have "k div 8 < n" by auto
  with k show "bit (le_word (le_bytes n w) :: 'a word) k = bit w k"
    by (simp add: bit_le_word bit_ucast_iff bit_drop_bit_eq)
qed

lemma le_bytes_le_word:
  assumes "length bs = n" "8 * n \<le> LENGTH('a)"
  shows "le_bytes n (le_word bs :: 'a::len word) = bs"
proof (rule nth_equalityI)
  show "length (le_bytes n (le_word bs :: 'a word)) = length bs"
    using assms by simp
next
  fix i assume "i < length (le_bytes n (le_word bs :: 'a word))"
  then have i: "i < n" by simp
  show "le_bytes n (le_word bs :: 'a word) ! i = bs ! i"
  proof (rule bit_word_eqI)
    fix k assume "k < LENGTH(8)"
    then have k: "k < 8" by simp
    have "(8 * i + k) div 8 = i" "(8 * i + k) mod 8 = k"
      using k by simp_all
    moreover have "8 * i + k < LENGTH('a)"
      using i k assms(2) by linarith
    ultimately show "bit (le_bytes n (le_word bs :: 'a word) ! i) k = bit (bs ! i) k"
      using i k assms(1) by (simp add: bit_ucast_iff bit_drop_bit_eq bit_le_word)
  qed
qed

lemma le_word_le16 [simp]: "le_word (le16 w) = w"
  and le_word_le32 [simp]: "le_word (le32 x) = x"
  and le_word_le64 [simp]: "le_word (le64 y) = y"
  by (rule le_word_le_bytes, simp)+

lemma le64_inject [simp]: "le64 a = le64 b \<longleftrightarrow> a = b"
  and le32_inject [simp]: "le32 c = le32 d \<longleftrightarrow> c = d"
  by (metis le_word_le64, metis le_word_le32)

section \<open>Slices and in-place copies\<close>

definition peek :: "nat \<Rightarrow> nat \<Rightarrow> 'a list \<Rightarrow> 'a list option" where
  "peek at n v = (if at + n \<le> length v then Some (take n (drop at v)) else None)"

definition blit :: "nat \<Rightarrow> 'a list \<Rightarrow> 'a list \<Rightarrow> 'a list" where
  "blit at ys v = take at v @ ys @ drop (at + length ys) v"

definition poke :: "nat \<Rightarrow> 'a list \<Rightarrow> 'a list \<Rightarrow> 'a list option" where
  "poke at ys v = (if at + length ys \<le> length v then Some (blit at ys v) else None)"

text \<open>One element: \<open>v[at]\<close> and \<open>v[at] = x\<close>.\<close>

definition read_at :: "nat \<Rightarrow> 'a list \<Rightarrow> 'a option" where
  "read_at at v = (if at < length v then Some (v ! at) else None)"

definition put8 :: "nat \<Rightarrow> 'a \<Rightarrow> 'a list \<Rightarrow> 'a list option" where
  "put8 at x v = (if at < length v then Some (v[at := x]) else None)"

definition get16 :: "nat \<Rightarrow> bytes \<Rightarrow> u16 option" where
  "get16 at v = map_option le_word (peek at 2 v)"

definition get32 :: "nat \<Rightarrow> bytes \<Rightarrow> u32 option" where
  "get32 at v = map_option le_word (peek at 4 v)"

definition get64 :: "nat \<Rightarrow> bytes \<Rightarrow> u64 option" where
  "get64 at v = map_option le_word (peek at 8 v)"

definition put32 :: "nat \<Rightarrow> u32 \<Rightarrow> bytes \<Rightarrow> bytes option" where
  "put32 at n v = poke at (le32 n) v"

definition put64 :: "nat \<Rightarrow> u64 \<Rightarrow> bytes \<Rightarrow> bytes option" where
  "put64 at n v = poke at (le64 n) v"

lemma length_blit [simp]:
  "length v = n \<Longrightarrow> at + length ys \<le> n \<Longrightarrow> length (blit at ys v) = n"
  by (auto simp: blit_def)

lemma nth_blit:
  assumes "at + length ys \<le> length v" "i < length v"
  shows "blit at ys v ! i = (if at \<le> i \<and> i < at + length ys then ys ! (i - at) else v ! i)"
  using assms by (auto simp: blit_def nth_append min_def)

lemma peek_blit_same:
  "at + length ys \<le> length v \<Longrightarrow> n = length ys \<Longrightarrow> peek at n (blit at ys v) = Some ys"
  by (simp add: peek_def blit_def)

lemma peek_blit_other:
  assumes "at + length ys \<le> length v" "i + n \<le> at \<or> at + length ys \<le> i"
  shows "peek i n (blit at ys v) = peek i n v"
proof -
  have "take n (drop i (blit at ys v)) = take n (drop i v)" if "i + n \<le> length v"
    by (rule nth_equalityI) (use assms that in \<open>auto simp: nth_blit\<close>)
  with assms(1) show ?thesis by (simp add: peek_def)
qed

lemma poke_Some_iff: "poke at ys v = Some w \<longleftrightarrow> at + length ys \<le> length v \<and> w = blit at ys v"
  by (auto simp: poke_def)

lemma poke_in_bounds [simp]: "at + length ys \<le> length v \<Longrightarrow> poke at ys v = Some (blit at ys v)"
  by (simp add: poke_def)

lemma put32_in_bounds [simp]: "at + 4 \<le> length v \<Longrightarrow> put32 at n v = Some (blit at (le32 n) v)"
  and put64_in_bounds [simp]: "at + 8 \<le> length v \<Longrightarrow> put64 at m v = Some (blit at (le64 m) v)"
  by (simp_all add: put32_def put64_def)

lemma put8_in_bounds [simp]: "at < length v \<Longrightarrow> put8 at x v = Some (blit at [x] v)"
  by (simp add: put8_def blit_def upd_conv_take_nth_drop)

lemma get_blit_same [simp]:
  "at + 4 \<le> length v \<Longrightarrow> get32 at (blit at (le32 x) v) = Some x"
  "at + 8 \<le> length v \<Longrightarrow> get64 at (blit at (le64 y) v) = Some y"
  "at + 2 \<le> length v \<Longrightarrow> get16 at (blit at (le16 z) v) = Some z"
  by (simp_all add: get16_def get32_def get64_def peek_blit_same)

lemma get_blit_other [simp]:
  "at + length ys \<le> length v \<Longrightarrow> i + 4 \<le> at \<or> at + length ys \<le> i \<Longrightarrow>
     get32 i (blit at ys v) = get32 i v"
  "at + length ys \<le> length v \<Longrightarrow> i + 8 \<le> at \<or> at + length ys \<le> i \<Longrightarrow>
     get64 i (blit at ys v) = get64 i v"
  "at + length ys \<le> length v \<Longrightarrow> i + 2 \<le> at \<or> at + length ys \<le> i \<Longrightarrow>
     get16 i (blit at ys v) = get16 i v"
  by (simp_all add: get16_def get32_def get64_def peek_blit_other)

lemma read_at_blit_other [simp]:
  assumes "at + length ys \<le> length v" "i < at \<or> at + length ys \<le> i"
  shows "read_at i (blit at ys v) = read_at i v"
  using assms by (auto simp: read_at_def nth_blit)

lemma read_at_blit_same [simp]:
  "at < length v \<Longrightarrow> read_at at (blit at [x] v) = Some x"
  by (simp add: read_at_def nth_blit)

lemma get_in_bounds:
  "at + 2 \<le> length v \<Longrightarrow> get16 at v = Some (le_word (take 2 (drop at v)))"
  "at + 4 \<le> length v \<Longrightarrow> get32 at v = Some (le_word (take 4 (drop at v)))"
  "at + 8 \<le> length v \<Longrightarrow> get64 at v = Some (le_word (take 8 (drop at v)))"
  by (simp_all add: get16_def get32_def get64_def peek_def)

lemma read_at_in_bounds: "at < length v \<Longrightarrow> read_at at v = Some (v ! at)"
  by (simp add: read_at_def)

lemma peek_in_bounds: "at + n \<le> length v \<Longrightarrow> peek at n v = Some (take n (drop at v))"
  by (simp add: peek_def)

text \<open>Copies that continue where the last one ended make one copy.\<close>

lemma blit_blit_append:
  "at + length xs + length ys \<le> length v \<Longrightarrow> m = at + length xs \<Longrightarrow>
     blit m ys (blit at xs v) = blit at (xs @ ys) v"
  by (rule nth_equalityI) (auto simp: nth_blit nth_append)

text \<open>A write into a window leaves everything outside it alone.\<close>

definition same_outside :: "nat \<Rightarrow> nat \<Rightarrow> 'a list \<Rightarrow> 'a list \<Rightarrow> bool" where
  "same_outside lo hi v w \<longleftrightarrow>
     length w = length v \<and> (\<forall>i<length v. i < lo \<or> hi \<le> i \<longrightarrow> w ! i = v ! i)"

lemma same_outside_refl [simp]: "same_outside lo hi v v"
  by (simp add: same_outside_def)

lemma same_outside_blit [simp]:
  "same_outside lo hi v w \<Longrightarrow> lo \<le> at \<Longrightarrow> at + length ys \<le> hi \<Longrightarrow> at + length ys \<le> length w \<Longrightarrow>
     same_outside lo hi v (blit at ys w)"
  by (auto simp: same_outside_def nth_blit)

lemma same_outside_trans:
  "same_outside lo hi u v \<Longrightarrow> same_outside lo' hi' v w \<Longrightarrow> lo'' \<le> lo \<Longrightarrow> lo'' \<le> lo' \<Longrightarrow>
     hi \<le> hi'' \<Longrightarrow> hi' \<le> hi'' \<Longrightarrow> same_outside lo'' hi'' u w"
  by (auto simp: same_outside_def)

lemma same_outside_length: "same_outside lo hi v w \<Longrightarrow> length w = length v"
  by (simp add: same_outside_def)

lemma peek_same_outside:
  assumes "same_outside lo hi v w" "i + n \<le> lo \<or> hi \<le> i"
  shows "peek i n w = peek i n v"
proof -
  have "take n (drop i w) = take n (drop i v)" if "i + n \<le> length v"
    by (rule nth_equalityI) (use assms that in \<open>auto simp: same_outside_def\<close>)
  with assms(1) show ?thesis by (simp add: peek_def same_outside_def)
qed

lemma get_same_outside:
  assumes "same_outside lo hi v w"
  shows "i + 2 \<le> lo \<or> hi \<le> i \<Longrightarrow> get16 i w = get16 i v"
    "i + 4 \<le> lo \<or> hi \<le> i \<Longrightarrow> get32 i w = get32 i v"
    "i + 8 \<le> lo \<or> hi \<le> i \<Longrightarrow> get64 i w = get64 i v"
    "i < lo \<or> hi \<le> i \<Longrightarrow> read_at i w = read_at i v"
  using peek_same_outside [OF assms] assms
  by (auto simp: get16_def get32_def get64_def read_at_def same_outside_def)

section \<open>Fixed-width record formats\<close>

text \<open>
  The contract of a record format: every valid record encodes to \<open>width\<close> bytes and decodes
  back. The E820 entries of the zero page, the range pairs of a reset shim's data block and
  the MRTD records of a page each provide it.
\<close>

locale fixed_codec =
  fixes enc :: "'r \<Rightarrow> bytes" and dec :: "bytes \<Rightarrow> 'r" and width :: nat
    and valid :: "'r \<Rightarrow> bool"
  assumes width_pos: "0 < width"
    and length_enc: "valid x \<Longrightarrow> length (enc x) = width"
    and dec_enc: "valid x \<Longrightarrow> dec (enc x) = x"
begin

lemma enc_inject: "valid x \<Longrightarrow> valid y \<Longrightarrow> enc x = enc y \<longleftrightarrow> x = y"
  by (metis dec_enc)

lemma length_concat_enc:
  "\<forall>x\<in>set xs. valid x \<Longrightarrow> length (concat (map enc xs)) = width * length xs"
  by (induction xs) (auto simp: length_enc)

lemma concat_enc_inject:
  "\<forall>x\<in>set xs. valid x \<Longrightarrow> \<forall>y\<in>set ys. valid y \<Longrightarrow>
     concat (map enc xs) = concat (map enc ys) \<longleftrightarrow> xs = ys"
proof (induction xs arbitrary: ys)
  case Nil
  then show ?case
    using width_pos length_enc by (cases ys) (auto dest!: arg_cong [where f = length])
next
  case (Cons x xs)
  note IH = Cons.IH and prems = Cons.prems
  show ?case
  proof (cases ys)
    case Nil
    have "length (enc x) = width" using prems(1) length_enc by simp
    then have "enc x \<noteq> []" using width_pos by auto
    then show ?thesis using Nil by simp
  next
    case (Cons y ys')
    have "length (enc x) = length (enc y)"
      using prems Cons length_enc by simp
    then have "concat (map enc (x # xs)) = concat (map enc (y # ys')) \<longleftrightarrow>
        enc x = enc y \<and> concat (map enc xs) = concat (map enc ys')"
      by simp
    then show ?thesis
      using IH [of ys'] prems Cons enc_inject by auto
  qed
qed

lemma record_at:
  "\<forall>x\<in>set xs. valid x \<Longrightarrow> i < length xs \<Longrightarrow>
     peek (i * width) width (concat (map enc xs) @ rest) = Some (enc (xs ! i))"
proof (induction xs arbitrary: i)
  case Nil
  then show ?case by simp
next
  case (Cons x xs)
  have len: "length (enc x) = width" using Cons.prems length_enc by simp
  show ?case
  proof (cases i)
    case 0
    then show ?thesis using len by (simp add: peek_def)
  next
    case (Suc j)
    with Cons.prems have "peek (j * width) width (concat (map enc xs) @ rest) = Some (enc (xs ! j))"
      by (intro Cons.IH) simp_all
    with Suc len show ?thesis by (simp add: peek_def split: if_splits)
  qed
qed

lemma decode_record_at:
  "\<forall>x\<in>set xs. valid x \<Longrightarrow> i < length xs \<Longrightarrow>
     map_option dec (peek (i * width) width (concat (map enc xs) @ rest)) = Some (xs ! i)"
  by (simp add: record_at dec_enc)

end

end
