(* ===== verification/Externals.thy ===== *)
theory Externals
  imports Layout Bytes
begin

text \<open>
  What the builders use of code outside the repository. The file system of the standard
  library is modelled: a state (\<open>fs\<close>), reads, and writes that truncate a file and then fill
  it, so that one may fail at the opening, which leaves the file alone, or after it, which
  leaves the part written so far. The crates \<open>igvm\<close>, \<open>sha2\<close>, \<open>hex\<close>, \<open>serde_json\<close> and
  \<open>p384\<close> and the two assembled shim pages are the fields of the record \<open>externs\<close>, which
  every definition that uses them takes as an argument; only the data types the builders
  construct (directives, headers, the VMSA fields they set) are spelled out here.
  The documented behaviour the builders rely on is named where it is used:
  \<open>igvm_round_trip\<close> for TDX, \<open>snp_crates_ok\<close> and \<open>key_usable\<close> for SNP, and
  \<open>crate_bounds\<close> for the lengths no slice copy may exceed.
\<close>

section \<open>The file system\<close>

text \<open>
  Where a write to a path fails, \<open>fs_write_error\<close> holds the system's message and either
  \<open>None\<close>, the file could not be opened, or \<open>Some n\<close>, it was opened, which truncates it, and the
  first \<open>n\<close> bytes were written before the failure.
\<close>

record fs =
  fs_files :: "rstr \<Rightarrow> string + bytes"
  fs_write_error :: "rstr \<Rightarrow> (string \<times> nat option) option"

text \<open>A computation that reads and writes files: it threads the state and may fail.\<close>

type_synonym 'a io = "fs \<Rightarrow> 'a result \<times> fs"

definition io_return :: "'a \<Rightarrow> 'a io" where
  "io_return x = (\<lambda>s. (Inr x, s))"

definition io_lift :: "'a result \<Rightarrow> 'a io" where
  "io_lift r = (\<lambda>s. (r, s))"

definition io_bind :: "'a io \<Rightarrow> ('a \<Rightarrow> 'b io) \<Rightarrow> 'b io" where
  "io_bind m f = (\<lambda>s. case m s of
       (Inl e, s') \<Rightarrow> (Inl e, s')
     | (Inr x, s') \<Rightarrow> f x s')"

text \<open>\<open>fs::read\<close>, \<open>fs::read_to_string\<close> and \<open>fs::write\<close> with the error mapped by \<open>io_error\<close>.\<close>

definition io_error :: "string \<Rightarrow> string \<Rightarrow> error" where
  "io_error action e = Extern (IoError action e)"

definition fs_read :: "string \<Rightarrow> rstr \<Rightarrow> bytes io" where
  "fs_read action path = (\<lambda>s. (map_sum (io_error action) id (fs_files s path), s))"

fun utf8_tail :: "nat \<Rightarrow> nat \<Rightarrow> bytes \<Rightarrow> (nat \<times> bytes) option" where
  "utf8_tail 0 acc bs = Some (acc, bs)"
| "utf8_tail (Suc n) acc [] = None"
| "utf8_tail (Suc n) acc (b # bs) =
     (if unat b div 64 = 2 then utf8_tail n (acc * 64 + unat b mod 64) bs else None)"

definition utf8_first :: "u8 \<Rightarrow> (nat \<times> nat \<times> nat) option" where
  "utf8_first b =
     (let n = unat b in
      if n < 0x80 then Some (0, n, 0)
      else if 0xc0 \<le> n \<and> n < 0xe0 then Some (1, n - 0xc0, 0x80)
      else if 0xe0 \<le> n \<and> n < 0xf0 then Some (2, n - 0xe0, 0x800)
      else if 0xf0 \<le> n \<and> n < 0xf8 then Some (3, n - 0xf0, 0x10000)
      else None)"

definition utf8_scalar :: "bytes \<Rightarrow> (nat \<times> bytes) option" where
  "utf8_scalar bs = (case bs of
       [] \<Rightarrow> None
     | b # bs \<Rightarrow> (case utf8_first b of
           None \<Rightarrow> None
         | Some (n, lead, least) \<Rightarrow> (case utf8_tail n lead bs of
               None \<Rightarrow> None
             | Some (c, rest) \<Rightarrow>
                 if least \<le> c \<and> c < 0x110000 \<and> \<not> (0xd800 \<le> c \<and> c < 0xe000)
                 then Some (c, rest) else None)))"

lemma utf8_tail_shorter: "utf8_tail n acc bs = Some (c, rest) \<Longrightarrow> length rest \<le> length bs"
  by (induction n acc bs rule: utf8_tail.induct) (auto split: if_splits)

lemma utf8_scalar_shorter:
  assumes "utf8_scalar bs = Some (c, rest)"
  shows "length rest < length bs"
proof -
  obtain b bs' n acc where bs: "bs = b # bs'" and t: "utf8_tail n acc bs' = Some (c, rest)"
    using assms by (auto simp: utf8_scalar_def split: list.splits option.splits if_splits)
  from utf8_tail_shorter [OF t] bs show ?thesis by simp
qed

function utf8_decode :: "bytes \<Rightarrow> rstr option" where
  "utf8_decode bs =
     (if bs = [] then Some []
      else case utf8_scalar bs of
        None \<Rightarrow> None
      | Some (c, rest) \<Rightarrow> map_option (Cons c) (utf8_decode rest))"
  by pat_completeness auto
termination
  by (relation "measure length") (auto dest: utf8_scalar_shorter)

declare utf8_decode.simps [simp del]

definition fs_read_to_string :: "string \<Rightarrow> rstr \<Rightarrow> rstr io" where
  "fs_read_to_string action path =
     io_bind (fs_read action path) (\<lambda>bs.
       io_lift (or_error (io_error action ''stream did not contain valid UTF-8'') (utf8_decode bs)))"

definition fs_write :: "string \<Rightarrow> rstr \<Rightarrow> bytes \<Rightarrow> unit io" where
  "fs_write action path data = (\<lambda>s. case fs_write_error s path of
       None \<Rightarrow> (Inr (), s\<lparr>fs_files := (fs_files s)(path := Inr data)\<rparr>)
     | Some (e, None) \<Rightarrow> (Inl (io_error action e), s)
     | Some (e, Some n) \<Rightarrow>
         (Inl (io_error action e), s\<lparr>fs_files := (fs_files s)(path := Inr (take n data))\<rparr>))"

text \<open>What a failed write may leave: the file as it was, or a beginning of the new contents.\<close>

definition write_cut :: "rstr \<Rightarrow> bytes \<Rightarrow> string \<Rightarrow> fs \<Rightarrow> fs \<Rightarrow> bool" where
  "write_cut path data msg s s' \<longleftrightarrow>
     fs_write_error s path = Some (msg, None) \<and> s' = s \<or>
     (\<exists>n. fs_write_error s path = Some (msg, Some n) \<and>
       s' = s\<lparr>fs_files := (fs_files s)(path := Inr (take n data))\<rparr>)"

lemma io_bind_Inr_conv:
  "io_bind m f s = (Inr y, s'') \<longleftrightarrow> (\<exists>x s'. m s = (Inr x, s') \<and> f x s' = (Inr y, s''))"
  by (auto simp: io_bind_def split: prod.splits sum.splits)

lemma io_bind_Inl_conv:
  "io_bind m f s = (Inl e, s'') \<longleftrightarrow>
     m s = (Inl e, s'') \<or> (\<exists>x s'. m s = (Inr x, s') \<and> f x s' = (Inl e, s''))"
  by (auto simp: io_bind_def split: prod.splits sum.splits)

lemma io_lift_conv [simp]: "io_lift r s = (q, s') \<longleftrightarrow> q = r \<and> s' = s"
  by (auto simp: io_lift_def)

lemma io_return_conv [simp]: "io_return x s = (q, s') \<longleftrightarrow> q = Inr x \<and> s' = s"
  by (auto simp: io_return_def)

lemma fs_read_conv [simp]:
  "fs_read action path s = (q, s') \<longleftrightarrow>
     q = map_sum (io_error action) id (fs_files s path) \<and> s' = s"
  by (auto simp: fs_read_def)

lemma map_sum_Inr_conv [simp]: "Inr x = map_sum f id r \<longleftrightarrow> r = Inr x"
  by (cases r) auto

lemma fs_read_to_string_pure: "snd (fs_read_to_string action path s) = s"
  by (auto simp: fs_read_to_string_def io_bind_def fs_read_def io_lift_def split: sum.splits)

lemma fs_write_Inr_conv:
  "fs_write action path data s = (Inr u, s') \<longleftrightarrow>
     fs_write_error s path = None \<and> s' = s\<lparr>fs_files := (fs_files s)(path := Inr data)\<rparr>"
  by (auto simp: fs_write_def split: option.splits prod.splits)

lemma fs_write_Inl_conv:
  "fs_write action path data s = (Inl e, s') \<longleftrightarrow>
     (\<exists>msg. e = io_error action msg \<and> write_cut path data msg s s')"
  by (auto simp: fs_write_def write_cut_def split: option.splits)

text \<open>The standard library's decoder reads back what \<open>as_bytes\<close> gives, for ASCII text.\<close>

lemma utf8_decode_utf8_ascii: "\<forall>c\<in>set t. c < 128 \<Longrightarrow> utf8_decode (utf8 t) = Some t"
proof (induction t)
  case Nil
  then show ?case by (simp add: utf8_def utf8_decode.simps)
next
  case (Cons c t)
  then have c: "unat (of_nat c :: u8) = c" by (simp add: unat_of_nat)
  have "utf8 (c # t) = of_nat c # utf8 t"
    using Cons.prems by (simp add: utf8_def utf8_char_def)
  moreover have "utf8_scalar (of_nat c # utf8 t) = Some (c, utf8 t)"
    using Cons.prems c by (simp add: utf8_scalar_def utf8_first_def Let_def)
  ultimately show ?case
    using Cons by (subst utf8_decode.simps) simp
qed

section \<open>IGVM structures\<close>

datatype page_type = NORMAL | SECRETS | CPUID_DATA | OtherPageType nat

record page_flags =
  pf_is_2mb_page :: bool
  pf_unmeasured :: bool
  pf_shared :: bool

record sev_selector =
  sel_selector :: u16
  sel_attrib :: u16
  sel_limit :: u32
  sel_base :: u64

text \<open>The fields of \<open>SevVmsa\<close> the source names; the others stay zero.\<close>

record sev_vmsa =
  v_es :: sev_selector
  v_cs :: sev_selector
  v_ss :: sev_selector
  v_ds :: sev_selector
  v_fs :: sev_selector
  v_gs :: sev_selector
  v_gdtr :: sev_selector
  v_ldtr :: sev_selector
  v_idtr :: sev_selector
  v_tr :: sev_selector
  v_vmpl :: u8
  v_efer :: u64
  v_cr4 :: u64
  v_cr3 :: u64
  v_cr0 :: u64
  v_dr7 :: u64
  v_dr6 :: u64
  v_rflags :: u64
  v_rip :: u64
  v_rsp :: u64
  v_pat :: u64
  v_rdx :: u64
  v_rsi :: u64
  v_sev_features :: u64
  v_xcr0 :: u64
  v_mxcsr :: u32
  v_x87_fcw :: u16

record id_public_key =
  pk_curve :: u32
  pk_qx :: bytes
  pk_qy :: bytes

record id_signature =
  sg_r :: bytes
  sg_s :: bytes

record id_block_fields =
  ib_mask :: u32
  ib_author_key_enabled :: u8
  ib_ld :: bytes
  ib_family_id :: bytes
  ib_image_id :: bytes
  ib_version :: u32
  ib_guest_svn :: u32
  ib_id_key_algorithm :: u32
  ib_author_key_algorithm :: u32
  ib_id_key_signature :: id_signature
  ib_id_public_key :: id_public_key
  ib_author_key_signature :: id_signature
  ib_author_public_key :: id_public_key

text \<open>\<open>IgvmDirectiveHeader\<close>, the variants the source builds; any other is \<open>OtherDirective\<close>.\<close>

datatype directive =
  PageData u64 u32 page_flags page_type bytes
| RequiredMemory u64 u32 u32 bool
| SnpVpContext u64 u32 u16 sev_vmsa
| SnpIdBlock id_block_fields
| OtherDirective nat

datatype platform_type = TDX | SEV_SNP

record platform_header =
  ph_mask :: u32
  ph_highest_vtl :: u8
  ph_type :: platform_type
  ph_version :: u16
  ph_shared_gpa_boundary :: u64

datatype init_header = GuestPolicy u64 u32

section \<open>The parameter\<close>

text \<open>The manifests handed to \<open>serde_json\<close>, which orders a \<open>BTreeMap\<close> by its keys.\<close>

record component =
  co_address :: rstr
  co_size :: nat
  co_sha256 :: rstr

type_synonym launch = "rstr \<rightharpoonup> rstr"

record tdx_manifest =
  tm_format_version :: u32
  tm_platform :: rstr
  tm_memory_bytes :: u64
  tm_vcpus :: u32
  tm_command_line :: rstr
  tm_mmio_holes :: "rstr list"
  tm_kernel_entry :: rstr
  tm_expected_mrtd :: rstr
  tm_shim_owned_bytes :: nat
  tm_launch :: launch
  tm_components :: "rstr \<rightharpoonup> component"

record topology =
  tp_sockets :: u8
  tp_cores :: u8
  tp_threads_per_core :: u8
  tp_vcpus :: u32

record snp_manifest =
  sm_format_version :: u32
  sm_platform :: rstr
  sm_memory_bytes :: u64
  sm_topology :: topology
  sm_command_line :: rstr
  sm_mmio_holes :: "rstr list"
  sm_kernel_entry :: rstr
  sm_expected_snp_measurement :: rstr
  sm_guest_policy :: rstr
  sm_c_bit_position :: u8
  sm_sev_features :: rstr
  sm_shim_owned_bytes :: nat
  sm_launch :: launch
  sm_components :: "rstr \<rightharpoonup> component"

text \<open>
  \<open>ex_platform_version\<close> is \<open>IGVM_TDX_PLATFORM_VERSION\<close>; \<open>ex_with_snp\<close> the bits of
  \<open>SevFeatures::new().with_snp(true)\<close>; \<open>ex_vmsa_bytes\<close> is \<open>SevVmsa::as_bytes\<close>;
  \<open>ex_point\<close> the affine coordinates of the verifying key; \<open>ex_sign\<close> gives the big-endian
  components \<open>r\<close> and \<open>s\<close>. The two shim pages are what \<open>src/build.rs\<close> assembles.
\<close>

record ('file, 'key) externs =
  ex_igvm_new :: "platform_header list \<Rightarrow> init_header list \<Rightarrow> directive list \<Rightarrow> string + 'file"
  ex_igvm_serialize :: "'file \<Rightarrow> string + bytes"
  ex_igvm_parse :: "bytes \<Rightarrow> string + 'file"
  ex_directives :: "'file \<Rightarrow> directive list"
  ex_platform_version :: u16
  ex_sha256 :: "bytes \<Rightarrow> bytes"
  ex_sha384 :: "bytes \<Rightarrow> bytes"
  ex_hex :: "bytes \<Rightarrow> rstr"
  ex_json_tdx :: "tdx_manifest \<Rightarrow> string + bytes"
  ex_json_snp :: "snp_manifest \<Rightarrow> string + bytes"
  ex_with_snp :: u64
  ex_vmsa_bytes :: "sev_vmsa \<Rightarrow> bytes"
  ex_parse_key :: "rstr \<Rightarrow> string + 'key"
  ex_sign :: "'key \<Rightarrow> bytes \<Rightarrow> bytes \<times> bytes"
  ex_point :: "'key \<Rightarrow> bytes option \<times> bytes option"
  ex_reset_shim :: bytes
  ex_snp_shim :: bytes

abbreviation extern_result :: "(string \<Rightarrow> extern_error) \<Rightarrow> string + 'a \<Rightarrow> 'a result" where
  "extern_result wrap r \<equiv> map_sum (\<lambda>e. Extern (wrap e)) id r"

end
