(* ===== verification/Placement.thy ===== *)
theory Placement
  imports Layout Bytes
begin

text \<open>
  The placement map of src/src/boot.rs: the regions a builder places (\<open>placed\<close>), their spans,
  the overlap check \<open>validate\<close>, and the two views derived from it, the E820 map Linux reads
  and the list of ranges the reset shim accepts. The lemmas characterise both views against
  the regions themselves: the E820 map assigns every address of the described memory the type
  of the region that holds it, and the accept list is exactly what no region covers, in
  ascending, non-empty, page-aligned ranges.
\<close>

section \<open>Regions\<close>

definition RAM :: u32 where [layout_consts]: "RAM = 1"
definition RESERVED :: u32 where [layout_consts]: "RESERVED = 2"
definition ACPI :: u32 where [layout_consts]: "ACPI = 3"
definition ABSENT :: u32 where [layout_consts]: "ABSENT = 0"

datatype fill = Measured bytes | Host | Mmio u64

record placed =
  pl_base :: u64
  pl_name :: rstr
  pl_e820 :: u32
  pl_fill :: fill

definition placed_measured :: "u64 \<Rightarrow> rstr \<Rightarrow> u32 \<Rightarrow> bytes \<Rightarrow> placed" where
  "placed_measured b name e820 data =
     \<lparr>pl_base = b, pl_name = name, pl_e820 = e820, pl_fill = Measured data\<rparr>"

definition placed_host :: "u64 \<Rightarrow> placed" where
  "placed_host b = \<lparr>pl_base = b, pl_name = [], pl_e820 = RESERVED, pl_fill = Host\<rparr>"

definition placed_mmio :: "u64 \<Rightarrow> u64 \<Rightarrow> placed" where
  "placed_mmio b n = \<lparr>pl_base = b, pl_name = [], pl_e820 = ABSENT, pl_fill = Mmio n\<rparr>"

definition fill_span :: "fill \<Rightarrow> u64" where
  "fill_span f = (case f of
       Measured d \<Rightarrow> max (align_up (of_nat (length d)) PAGE) PAGE
     | Host \<Rightarrow> PAGE
     | Mmio n \<Rightarrow> n)"

definition span :: "placed \<Rightarrow> u64" where
  "span p = fill_span (pl_fill p)"

definition placed_data :: "placed \<Rightarrow> bytes" where
  "placed_data p = (case pl_fill p of Measured d \<Rightarrow> d | _ \<Rightarrow> [])"

text \<open>\<open>data.chunks(PAGE)\<close> and the zero-padded pages of a region.\<close>

function chunks :: "nat \<Rightarrow> 'a list \<Rightarrow> 'a list list" where
  "chunks n xs = (if n = 0 \<or> xs = [] then [] else take n xs # chunks n (drop n xs))"
  by pat_completeness auto
termination
  by (relation "measure (\<lambda>(n, xs). length xs)") auto

declare chunks.simps [simp del]

definition pages :: "u64 \<Rightarrow> bytes \<Rightarrow> (u64 \<times> bytes) list" where
  "pages b data =
     map (\<lambda>(i, chunk). (b + of_nat i * PAGE, blit 0 chunk (replicate (unat PAGE) 0)))
       (enumerate 0 (chunks (unat PAGE) data))"

fun fill_region :: "placed list \<Rightarrow> u64 \<Rightarrow> bytes \<Rightarrow> placed list result" where
  "fill_region [] b data = Inl (Place (NothingPlacedAt b))"
| "fill_region (p # ps) b data =
     (if pl_base p = b then
        (let q = p\<lparr>pl_fill := Measured data\<rparr>
         in if span q \<noteq> span p then Inl (Place (FillDoesNotFit b)) else Inr (q # ps))
      else bind_result (fill_region ps b data) (\<lambda>ps'. Inr (p # ps')))"

section \<open>Spans and their validation\<close>

definition span_of :: "placed \<Rightarrow> u64 \<times> u64 \<times> u32" where
  "span_of p = (pl_base p, pl_base p + span p, pl_e820 p)"

definition spans :: "placed list \<Rightarrow> (u64 \<times> u64 \<times> u32) list" where
  "spans ps = sort (map span_of ps)"

fun check_overlap ::
  "((u64 \<times> u64 \<times> u32) \<times> (u64 \<times> u64 \<times> u32)) list \<Rightarrow> unit result" where
  "check_overlap [] = Inr ()"
| "check_overlap (((_, hi, _), (lo', _, _)) # rest) =
     (if hi > lo' then Inl (Place (PlacedOverlap lo')) else check_overlap rest)"

fun check_regions :: "placed list \<Rightarrow> u64 \<Rightarrow> unit result" where
  "check_regions [] memory = Inr ()"
| "check_regions (p # ps) memory =
     (if \<not> is_multiple_of (pl_base p) PAGE then Inl (Place (PlacedUnaligned (pl_base p)))
      else if pl_base p \<ge> memory \<and> pl_base p \<noteq> RESET_ALIAS
        then Inl (Place (PlacedOutside (pl_base p)))
      else check_regions ps memory)"

definition validate :: "placed list \<Rightarrow> u64 \<Rightarrow> unit result" where
  "validate ps memory =
     bind_result (check_overlap (windows2 (spans ps))) (\<lambda>_. check_regions ps memory)"

section \<open>The E820 map and the accept list\<close>

type_synonym e820_entry = "u64 \<times> u64 \<times> u32"

definition e820_push :: "e820_entry list \<Rightarrow> u64 \<Rightarrow> u64 \<Rightarrow> u32 \<Rightarrow> e820_entry list" where
  "e820_push out b e kind =
     (if b \<ge> e then out
      else if out \<noteq> [] \<and> (case last out of (lb, ls, lk) \<Rightarrow> lb + ls = b \<and> lk = kind)
      then (case last out of (lb, ls, lk) \<Rightarrow> butlast out @ [(lb, ls + (e - b), lk)])
      else out @ [(b, e - b, kind)])"

fun e820_loop ::
  "u64 \<Rightarrow> u64 \<Rightarrow> e820_entry list \<Rightarrow> (u64 \<times> u64 \<times> u32) list \<Rightarrow> e820_entry list" where
  "e820_loop memory at out [] = e820_push out at memory RAM"
| "e820_loop memory at out ((lo, hi, kind) # rest) =
     (if lo \<ge> memory then e820_push out at memory RAM
      else
        let out = e820_push out at lo RAM;
            out = (if kind \<noteq> ABSENT then e820_push out (max lo at) (min hi memory) kind else out)
        in e820_loop memory (max at hi) out rest)"

definition e820 :: "placed list \<Rightarrow> u64 \<Rightarrow> e820_entry list" where
  "e820 ps memory = e820_loop memory 0 [] (spans ps)"

fun accept_loop :: "u64 \<Rightarrow> u64 \<Rightarrow> (u64 \<times> u64 \<times> u32) list \<Rightarrow> (u64 \<times> u64) list" where
  "accept_loop memory at [] = [(at, memory)]"
| "accept_loop memory at ((lo, hi, kind) # rest) =
     (if lo > at then [(at, min lo memory)] else []) @ accept_loop memory (max at hi) rest"

definition accept_ranges :: "placed list \<Rightarrow> u64 \<Rightarrow> (u64 \<times> u64) list" where
  "accept_ranges ps memory = filter (\<lambda>(lo, hi). lo < hi) (accept_loop memory 0 (spans ps))"

section \<open>The accept list is the complement of the placed regions\<close>

definition covers :: "placed \<Rightarrow> u64 \<Rightarrow> bool" where
  "covers p a \<longleftrightarrow> pl_base p \<le> a \<and> a < pl_base p + span p"

definition no_wrap :: "placed list \<Rightarrow> bool" where
  "no_wrap ps \<longleftrightarrow> (\<forall>p\<in>set ps. pl_base p \<le> pl_base p + span p)"

lemma set_spans [simp]: "set (spans ps) = span_of ` set ps"
  by (simp add: spans_def)

lemma sorted_spans: "sorted (spans ps)"
  by (simp add: spans_def)

lemma sorted_triple_Cons:
  "sorted ((lo, hi, k) # (ss :: (u64 \<times> u64 \<times> u32) list)) \<Longrightarrow>
     sorted ss \<and> (\<forall>s\<in>set ss. lo \<le> fst s)"
  by (auto simp: less_eq_prod_def)

lemma accept_loop_mem:
  assumes "sorted ss"
  shows "(\<exists>r\<in>set (accept_loop memory at ss). in_range a r) \<longleftrightarrow>
     at \<le> a \<and> a < memory \<and> (\<forall>(lo, hi, k)\<in>set ss. \<not> (lo \<le> a \<and> a < hi))"
  using assms
proof (induction memory at ss rule: accept_loop.induct)
  case (1 memory at)
  then show ?case by auto
next
  case (2 memory at lo hi kind rest)
  from "2.prems" have st: "sorted rest" "\<forall>s\<in>set rest. lo \<le> fst s"
    using sorted_triple_Cons by blast+
  show ?case
  proof (cases "at < lo")
    case True
    let ?free = "\<forall>(lo', hi', k)\<in>set rest. \<not> (lo' \<le> a \<and> a < hi')"
    have free: ?free if "a < lo"
      using st(2) that by fastforce
    have "(\<exists>r\<in>set (accept_loop memory at ((lo, hi, kind) # rest)). in_range a r) \<longleftrightarrow>
        at \<le> a \<and> a < min lo memory \<or> max at hi \<le> a \<and> a < memory \<and> ?free"
      using True "2.IH" [OF st(1)] by simp
    also have "\<dots> \<longleftrightarrow> at \<le> a \<and> a < memory \<and> \<not> (lo \<le> a \<and> a < hi) \<and> ?free"
      using True free by (cases "a < lo") auto
    finally show ?thesis by simp
  next
    case False
    then show ?thesis
      using "2.IH" [OF st(1)] by (auto simp: max_def)
  qed
qed

lemma accept_ranges_mem:
  "(\<exists>r\<in>set (accept_ranges ps memory). in_range a r) \<longleftrightarrow>
     a < memory \<and> (\<forall>p\<in>set ps. \<not> covers p a)"
proof -
  have "(\<exists>r\<in>set (accept_ranges ps memory). in_range a r) \<longleftrightarrow>
      (\<exists>r\<in>set (accept_loop memory 0 (spans ps)). in_range a r)"
    unfolding accept_ranges_def Bex_def split_paired_Ex
    by (auto intro: le_less_trans)
  also have "\<dots> \<longleftrightarrow> a < memory \<and> (\<forall>p\<in>set ps. \<not> covers p a)"
    by (subst accept_loop_mem [OF sorted_spans]) (auto simp: span_of_def covers_def)
  finally show ?thesis .
qed

text \<open>The ranges ascend, never touch a region twice and are page-aligned.\<close>

lemma accept_loop_starts:
  "\<forall>(lo, hi, k)\<in>set ss. lo \<le> hi \<Longrightarrow> r \<in> set (accept_loop memory at ss) \<Longrightarrow> at \<le> fst r"
  by (induction memory at ss rule: accept_loop.induct) (auto split: if_splits)

lemma accept_loop_ascending:
  assumes "\<forall>(lo, hi, k)\<in>set ss. lo \<le> hi"
  shows "ascending (filter (\<lambda>(lo, hi). lo < hi) (accept_loop memory at ss))"
  using assms
proof (induction memory at ss rule: accept_loop.induct)
  case (1 memory at)
  then show ?case by simp
next
  case (2 memory at lo hi kind rest)
  from "2.prems" have le: "lo \<le> hi" "\<forall>(lo, hi, k)\<in>set rest. lo \<le> hi" by auto
  have "lo \<le> fst r" if "r \<in> set (accept_loop memory (max at hi) rest)" for r
    using accept_loop_starts [OF le(2) that] le(1) by auto
  with "2.IH" [OF le(2)] show ?case
    by (auto simp: ascending_Cons min_le_iff_disj)
qed

lemma accept_ranges_ascending: "no_wrap ps \<Longrightarrow> ascending (accept_ranges ps memory)"
  unfolding accept_ranges_def
  by (rule accept_loop_ascending) (auto simp: span_of_def no_wrap_def)

lemma accept_loop_aligned:
  "is_multiple_of at PAGE \<Longrightarrow> is_multiple_of memory PAGE \<Longrightarrow>
     \<forall>(lo, hi, k)\<in>set ss. is_multiple_of lo PAGE \<and> is_multiple_of hi PAGE \<Longrightarrow>
     r \<in> set (accept_loop memory at ss) \<Longrightarrow> is_multiple_of (fst r) PAGE \<and> is_multiple_of (snd r) PAGE"
  by (induction memory at ss rule: accept_loop.induct) (auto simp: min_def max_def split: if_splits)

definition aligned :: "placed list \<Rightarrow> bool" where
  "aligned ps \<longleftrightarrow> (\<forall>p\<in>set ps. is_multiple_of (pl_base p) PAGE \<and> is_multiple_of (span p) PAGE)"

lemma accept_ranges_aligned:
  assumes "aligned ps" "is_multiple_of memory PAGE" "r \<in> set (accept_ranges ps memory)"
  shows "is_multiple_of (fst r) PAGE \<and> is_multiple_of (snd r) PAGE"
proof (rule accept_loop_aligned)
  show "\<forall>(lo, hi, k)\<in>set (spans ps). is_multiple_of lo PAGE \<and> is_multiple_of hi PAGE"
    using assms(1) by (auto simp: span_of_def aligned_def PAGE_aligned_add)
  show "r \<in> set (accept_loop memory 0 (spans ps))"
    using assms(3) by (simp add: accept_ranges_def)
qed (use assms(2) in simp_all)

lemma accept_ranges_bounds:
  "(lo, hi) \<in> set (accept_ranges ps memory) \<Longrightarrow> lo < hi \<and> hi \<le> memory"
proof -
  have "snd r \<le> memory" if "r \<in> set (accept_loop memory at ss)" for r at ss
    using that by (induction memory at ss rule: accept_loop.induct) (auto split: if_splits)
  then show "(lo, hi) \<in> set (accept_ranges ps memory) \<Longrightarrow> lo < hi \<and> hi \<le> memory"
    by (auto simp: accept_ranges_def)
qed

section \<open>Validated placements do not overlap\<close>

fun disjoint_spans :: "(u64 \<times> u64 \<times> u32) list \<Rightarrow> bool" where
  "disjoint_spans [] \<longleftrightarrow> True"
| "disjoint_spans ((lo, hi, k) # ss) \<longleftrightarrow>
     lo \<le> hi \<and> (\<forall>s\<in>set ss. hi \<le> fst s) \<and> disjoint_spans ss"

lemma check_overlap_disjoint:
  assumes "check_overlap (windows2 ss) = Inr ()" "\<forall>(lo, hi, k)\<in>set ss. lo \<le> hi"
  shows "disjoint_spans ss"
  using assms
proof (induction ss)
  case Nil
  then show ?case by simp
next
  case (Cons s ss)
  obtain lo hi k where s: "s = (lo, hi, k)" by (cases s)
  show ?case
  proof (cases ss)
    case Nil
    with Cons.prems s show ?thesis by simp
  next
    case (Cons t ts)
    obtain lo' hi' k' where t: "t = (lo', hi', k')" by (cases t)
    from Cons.prems Cons s t have ov: "hi \<le> lo'" "check_overlap (windows2 ss) = Inr ()"
      by (auto split: if_splits)
    with Cons.IH Cons.prems have dis: "disjoint_spans ss" by simp
    moreover have "hi \<le> fst u" if "u \<in> set ss" for u
      using that dis ov(1) Cons t by auto
    ultimately show ?thesis using s Cons.prems by simp
  qed
qed

lemma validate_Inr_iff:
  "validate ps memory = Inr () \<longleftrightarrow>
     check_overlap (windows2 (spans ps)) = Inr () \<and>
     (\<forall>p\<in>set ps. is_multiple_of (pl_base p) PAGE \<and> (pl_base p < memory \<or> pl_base p = RESET_ALIAS))"
proof -
  have "check_regions ps memory = Inr () \<longleftrightarrow>
      (\<forall>p\<in>set ps. is_multiple_of (pl_base p) PAGE \<and> (pl_base p < memory \<or> pl_base p = RESET_ALIAS))"
    by (induction ps memory rule: check_regions.induct) auto
  then show ?thesis
    by (auto simp: validate_def bind_result_Inr_conv)
qed

lemma validate_disjoint:
  assumes "validate ps memory = Inr ()" "no_wrap ps"
  shows "disjoint_spans (spans ps)"
proof (rule check_overlap_disjoint)
  show "check_overlap (windows2 (spans ps)) = Inr ()"
    using assms(1) by (simp add: validate_Inr_iff)
  show "\<forall>(lo, hi, k)\<in>set (spans ps). lo \<le> hi"
    using assms(2) by (auto simp: span_of_def no_wrap_def)
qed

lemma disjoint_spans_unique:
  assumes "disjoint_spans ss" "(lo, hi, k) \<in> set ss" "(lo', hi', k') \<in> set ss"
    "lo \<le> a" "a < hi" "lo' \<le> a" "a < hi'"
  shows "lo = lo' \<and> hi = hi' \<and> k = k'"
  using assms
proof (induction ss)
  case Nil
  then show ?case by simp
next
  case (Cons s ss)
  obtain l h q where s: "s = (l, h, q)" by (cases s)
  have apart: "\<not> (l \<le> a \<and> a < h \<and> l' \<le> a \<and> a < h')" if "(l', h', q') \<in> set ss" for l' h' q'
    using Cons.prems(1) that s by fastforce
  show ?case
    using Cons s apart by auto
qed

section \<open>The E820 map gives every address the type of its region\<close>

definition entry_covers :: "u64 \<Rightarrow> e820_entry \<Rightarrow> bool" where
  "entry_covers a e \<longleftrightarrow> (case e of (b, n, k) \<Rightarrow> b \<le> a \<and> a < b + n)"

definition e820_type :: "e820_entry list \<Rightarrow> u64 \<Rightarrow> u32 option" where
  "e820_type es a = map_option (snd \<circ> snd) (find (entry_covers a) es)"

text \<open>What the map should say: the region's own type, RAM in a gap, nothing in an aperture.\<close>

definition region_type :: "placed list \<Rightarrow> u64 \<Rightarrow> u64 \<Rightarrow> u32 option" where
  "region_type ps memory a =
     (if a \<ge> memory then None
      else case find (\<lambda>p. covers p a) ps of
             None \<Rightarrow> Some RAM
           | Some p \<Rightarrow> if pl_e820 p = ABSENT then None else Some (pl_e820 p))"

text \<open>
  The map as it grows: entries ascend without wrapping, end at or below the current address,
  and no two neighbours that touch have the same type.
\<close>

definition entry_range :: "e820_entry \<Rightarrow> u64 \<times> u64" where
  "entry_range e = (case e of (b, n, k) \<Rightarrow> (b, b + n))"

definition coalesced :: "e820_entry list \<Rightarrow> bool" where
  "coalesced es \<longleftrightarrow>
     (\<forall>(e, f)\<in>set (windows2 es). snd (entry_range e) = fst (entry_range f) \<longrightarrow>
        snd (snd e) \<noteq> snd (snd f))"

definition growing :: "u64 \<Rightarrow> e820_entry list \<Rightarrow> bool" where
  "growing at es \<longleftrightarrow>
     ascending (map entry_range es) \<and> coalesced es \<and> (\<forall>e\<in>set es. snd (entry_range e) \<le> at)"

lemma entry_range_simp [simp]: "entry_range (b, n, k) = (b, b + n)"
  by (simp add: entry_range_def)

lemma entry_covers_range: "entry_covers a e \<longleftrightarrow> in_range a (entry_range e)"
  by (cases e) (simp add: entry_covers_def)

lemma ascending_append:
  "ascending (xs @ ys) \<longleftrightarrow>
     ascending xs \<and> ascending ys \<and> (\<forall>x\<in>set xs. \<forall>y\<in>set ys. snd x \<le> fst y)"
  by (induction xs) (auto simp: ascending_Cons)

lemma windows2_snoc:
  "xs \<noteq> [] \<Longrightarrow> windows2 (xs @ [y]) = windows2 xs @ [(last xs, y)]"
proof (induction xs)
  case Nil
  then show ?case by simp
next
  case (Cons x xs)
  then show ?case by (cases xs) auto
qed

lemma coalesced_snoc:
  "coalesced (es @ [f]) \<longleftrightarrow> coalesced es \<and>
     (es \<noteq> [] \<longrightarrow> snd (entry_range (last es)) = fst (entry_range f) \<longrightarrow>
        snd (snd (last es)) \<noteq> snd (snd f))"
proof (cases "es = []")
  case True
  then show ?thesis by (simp add: coalesced_def)
next
  case False
  then show ?thesis by (auto simp: coalesced_def windows2_snoc)
qed

lemma growing_mono: "growing at es \<Longrightarrow> at \<le> at' \<Longrightarrow> growing at' es"
  by (force simp: growing_def intro: order_trans)

lemma growing_push:
  assumes "growing b es" "b < e"
  shows "growing e (e820_push es b e k)"
    and "(\<exists>x\<in>set (e820_push es b e k). entry_covers a x \<and> snd (snd x) = t) \<longleftrightarrow>
         (\<exists>x\<in>set es. entry_covers a x \<and> snd (snd x) = t) \<or> b \<le> a \<and> a < e \<and> t = k"
proof -
  have asc: "ascending (map entry_range es)" and co: "coalesced es"
    and le: "\<forall>x\<in>set es. snd (entry_range x) \<le> b" and ne: "\<not> e \<le> b"
    using assms by (auto simp: growing_def)
  have "growing e (e820_push es b e k) \<and>
    ((\<exists>x\<in>set (e820_push es b e k). entry_covers a x \<and> snd (snd x) = t) \<longleftrightarrow>
     (\<exists>x\<in>set es. entry_covers a x \<and> snd (snd x) = t) \<or> b \<le> a \<and> a < e \<and> t = k)"
  proof (cases "es \<noteq> [] \<and> (case last es of (lb, ls, lk) \<Rightarrow> lb + ls = b \<and> lk = k)")
    case True
    then obtain init lb ls where es: "es = init @ [(lb, ls, k)]" and lb: "lb + ls = b"
      by (cases es rule: rev_cases) auto
    have push: "e820_push es b e k = init @ [(lb, ls + (e - b), k)]"
      using es lb ne by (simp add: e820_push_def)
    have stop: "lb + (ls + (e - b)) = e"
      using lb by (simp flip: add.assoc)
    have init: "\<forall>x\<in>set init. snd (entry_range x) \<le> lb" and lt: "lb < b"
      using asc es lb by (auto simp: ascending_append)
    have "growing e (init @ [(lb, ls + (e - b), k)])"
      using asc co es lb stop lt init assms(2)
      by (force simp: growing_def ascending_append coalesced_snoc intro: order_trans)
    then show ?thesis
      using push es lb stop lt assms(2) by (auto simp: entry_covers_def)
  next
    case False
    then have push: "e820_push es b e k = es @ [(b, e - b, k)]"
      using assms(2) by (auto simp: e820_push_def split: prod.splits)
    have sep: "es \<noteq> [] \<longrightarrow> snd (entry_range (last es)) = b \<longrightarrow> snd (snd (last es)) \<noteq> k"
      using False by (cases "last es") auto
    have "growing e (es @ [(b, e - b, k)])"
      using asc co le assms(2) sep
      by (force simp: growing_def ascending_append coalesced_snoc intro: order_trans)
    then show ?thesis
      using push by (auto simp: entry_covers_def)
  qed
  then show "growing e (e820_push es b e k)"
    and "(\<exists>x\<in>set (e820_push es b e k). entry_covers a x \<and> snd (snd x) = t) \<longleftrightarrow>
         (\<exists>x\<in>set es. entry_covers a x \<and> snd (snd x) = t) \<or> b \<le> a \<and> a < e \<and> t = k"
    by blast+
qed

definition has_type :: "e820_entry list \<Rightarrow> u64 \<Rightarrow> u32 \<Rightarrow> bool" where
  "has_type es a t \<longleftrightarrow> (\<exists>x\<in>set es. entry_covers a x \<and> snd (snd x) = t)"

lemma push_spec:
  assumes "growing b es" "b \<le> e"
  shows "growing e (e820_push es b e k)"
    and "has_type (e820_push es b e k) a t \<longleftrightarrow> has_type es a t \<or> b \<le> a \<and> a < e \<and> t = k"
proof -
  have "growing e (e820_push es b e k) \<and>
    (has_type (e820_push es b e k) a t \<longleftrightarrow> has_type es a t \<or> b \<le> a \<and> a < e \<and> t = k)"
  proof (cases "b < e")
    case True
    then show ?thesis
      using growing_push [OF assms(1) True] by (simp add: has_type_def)
  next
    case False
    with assms(2) have "b = e" by simp
    with assms(1) show ?thesis by (auto simp: e820_push_def)
  qed
  then show "growing e (e820_push es b e k)"
    and "has_type (e820_push es b e k) a t \<longleftrightarrow> has_type es a t \<or> b \<le> a \<and> a < e \<and> t = k"
    by blast+
qed

text \<open>The types the remaining spans, and the gaps between them, give to addresses from \<open>at\<close> on.\<close>

definition rest_type :: "(u64 \<times> u64 \<times> u32) list \<Rightarrow> u64 \<Rightarrow> u32 \<Rightarrow> bool" where
  "rest_type ss a t \<longleftrightarrow>
     (\<exists>(lo, hi, k)\<in>set ss. lo \<le> a \<and> a < hi \<and> k = t \<and> k \<noteq> ABSENT)
     \<or> t = RAM \<and> (\<forall>(lo, hi, k)\<in>set ss. \<not> (lo \<le> a \<and> a < hi))"

lemma rest_type_Nil [simp]: "rest_type [] a t \<longleftrightarrow> t = RAM"
  by (simp add: rest_type_def)

lemma rest_type_below:
  "\<forall>s\<in>set ss. lo \<le> fst s \<Longrightarrow> a < lo \<Longrightarrow> rest_type ss a t \<longleftrightarrow> t = RAM"
  by (auto simp: rest_type_def dest: leD le_less_trans)

lemma rest_type_in:
  "\<forall>s\<in>set ss. hi \<le> fst s \<Longrightarrow> lo \<le> a \<Longrightarrow> a < hi \<Longrightarrow>
     rest_type ((lo, hi, k) # ss) a t \<longleftrightarrow> k = t \<and> k \<noteq> ABSENT"
  by (auto simp: rest_type_def dest: leD le_less_trans)

lemma rest_type_out:
  "\<not> (lo \<le> a \<and> a < hi) \<Longrightarrow> rest_type ((lo, hi, k) # ss) a t \<longleftrightarrow> rest_type ss a t"
  by (auto simp: rest_type_def)

lemma e820_loop_spec:
  assumes "disjoint_spans ss" "growing (min at memory) out" "\<forall>s\<in>set ss. at \<le> fst s"
  shows "growing memory (e820_loop memory at out ss) \<and>
    (has_type (e820_loop memory at out ss) a t \<longleftrightarrow>
       has_type out a t \<or> at \<le> a \<and> a < memory \<and> rest_type ss a t)"
  using assms
proof (induction memory at out ss rule: e820_loop.induct)
  case (1 memory at out)
  then show ?case
    using push_spec [of at out memory RAM] growing_mono [of memory out memory]
    by (cases "at \<le> memory") (auto simp: min_def e820_push_def dest: leD)
next
  case (2 memory at out lo hi kind rest)
  from "2.prems" have at: "at \<le> lo" and le: "lo \<le> hi" and dis: "disjoint_spans rest"
    and later: "\<forall>s\<in>set rest. hi \<le> fst s"
    by auto
  have later': "\<forall>s\<in>set ((lo, hi, kind) # rest). lo \<le> fst s"
    using le later by auto
  show ?case
  proof (cases "memory \<le> lo")
    case True
    have below: "rest_type ((lo, hi, kind) # rest) a t \<longleftrightarrow> t = RAM" if "a < memory"
      using rest_type_below [OF later'] that True by simp
    show ?thesis
      using True "2.prems"(2) below push_spec [of at out memory RAM]
      by (cases "at \<le> memory") (auto simp: min_def e820_push_def dest: leD)
  next
    case False
    let ?out1 = "e820_push out at lo RAM"
    let ?out2 = "if kind \<noteq> ABSENT then e820_push ?out1 (max lo at) (min hi memory) kind else ?out1"
    have "min at memory = at" using False at by simp
    with "2.prems"(2) have g0: "growing at out" by simp
    note p1 = push_spec [OF g0 at, of RAM]
    have m: "lo \<le> min hi memory" using le False by simp
    note p2 = push_spec [OF p1(1) m, of kind]
    have mx: "max lo at = lo" "max at hi = hi"
      using at le by (simp_all add: max_absorb1 max_absorb2 order_trans [OF at le])
    have g2: "growing (min hi memory) ?out2"
      using p2(1) growing_mono [OF p1(1) m] mx by simp
    have t2: "has_type ?out2 a t \<longleftrightarrow> has_type out a t \<or> at \<le> a \<and> a < lo \<and> t = RAM
        \<or> kind \<noteq> ABSENT \<and> lo \<le> a \<and> a < min hi memory \<and> t = kind"
      using p1(2) p2(2) mx by auto
    have IH: "growing memory (e820_loop memory hi ?out2 rest) \<and>
        (has_type (e820_loop memory hi ?out2 rest) a t \<longleftrightarrow>
           has_type ?out2 a t \<or> hi \<le> a \<and> a < memory \<and> rest_type rest a t)"
      using "2.IH" [OF False refl refl] dis g2 later mx by simp
    have step: "e820_loop memory at out ((lo, hi, kind) # rest) = e820_loop memory hi ?out2 rest"
      using False mx by (simp add: Let_def)
    have "has_type out a t \<or> at \<le> a \<and> a < lo \<and> t = RAM
        \<or> kind \<noteq> ABSENT \<and> lo \<le> a \<and> a < min hi memory \<and> t = kind
        \<or> hi \<le> a \<and> a < memory \<and> rest_type rest a t
      \<longleftrightarrow> has_type out a t \<or> at \<le> a \<and> a < memory \<and> rest_type ((lo, hi, kind) # rest) a t"
    proof (cases "a < lo")
      case True
      then have "a < memory" "\<not> hi \<le> a" "\<not> lo \<le> a" using False le by auto
      with True show ?thesis
        using rest_type_below [OF later' True] by simp
    next
      case ge: False
      show ?thesis
      proof (cases "a < hi")
        case True
        then show ?thesis
          using rest_type_in [OF later _ True, of lo kind t] ge at by auto
      next
        case False
        then show ?thesis
          using rest_type_out [of lo a hi kind rest t] ge at le by auto
      qed
    qed
    then show ?thesis
      using IH step t2 by auto
  qed
qed

text \<open>The whole map: well-formed, and of the specified type at every address.\<close>

lemma disjoint_cover_unique:
  assumes "disjoint_spans (spans ps)" "p \<in> set ps" "q \<in> set ps" "covers p a" "covers q a"
  shows "pl_e820 p = pl_e820 q"
proof -
  have "span_of p \<in> set (spans ps)" "span_of q \<in> set (spans ps)"
    using assms(2,3) by simp_all
  then show ?thesis
    using disjoint_spans_unique [OF assms(1)] assms(4,5)
    unfolding span_of_def covers_def by blast
qed

lemma rest_type_spans:
  assumes "disjoint_spans (spans ps)" "a < memory"
  shows "rest_type (spans ps) a t \<longleftrightarrow> region_type ps memory a = Some t"
proof (cases "find (\<lambda>p. covers p a) ps")
  case None
  then have "\<forall>p\<in>set ps. \<not> covers p a" by (simp add: find_None_iff)
  then show ?thesis
    using None assms(2)
    by (auto simp: region_type_def rest_type_def span_of_def covers_def)
next
  case (Some p)
  then have p: "p \<in> set ps" "covers p a" by (auto simp: find_Some_iff)
  have "rest_type (spans ps) a t \<longleftrightarrow> (\<exists>q\<in>set ps. covers q a \<and> pl_e820 q = t \<and> t \<noteq> ABSENT)"
    using p by (auto simp: rest_type_def span_of_def covers_def)
  also have "\<dots> \<longleftrightarrow> pl_e820 p = t \<and> t \<noteq> ABSENT"
    using p disjoint_cover_unique [OF assms(1)] by metis
  finally show ?thesis
    using Some assms(2) by (auto simp: region_type_def)
qed

lemma has_type_e820_type:
  assumes "ascending (map entry_range es)"
  shows "has_type es a t \<longleftrightarrow> e820_type es a = Some t"
proof -
  have uniq: "x = y" if "x \<in> set es" "y \<in> set es" "entry_covers a x" "entry_covers a y" for x y
    using assms that
  proof (induction es)
    case Nil
    then show ?case by simp
  next
    case (Cons e es)
    have "\<not> (entry_covers a e \<and> entry_covers a f)" if "f \<in> set es" for f
      using Cons.prems(1) that
      by (auto simp: ascending_Cons entry_covers_range in_range_def dest: le_less_trans leD)
    moreover have "ascending (map entry_range es)"
      using Cons.prems(1) by (simp add: ascending_Cons)
    ultimately show ?case
      using Cons.IH Cons.prems(2-5) by (metis set_ConsD)
  qed
  show ?thesis
  proof (cases "find (entry_covers a) es")
    case None
    then have "\<forall>x\<in>set es. \<not> entry_covers a x" unfolding find_None_iff by blast
    with None show ?thesis by (simp add: has_type_def e820_type_def)
  next
    case (Some x)
    then have "x \<in> set es" "entry_covers a x" by (auto simp: find_Some_iff)
    with uniq have "has_type es a t \<longleftrightarrow> snd (snd x) = t"
      unfolding has_type_def by blast
    with Some show ?thesis by (simp add: e820_type_def)
  qed
qed

lemma e820_wf:
  assumes "disjoint_spans (spans ps)"
  shows "growing memory (e820 ps memory)"
  using e820_loop_spec [OF assms, of 0 memory "[]"]
  by (simp add: e820_def growing_def coalesced_def)

lemma e820_type_eq:
  assumes "disjoint_spans (spans ps)"
  shows "e820_type (e820 ps memory) a = region_type ps memory a"
proof -
  have "has_type (e820 ps memory) a t \<longleftrightarrow> a < memory \<and> rest_type (spans ps) a t" for t
    using e820_loop_spec [OF assms, of 0 memory "[]" a t]
    by (simp add: e820_def growing_def coalesced_def has_type_def)
  moreover have "ascending (map entry_range (e820 ps memory))"
    using e820_wf [OF assms] by (simp add: growing_def)
  ultimately have eq: "e820_type (e820 ps memory) a = Some t \<longleftrightarrow>
      a < memory \<and> rest_type (spans ps) a t" for t
    by (simp add: has_type_e820_type)
  show ?thesis
  proof (cases "a < memory")
    case True
    then show ?thesis
      using eq rest_type_spans [OF assms True] by (metis not_Some_eq)
  next
    case False
    then show ?thesis
      using eq by (metis (no_types) linorder_not_less not_None_eq region_type_def)
  qed
qed

text \<open>Each placed region adds at most two entries, so the map has a bounded length.\<close>

lemma length_e820_push: "length (e820_push es b e k) \<le> Suc (length es)"
  by (auto simp: e820_push_def split: prod.splits)

lemma length_e820_loop: "length (e820_loop memory at out ss) \<le> length out + 2 * length ss + 1"
proof (induction memory at out ss rule: e820_loop.induct)
  case (1 memory at out)
  then show ?case using length_e820_push by simp
next
  case (2 memory at out lo hi kind rest)
  show ?case
  proof (cases "memory \<le> lo")
    case True
    then show ?thesis
      using length_e820_push [of out at memory RAM] by simp
  next
    case False
    let ?o = "if kind \<noteq> ABSENT
      then e820_push (e820_push out at lo RAM) (max lo at) (min hi memory) kind
      else e820_push out at lo RAM"
    have "length ?o \<le> length out + 2"
      using length_e820_push by (smt (verit) add_2_eq_Suc' le_SucI le_trans not_less_eq_eq)
    with "2.IH" [OF False refl refl] False show ?thesis by (simp add: Let_def)
  qed
qed

lemma length_e820: "length (e820 ps memory) \<le> 2 * length ps + 1"
  using length_e820_loop [of memory 0 "[]" "spans ps"]
  by (simp add: e820_def spans_def)

section \<open>Filling a region keeps the map\<close>

lemma fill_region_spans:
  assumes "fill_region ps b data = Inr qs"
  shows "map span_of qs = map span_of ps"
  using assms
proof (induction ps arbitrary: qs)
  case Nil
  then show ?case by simp
next
  case (Cons p ps)
  then show ?case
    by (auto simp: bind_result_Inr_conv Let_def span_of_def split: if_splits)
qed

lemma fill_region_views:
  assumes "fill_region ps b data = Inr qs"
  shows "e820 qs memory = e820 ps memory" "accept_ranges qs memory = accept_ranges ps memory"
    "spans qs = spans ps"
  using fill_region_spans [OF assms] by (simp_all add: e820_def accept_ranges_def spans_def)

lemma fill_region_found:
  assumes "fill_region ps b data = Inr qs"
  shows "\<exists>pre p post. ps = pre @ p # post \<and> pl_base p = b \<and> (\<forall>q\<in>set pre. pl_base q \<noteq> b) \<and>
    qs = pre @ p\<lparr>pl_fill := Measured data\<rparr> # post"
  using assms
proof (induction ps arbitrary: qs)
  case Nil
  then show ?case by simp
next
  case (Cons p ps)
  show ?case
  proof (cases "pl_base p = b")
    case True
    with Cons.prems show ?thesis
      by (intro exI [of _ "[]"]) (auto simp: Let_def split: if_splits)
  next
    case False
    with Cons.prems obtain qs' where "fill_region ps b data = Inr qs'" "qs = p # qs'"
      by (auto simp: bind_result_Inr_conv)
    with Cons.IH False show ?thesis
      by (metis append_Cons set_ConsD)
  qed
qed

lemma fill_region_succeeds:
  assumes "\<exists>p\<in>set ps. pl_base p = b"
    "\<forall>p\<in>set ps. pl_base p = b \<longrightarrow> fill_span (Measured data) = span p"
  shows "\<exists>qs. fill_region ps b data = Inr qs"
  using assms
proof (induction ps)
  case Nil
  then show ?case by simp
next
  case (Cons p ps)
  then show ?case
    by (cases "pl_base p = b") (auto simp: Let_def span_def)
qed

section \<open>The pages of a region\<close>

text \<open>A \<open>Vec\<close> never holds more than \<open>isize::MAX\<close> bytes.\<close>

definition vec_len_ok :: "'a list \<Rightarrow> bool" where
  "vec_len_ok xs \<longleftrightarrow> length xs < 2 ^ 63"

lemma length_chunks: "0 < n \<Longrightarrow> length (chunks n xs) = (length xs + n - 1) div n"
proof (induction n xs rule: chunks.induct)
  case (1 n xs)
  show ?case
  proof (cases "xs = []")
    case True
    with "1.prems" show ?thesis by (simp add: chunks.simps)
  next
    case False
    have "length (chunks n xs) = Suc ((length xs - n + n - 1) div n)"
      using 1 False by (subst chunks.simps) simp
    also have "Suc ((length xs - n + n - 1) div n) = (length xs + n - 1) div n"
    proof (cases "n \<le> length xs")
      case True
      then obtain k where k: "length xs = n + k" by (auto dest: le_Suc_ex)
      have "n + k + n - 1 = (k + n - 1) + n" using "1.prems" by simp
      then have "(n + k + n - 1) div n = Suc ((k + n - 1) div n)"
        using "1.prems" by (simp only: div_add_self2)
      then show ?thesis by (simp add: k)
    next
      case short: False
      obtain m where m: "length xs = Suc m" using False by (cases "length xs") auto
      then have "length xs + n - 1 = m + n" "m < n" using short by auto
      then show ?thesis using "1.prems" short by (simp add: div_add_self2 del: div_mult_self1)
    qed
    finally show ?thesis .
  qed
qed

lemma chunks_length_le: "c \<in> set (chunks n xs) \<Longrightarrow> length c \<le> n"
proof (induction n xs rule: chunks.induct)
  case (1 n xs)
  note eq = chunks.simps [of n xs]
  show ?case
  proof (cases "n = 0 \<or> xs = []")
    case True
    with "1.prems" eq show ?thesis by simp
  next
    case False
    with eq "1.prems" have "c = take n xs \<or> c \<in> set (chunks n (drop n xs))" by simp
    with "1.IH" [OF False] show ?thesis by auto
  qed
qed

lemma concat_chunks: "0 < n \<Longrightarrow> concat (chunks n xs) = xs"
proof (induction n xs rule: chunks.induct)
  case (1 n xs)
  note eq = chunks.simps [of n xs]
  show ?case
  proof (cases "xs = []")
    case True
    with eq show ?thesis by simp
  next
    case False
    with 1 eq show ?thesis by simp
  qed
qed

lemma length_pages: "length (pages b data) = (length data + 4095) div 4096"
  by (simp add: pages_def length_chunks)

lemma nth_pages:
  "i < length (pages b data) \<Longrightarrow>
     pages b data ! i = (b + of_nat i * PAGE,
       blit 0 (chunks 4096 data ! i) (replicate 4096 0))"
  by (simp add: pages_def enumerate_eq_zip)

lemma pages_page_length:
  assumes "(gpa, page) \<in> set (pages b data)"
  shows "length page = 4096"
proof -
  obtain i where i: "i < length (pages b data)" "pages b data ! i = (gpa, page)"
    using assms by (metis in_set_conv_nth)
  then have "i < length (chunks 4096 data)" by (simp add: pages_def)
  then have "length (chunks 4096 data ! i) \<le> 4096"
    using chunks_length_le nth_mem by blast
  with i show ?thesis by (auto simp: nth_pages)
qed

lemma map_fst_pages:
  "map fst (pages b data) = map (\<lambda>i. b + of_nat i * PAGE) [0..<(length data + 4095) div 4096]"
  by (rule nth_equalityI) (simp_all add: length_pages nth_pages add.commute [of 4095])

abbreviation page_count :: "bytes \<Rightarrow> nat" where
  "page_count data \<equiv> (length data + 4095) div 4096"

lemma unat_measured_span:
  assumes "vec_len_ok data" "data \<noteq> []"
  shows "unat (fill_span (Measured data)) = page_count data * 4096"
proof -
  have l: "unat (of_nat (length data) :: u64) = length data"
    using assms(1) by (simp add: vec_len_ok_def unat_of_nat_u64)
  have "unat (align_up (of_nat (length data)) PAGE) = page_count data * 4096"
    using assms(1) by (subst unat_align_up) (simp_all add: l vec_len_ok_def)
  moreover have "1 \<le> page_count data"
    using assms(2) by (cases data) (auto simp: div_greater_zero_iff Suc_le_eq)
  ultimately show ?thesis
    by (auto simp: fill_span_def max_def word_le_nat_alt)
qed

lemma unat_page_address:
  assumes "vec_len_ok data" "data \<noteq> []" "b \<le> b + fill_span (Measured data)" "i < page_count data"
  shows "unat (b + of_nat i * PAGE) = unat b + i * 4096"
proof -
  have lim: "unat b + page_count data * 4096 < 2 ^ 64"
    using assms(3) unat_measured_span [OF assms(1,2)] by (simp add: word_le_plus_iff)
  have i: "i * 4096 < page_count data * 4096" using assms(4) by simp
  have "unat (of_nat i * PAGE :: u64) = i * 4096"
  proof -
    have "(of_nat i * PAGE :: u64) = of_nat (i * 4096)" by (simp add: PAGE_def)
    moreover have "unat (of_nat (i * 4096) :: u64) = i * 4096"
      using i lim by (intro unat_of_nat_u64) linarith
    ultimately show ?thesis by (simp only:)
  qed
  then show ?thesis
    using i lim by (subst unat_add_noov) simp_all
qed

lemma unat_region_end:
  assumes "vec_len_ok data" "data \<noteq> []" "b \<le> b + fill_span (Measured data)"
  shows "unat (b + fill_span (Measured data)) = unat b + page_count data * 4096"
  using assms unat_measured_span [OF assms(1,2)]
  by (simp add: word_le_plus_iff unat_add_noov)

text \<open>The pages of a region are the page-aligned addresses of its span, each exactly once.\<close>

lemma pages_addresses:
  assumes "vec_len_ok data" "data \<noteq> []" "b \<le> b + fill_span (Measured data)"
    "is_multiple_of b PAGE" "is_multiple_of a PAGE"
  shows "a \<in> fst ` set (pages b data) \<longleftrightarrow> b \<le> a \<and> a < b + fill_span (Measured data)"
proof -
  have "a \<in> fst ` set (pages b data) \<longleftrightarrow> (\<exists>i<page_count data. a = b + of_nat i * PAGE)"
    by (simp flip: set_map add: map_fst_pages) auto
  also have "\<dots> \<longleftrightarrow> (\<exists>i<page_count data. unat a = unat b + i * 4096)"
    using unat_page_address [OF assms(1-3)] by (metis unsigned_word_eqI)
  also have "\<dots> \<longleftrightarrow> unat b \<le> unat a \<and> unat a < unat b + page_count data * 4096"
  proof
    assume "\<exists>i<page_count data. unat a = unat b + i * 4096"
    then show "unat b \<le> unat a \<and> unat a < unat b + page_count data * 4096" by auto
  next
    assume r: "unat b \<le> unat a \<and> unat a < unat b + page_count data * 4096"
    obtain x y where "unat a = 4096 * x" "unat b = 4096 * y"
      using assms(4,5) by (auto simp: PAGE_aligned_iff elim!: dvdE)
    with r have "x - y < page_count data \<and> unat a = unat b + (x - y) * 4096"
      by (simp add: diff_mult_distrib less_diff_conv2)
    then show "\<exists>i<page_count data. unat a = unat b + i * 4096" by blast
  qed
  also have "\<dots> \<longleftrightarrow> b \<le> a \<and> a < b + fill_span (Measured data)"
    by (simp add: word_le_nat_alt word_less_nat_alt unat_region_end [OF assms(1-3)])
  finally show ?thesis .
qed

lemma pages_distinct:
  assumes "vec_len_ok data" "data \<noteq> []" "b \<le> b + fill_span (Measured data)"
  shows "distinct (map fst (pages b data))"
proof -
  have "inj_on (\<lambda>i. b + of_nat i * PAGE) {..<page_count data}"
    by (rule inj_onI) (metis assms lessThan_iff unat_page_address add_left_cancel
        mult_right_cancel zero_neq_numeral)
  then show ?thesis
    by (simp add: map_fst_pages distinct_map lessThan_atLeast0 atLeast_upt)
qed

lemma pages_Nil [simp]: "pages b [] = []"
  by (simp add: pages_def chunks.simps)

lemma pages_aligned:
  assumes "is_multiple_of b PAGE" "(gpa, page) \<in> set (pages b data)"
  shows "is_multiple_of gpa PAGE"
proof -
  have "gpa \<in> set (map fst (pages b data))" using assms(2) by force
  then show ?thesis
    using assms(1) by (auto simp: map_fst_pages intro: PAGE_aligned_add PAGE_aligned_mult)
qed

section \<open>Exactly which maps are accepted\<close>

definition region_end :: "placed \<Rightarrow> u64" where
  "region_end p = pl_base p + span p"

text \<open>Regions with distinct bases, page-aligned, inside the memory, each ending before the next.\<close>

definition well_placed :: "placed list \<Rightarrow> u64 \<Rightarrow> bool" where
  "well_placed ps memory \<longleftrightarrow>
     distinct (map pl_base ps) \<and>
     (\<forall>p\<in>set ps. \<forall>q\<in>set ps. pl_base p < pl_base q \<longrightarrow> region_end p \<le> pl_base q) \<and>
     (\<forall>p\<in>set ps. is_multiple_of (pl_base p) PAGE \<and>
        (pl_base p < memory \<or> pl_base p = RESET_ALIAS))"

definition proper :: "placed list \<Rightarrow> bool" where
  "proper ps \<longleftrightarrow> (\<forall>p\<in>set ps. pl_base p < region_end p)"

lemma proper_no_wrap: "proper ps \<Longrightarrow> no_wrap ps"
  by (auto simp: proper_def no_wrap_def region_end_def)

lemma span_aligned:
  assumes "proper ps" "well_placed ps memory"
    "\<forall>p\<in>set ps. \<forall>n. pl_fill p = Mmio n \<longrightarrow> is_multiple_of n PAGE"
  shows "aligned ps"
proof -
  have "is_multiple_of (span p) PAGE" if "p \<in> set ps" for p
    using assms(3) that
    by (cases "pl_fill p") (auto simp: span_def fill_span_def page_aligned_arith)
  then show ?thesis using assms(2) by (simp add: aligned_def well_placed_def)
qed

lemma aligned_span_of:
  "aligned ps \<longleftrightarrow> (\<forall>(b, e, k)\<in>set (map span_of ps). is_multiple_of b PAGE \<and> is_multiple_of e PAGE)"
proof -
  have "is_multiple_of (span q) PAGE \<longleftrightarrow> is_multiple_of (pl_base q + span q) PAGE"
    if "is_multiple_of (pl_base q) PAGE" for q
    using that PAGE_aligned_add [of "pl_base q" "span q"]
      PAGE_aligned_diff [of "pl_base q + span q" "pl_base q"] by auto
  then show ?thesis by (auto simp: aligned_def span_of_def)
qed

lemma check_overlap_complete:
  assumes "sorted ss" "distinct (map fst ss)"
    "\<forall>s\<in>set ss. \<forall>t\<in>set ss. fst s < fst t \<longrightarrow> fst (snd s) \<le> fst t"
  shows "check_overlap (windows2 ss) = Inr ()"
  using assms
proof (induction ss)
  case Nil
  then show ?case by simp
next
  case (Cons s ss)
  obtain lo hi k where s: "s = (lo, hi, k)" by (cases s)
  show ?case
  proof (cases ss)
    case Nil
    then show ?thesis by simp
  next
    case (Cons t ts)
    obtain lo' hi' k' where t: "t = (lo', hi', k')" by (cases t)
    have "lo < lo'"
      using Cons.prems(1,2) Cons s t by (auto simp: less_eq_prod_def)
    then have "hi \<le> lo'" using Cons.prems(3) Cons s t by auto
    then show ?thesis using Cons.IH Cons.prems Cons s t by auto
  qed
qed

lemma disjoint_spans_distinct:
  "disjoint_spans ss \<Longrightarrow> \<forall>(lo, hi, k)\<in>set ss. lo < hi \<Longrightarrow>
     distinct (map fst ss) \<and> (\<forall>s\<in>set ss. \<forall>t\<in>set ss. fst s < fst t \<longrightarrow> fst (snd s) \<le> fst t)"
  by (induction ss rule: disjoint_spans.induct) fastforce+

lemma distinct_map_fst_spans: "distinct (map fst (spans ps)) \<longleftrightarrow> distinct (map pl_base ps)"
proof -
  have same: "set (map fst (spans ps)) = set (map pl_base ps)"
    "length (map fst (spans ps)) = length (map pl_base ps)"
    by (auto simp: span_of_def image_image) (simp add: spans_def)
  have "distinct xs \<longleftrightarrow> card (set xs) = length xs" for xs :: "u64 list"
    using card_distinct distinct_card by blast
  then show ?thesis by (simp only: same)
qed

lemma validate_well_placed:
  assumes "proper ps"
  shows "validate ps memory = Inr () \<longleftrightarrow> well_placed ps memory"
proof
  assume v: "validate ps memory = Inr ()"
  then have "disjoint_spans (spans ps)"
    using assms proper_no_wrap validate_disjoint by blast
  moreover have "\<forall>(lo, hi, k)\<in>set (spans ps). lo < hi"
    using assms by (auto simp: proper_def region_end_def span_of_def)
  ultimately have "distinct (map fst (spans ps)) \<and>
      (\<forall>s\<in>set (spans ps). \<forall>t\<in>set (spans ps). fst s < fst t \<longrightarrow> fst (snd s) \<le> fst t)"
    by (rule disjoint_spans_distinct)
  with v show "well_placed ps memory"
    by (auto simp: well_placed_def distinct_map_fst_spans validate_Inr_iff span_of_def region_end_def)
next
  assume w: "well_placed ps memory"
  then have "check_overlap (windows2 (spans ps)) = Inr ()"
    by (intro check_overlap_complete)
      (auto simp: well_placed_def distinct_map_fst_spans sorted_spans span_of_def region_end_def)
  with w show "validate ps memory = Inr ()"
    by (simp add: validate_Inr_iff well_placed_def)
qed

section \<open>Properties\<close>

lemma pad_page: "length c \<le> 4096 \<Longrightarrow> blit 0 c (replicate 4096 0) = c @ replicate (4096 - length c) 0"
  by (simp add: blit_def)

lemma concat_padded_chunks:
  "concat (map (\<lambda>c. blit 0 c (replicate 4096 0)) (chunks 4096 xs)) =
     xs @ replicate (page_count xs * 4096 - length xs) 0"
proof (induction "4096 :: nat" xs rule: chunks.induct)
  case (1 xs)
  note eq = chunks.simps [of 4096 xs]
  consider "xs = []" | "xs \<noteq> []" "length xs \<le> 4096" | "4096 < length xs" by force
  then show ?case
  proof cases
    case 1
    with eq show ?thesis by simp
  next
    case 2
    then have "page_count xs = 1"
      by (cases xs) (auto intro!: div_nat_eqI)
    with eq 2 show ?thesis by (simp add: pad_page chunks.simps)
  next
    case 3
    then obtain m where m: "length xs = 4096 + m" by (metis less_imp_le_nat le_Suc_ex)
    with 3 have ne: "\<not> (4096 = (0::nat) \<or> xs = [])" by auto
    have "page_count xs * 4096 - length xs = page_count (drop 4096 xs) * 4096 - length (drop 4096 xs)"
      using div_add_self2 [of 4096 "m + 4095"] by (simp add: m add.commute [of 4096] add.assoc)
    with "1.hyps" [OF ne] eq ne 3 show ?thesis by (simp add: pad_page)
  qed
qed

lemma concat_pages:
  "concat (map snd (pages b data)) = data @ replicate (page_count data * 4096 - length data) 0"
proof -
  have "map snd (pages b data) = map (\<lambda>c. blit 0 c (replicate 4096 0)) (chunks 4096 data)"
    by (rule nth_equalityI) (simp_all add: pages_def nth_enumerate_eq split_def)
  then show ?thesis by (simp add: concat_padded_chunks)
qed

text \<open>A small map for concrete evaluations: one measured page and one aperture.\<close>

definition sample_map :: "placed list" where
  "sample_map = [placed_mmio 0x3000 0x1000, placed_measured 0x1000 (lit ''a'') ACPI [1, 2, 3]]"

lemma sample_map_spans: "spans sample_map = [(0x1000, 0x2000, 3), (0x3000, 0x4000, 0)]"
  by (simp add: sample_map_def spans_def span_of_def placed_mmio_def placed_measured_def span_def
      fill_span_def align_up_def div_ceil_def layout_consts less_eq_prod_def)

lemma sample_map_validated: "validate sample_map 0x5000 = Inr ()" "proper sample_map"
  "aligned sample_map"
  by (simp_all add: validate_def sample_map_spans)
    (simp_all add: sample_map_def placed_mmio_def placed_measured_def proper_def region_end_def
      span_def fill_span_def align_up_def div_ceil_def layout_consts is_multiple_of_def aligned_def)

text \<open>C15: the ranges handed to a shim are exactly the memory no placed region covers: every address
  is in one of them if and only if it is below the top of memory and outside every region.\<close>

theorem accept_list_is_complement:
  "(\<exists>r\<in>set (accept_ranges ps memory). in_range a r) \<longleftrightarrow>
     a < memory \<and> (\<forall>p\<in>set ps. \<not> covers p a)"
  by (rule accept_ranges_mem)

theorem accept_list_is_complement_witness:
  "(\<exists>r\<in>set (accept_ranges sample_map 0x5000). in_range 0x2fff r) \<and>
   \<not> (\<exists>r\<in>set (accept_ranges sample_map 0x5000). in_range 0x3000 r)"
  unfolding accept_list_is_complement
  by (simp add: sample_map_def covers_def placed_mmio_def placed_measured_def span_def
      fill_span_def align_up_def div_ceil_def layout_consts)

text \<open>The ranges handed to a shim ascend without touching an address twice, are page-aligned,
  non-empty and end at or below the top of memory, so a shim that walks them page by page
  accepts no page twice.\<close>

theorem accept_list_shape:
  assumes "proper ps" "aligned ps" "is_multiple_of memory PAGE"
  shows "ascending (accept_ranges ps memory) \<and>
    (\<forall>(lo, hi)\<in>set (accept_ranges ps memory).
       lo < hi \<and> hi \<le> memory \<and> is_multiple_of lo PAGE \<and> is_multiple_of hi PAGE)"
  using accept_ranges_ascending [OF proper_no_wrap [OF assms(1)], of memory]
    accept_ranges_aligned [OF assms(2,3)] accept_ranges_bounds by fastforce

theorem accept_list_shape_witness:
  "accept_ranges sample_map 0x5000 = [(0, 0x1000), (0x2000, 0x3000), (0x4000, 0x5000)] \<and>
   ascending (accept_ranges sample_map 0x5000)"
proof
  show "accept_ranges sample_map 0x5000 = [(0, 0x1000), (0x2000, 0x3000), (0x4000, 0x5000)]"
    by (simp add: accept_ranges_def sample_map_spans)
  have "is_multiple_of (0x5000 :: u64) PAGE" by (simp add: is_multiple_of_def PAGE_def)
  with accept_list_shape [OF sample_map_validated(2,3)]
  show "ascending (accept_ranges sample_map 0x5000)" by blast
qed

text \<open>C16: for a map that passed validation and has no empty or wrapping region, the E820 map gives every
  address the type of the region that holds it,
  RAM where nothing is placed, and no entry inside an aperture or beyond the memory; its
  entries ascend, never wrap, never split a run of one type in two, and there are at most
  twice as many as regions, plus one.\<close>

theorem e820_states_region_types:
  assumes "validate ps memory = Inr ()" "proper ps"
  shows "e820_type (e820 ps memory) a = region_type ps memory a \<and>
    growing memory (e820 ps memory) \<and> length (e820 ps memory) \<le> 2 * length ps + 1"
  using e820_type_eq e820_wf validate_disjoint [OF assms(1) proper_no_wrap [OF assms(2)]] length_e820
  by blast

theorem e820_states_region_types_witness:
  "e820 sample_map 0x5000 =
     [(0, 0x1000, RAM), (0x1000, 0x1000, ACPI), (0x2000, 0x1000, RAM), (0x4000, 0x1000, RAM)] \<and>
   e820_type (e820 sample_map 0x5000) 0x3000 = None \<and> growing 0x5000 (e820 sample_map 0x5000)"
proof (intro conjI)
  show "e820 sample_map 0x5000 =
     [(0, 0x1000, RAM), (0x1000, 0x1000, ACPI), (0x2000, 0x1000, RAM), (0x4000, 0x1000, RAM)]"
    by (simp add: e820_def sample_map_spans e820_push_def Let_def layout_consts)
  have "region_type sample_map 0x5000 0x3000 = None"
    by (simp add: region_type_def sample_map_def covers_def placed_mmio_def placed_measured_def
        span_def fill_span_def align_up_def div_ceil_def layout_consts)
  then show "e820_type (e820 sample_map 0x5000) 0x3000 = None" "growing 0x5000 (e820 sample_map 0x5000)"
    using e820_states_region_types [OF sample_map_validated(1,2), of "0x3000"] by auto
qed

text \<open>C21: a map none of whose regions is empty or wraps around the address space is accepted exactly
  when every region starts on a page boundary and below the end of the memory (or is the reset
  page), the regions start at different addresses, and each ends before the next one starts.
  Nothing more is checked: a region may end beyond the memory, and an aperture's size need not
  be a multiple of a page.\<close>

theorem validate_accepts_exactly:
  assumes "proper ps"
  shows "validate ps memory = Inr () \<longleftrightarrow> well_placed ps memory"
  using assms by (rule validate_well_placed)

theorem validate_accepts_exactly_witness:
  "validate sample_map 0x5000 = Inr () \<and> well_placed sample_map 0x5000 \<and>
   \<not> well_placed (placed_host 0x1000 # sample_map) 0x5000"
proof -
  have "proper (placed_host 0x1000 # sample_map)"
    using sample_map_validated(2)
    by (simp add: proper_def placed_host_def region_end_def span_def fill_span_def PAGE_def)
  moreover have "validate (placed_host 0x1000 # sample_map) 0x5000 \<noteq> Inr ()"
    by (simp add: validate_def sample_map_def spans_def span_of_def placed_mmio_def
        placed_measured_def placed_host_def span_def fill_span_def align_up_def div_ceil_def
        layout_consts less_eq_prod_def)
  ultimately show ?thesis
    using validate_accepts_exactly [of "placed_host 0x1000 # sample_map" "0x5000"]
      validate_accepts_exactly [OF sample_map_validated(2), of "0x5000"] sample_map_validated(1)
    by blast
qed

text \<open>Filling a placed region leaves both views derived from the map as they were and puts the
  contents into that region only, so a map described before its last contents were known
  still describes the finished one.\<close>

theorem fill_keeps_views:
  assumes "fill_region ps b data = Inr qs"
  shows "e820 qs memory = e820 ps memory \<and> accept_ranges qs memory = accept_ranges ps memory \<and>
    (\<exists>pre p post. ps = pre @ p # post \<and> pl_base p = b \<and> (\<forall>q\<in>set pre. pl_base q \<noteq> b) \<and>
       qs = pre @ p\<lparr>pl_fill := Measured data\<rparr> # post)"
  using fill_region_views [OF assms] fill_region_found [OF assms] by blast

theorem fill_keeps_views_witness:
  "\<exists>qs. fill_region sample_map 0x1000 [7] = Inr qs \<and> e820 qs 0x5000 = e820 sample_map 0x5000"
proof -
  have "\<exists>qs. fill_region sample_map 0x1000 [7] = Inr qs"
    by (simp add: sample_map_def placed_mmio_def placed_measured_def span_def fill_span_def
        align_up_def div_ceil_def layout_consts Let_def)
  then show ?thesis using fill_keeps_views by blast
qed

text \<open>The pages of a region are the page-aligned addresses of its span, each exactly once and in
  order, and their contents laid end to end are the region's bytes followed by zeros.\<close>

theorem pages_tile_the_region:
  assumes "vec_len_ok data" "data \<noteq> []" "is_multiple_of b PAGE" "b \<le> b + fill_span (Measured data)"
  shows "distinct (map fst (pages b data)) \<and>
    (\<forall>a. is_multiple_of a PAGE \<longrightarrow>
       (a \<in> fst ` set (pages b data) \<longleftrightarrow> covers (placed_measured b name kind data) a)) \<and>
    (\<exists>n<4096. concat (map snd (pages b data)) = data @ replicate n 0)"
proof (intro conjI)
  show "distinct (map fst (pages b data))" by (rule pages_distinct [OF assms(1,2,4)])
  show "\<forall>a. is_multiple_of a PAGE \<longrightarrow>
      (a \<in> fst ` set (pages b data) \<longleftrightarrow> covers (placed_measured b name kind data) a)"
    using pages_addresses [OF assms(1,2,4,3)]
    by (simp add: covers_def placed_measured_def span_def)
  have "page_count data * 4096 - length data < 4096"
    using div_times_less_eq_dividend [of "length data + 4095" 4096] by linarith
  with concat_pages show "\<exists>n<4096. concat (map snd (pages b data)) = data @ replicate n 0" by blast
qed

theorem pages_tile_the_region_witness:
  "distinct (map fst (pages 0x1000000 (replicate 5000 7))) \<and>
   (\<exists>n<4096. concat (map snd (pages 0x1000000 (replicate 5000 7))) = replicate 5000 7 @ replicate n 0)"
proof -
  let ?d = "replicate 5000 7 :: bytes"
  have "vec_len_ok ?d" "?d \<noteq> []" "is_multiple_of (0x1000000 :: u64) PAGE"
    "(0x1000000 :: u64) \<le> 0x1000000 + fill_span (Measured ?d)"
    by (simp_all add: vec_len_ok_def is_multiple_of_def fill_span_def align_up_def div_ceil_def
        PAGE_def)
  from pages_tile_the_region [OF this] show ?thesis by blast
qed

text \<open>The aperture check adds base and size in 64 bits, so an aperture that wraps is accepted by
  the parameters but covers no address at all: the memory it names stays RAM in the E820 map
  and in the accept list.\<close>

theorem wrapping_aperture_is_ignored:
  "(\<exists>p. tdx_params DEFAULT_RAM DEFAULT_VCPUS [] [(0x10000000, 0xfffffffff0001000)] = Inr p \<and>
     p_mmio p = [(0x10000000, 0xfffffffff0001000)]) \<and>
   (\<forall>a. \<not> covers (placed_mmio 0x10000000 0xfffffffff0001000) a)"
proof
  show "\<exists>p. tdx_params DEFAULT_RAM DEFAULT_VCPUS [] [(0x10000000, 0xfffffffff0001000)] = Inr p \<and>
     p_mmio p = [(0x10000000, 0xfffffffff0001000)]"
    by (simp add: wrapping_aperture_accepted)
  have "\<not> ((0x10000000 :: u64) \<le> a \<and> a < 0x1000)" for a
    using order.strict_trans1 [of "0x10000000" a "0x1000"] by auto
  moreover have "(0x10000000 :: u64) + 0xfffffffff0001000 = 0x1000" by simp
  ultimately show "\<forall>a. \<not> covers (placed_mmio 0x10000000 0xfffffffff0001000) a"
    unfolding covers_def placed_mmio_def span_def fill_span_def placed.simps fill.simps
    by (simp only: not_False_eq_True simp_thms)
qed

end
