(* ===== verification/Boot_Protocol.thy ===== *)
theory Boot_Protocol
  imports Placement
begin

text \<open>
  The Linux boot protocol half of src/src/boot.rs: the setup-header offsets, the checks a
  bzImage must pass (\<open>parse_bzimage\<close>), the zero page handed to Linux (\<open>zero_page\<close>) and the
  page run that holds the GDT below the boot stack (\<open>gdt_stack\<close>). The lemmas give the exact
  acceptance condition of a bzImage, the fields a reader finds in the zero page, the E820
  table round trip (an instance of the record-format locale) and the descriptors the shims
  load.
\<close>

section \<open>Setup header\<close>

definition HDR_SETUP_SECTS :: nat where [layout_consts]: "HDR_SETUP_SECTS = 0x1f1"
definition HDR_BOOT_FLAG :: nat where [layout_consts]: "HDR_BOOT_FLAG = 0x1fe"
definition HDR_SIGNATURE :: nat where [layout_consts]: "HDR_SIGNATURE = 0x202"
definition HDR_VERSION :: nat where [layout_consts]: "HDR_VERSION = 0x206"
definition HDR_TYPE_OF_LOADER :: nat where [layout_consts]: "HDR_TYPE_OF_LOADER = 0x210"
definition HDR_LOADFLAGS :: nat where [layout_consts]: "HDR_LOADFLAGS = 0x211"
definition HDR_CODE32_START :: nat where [layout_consts]: "HDR_CODE32_START = 0x214"
definition HDR_RAMDISK_IMAGE :: nat where [layout_consts]: "HDR_RAMDISK_IMAGE = 0x218"
definition HDR_RAMDISK_SIZE :: nat where [layout_consts]: "HDR_RAMDISK_SIZE = 0x21c"
definition HDR_CMD_LINE_PTR :: nat where [layout_consts]: "HDR_CMD_LINE_PTR = 0x228"
definition HDR_KERNEL_ALIGNMENT :: nat where [layout_consts]: "HDR_KERNEL_ALIGNMENT = 0x230"
definition HDR_RELOCATABLE :: nat where [layout_consts]: "HDR_RELOCATABLE = 0x234"
definition HDR_XLOADFLAGS :: nat where [layout_consts]: "HDR_XLOADFLAGS = 0x236"
definition HDR_CMDLINE_SIZE :: nat where [layout_consts]: "HDR_CMDLINE_SIZE = 0x238"
definition HDR_SETUP_DATA :: nat where [layout_consts]: "HDR_SETUP_DATA = 0x250"
definition HDR_PREF_ADDRESS :: nat where [layout_consts]: "HDR_PREF_ADDRESS = 0x258"
definition HDR_INIT_SIZE :: nat where [layout_consts]: "HDR_INIT_SIZE = 0x260"
definition SETUP_HEADER :: nat where [layout_consts]: "SETUP_HEADER = HDR_SETUP_SECTS"
definition SETUP_HEADER_END :: nat where [layout_consts]: "SETUP_HEADER_END = 0x290"
definition SETUP_HEADER_MIN :: nat where [layout_consts]: "SETUP_HEADER_MIN = 0x268"

definition ENTRY_64_OFFSET :: u64 where [layout_consts]: "ENTRY_64_OFFSET = 0x200"

definition BOOT_FLAG :: u16 where [layout_consts]: "BOOT_FLAG = 0xaa55"
definition BOOT_PROTOCOL_2_12 :: u16 where [layout_consts]: "BOOT_PROTOCOL_2_12 = 0x020c"
definition LOADFLAGS_LOADED_HIGH :: u8 where [layout_consts]: "LOADFLAGS_LOADED_HIGH = 1"
definition LOADFLAGS_CAN_USE_HEAP :: u8 where [layout_consts]: "LOADFLAGS_CAN_USE_HEAP = 0x80"
definition LOADER_TYPE_UNDEFINED :: u8 where [layout_consts]: "LOADER_TYPE_UNDEFINED = 0xff"
definition XLF_KERNEL_64 :: u8 where [layout_consts]: "XLF_KERNEL_64 = 1"

definition BP_ACPI_RSDP_ADDR :: nat where [layout_consts]: "BP_ACPI_RSDP_ADDR = 0x70"
definition BP_E820_ENTRIES :: nat where [layout_consts]: "BP_E820_ENTRIES = 0x1e8"
definition BP_E820_TABLE :: nat where [layout_consts]: "BP_E820_TABLE = 0x2d0"
definition E820_ENTRY_LEN :: nat where [layout_consts]: "E820_ENTRY_LEN = 20"
definition E820_MAX :: nat where [layout_consts]: "E820_MAX = 128"

definition GDT_CODE32 :: u64 where [layout_consts]: "GDT_CODE32 = 0x00cf9b000000ffff"
definition GDT_CODE64 :: u64 where [layout_consts]: "GDT_CODE64 = 0x00af9b000000ffff"
definition GDT_DATA :: u64 where [layout_consts]: "GDT_DATA = 0x00cf93000000ffff"

text \<open>The magic \<open>HdrS\<close>.\<close>

definition hdrs_magic :: bytes where
  "hdrs_magic = [0x48, 0x64, 0x72, 0x53]"

record kernel_info =
  ki_setup_bytes :: nat
  ki_init_size :: u32
  ki_cmdline_max :: u32

definition is_power_of_two :: "u64 \<Rightarrow> bool" where
  "is_power_of_two w \<longleftrightarrow> w \<noteq> 0 \<and> w AND (w - 1) = 0"

definition setup_sects_bytes :: "u8 \<Rightarrow> nat" where
  "setup_sects_bytes sects = ((if sects = 0 then 4 else unat sects) + 1) * 512"

definition parse_bzimage :: "bytes \<Rightarrow> kernel_info result" where
  "parse_bzimage bz =
     (if length bz < SETUP_HEADER_MIN then Inl (Boot BzTooShort)
      else
        bind_result (or_panic (get16 HDR_BOOT_FLAG bz)) (\<lambda>flag.
        bind_result (or_panic (peek HDR_SIGNATURE 4 bz)) (\<lambda>signature.
        if flag \<noteq> BOOT_FLAG \<or> signature \<noteq> hdrs_magic then Inl (Boot BzNotLinux) else
        bind_result (or_panic (get16 HDR_VERSION bz)) (\<lambda>version.
        if version < BOOT_PROTOCOL_2_12 then Inl (Boot BzOldProtocol) else
        bind_result (or_panic (read_at HDR_LOADFLAGS bz)) (\<lambda>loadflags.
        if loadflags AND LOADFLAGS_LOADED_HIGH = 0 then Inl (Boot BzNotHigh) else
        bind_result (or_panic (read_at HDR_XLOADFLAGS bz)) (\<lambda>xloadflags.
        if xloadflags AND XLF_KERNEL_64 = 0 then Inl (Boot BzNo64BitEntry) else
        bind_result (or_panic (get32 HDR_KERNEL_ALIGNMENT bz)) (\<lambda>align32.
        let alignment = (ucast align32 :: u64) in
        if alignment = 0 \<or> \<not> is_power_of_two alignment
           \<or> \<not> is_multiple_of KERNEL_BASE alignment then Inl (Boot BzBadAlignment) else
        bind_result (or_panic (read_at HDR_RELOCATABLE bz)) (\<lambda>relocatable.
        bind_result (or_panic (get64 HDR_PREF_ADDRESS bz)) (\<lambda>pref.
        if relocatable = 0 \<and> pref \<noteq> KERNEL_BASE then Inl (Boot BzNotRelocatable) else
        bind_result (or_panic (read_at HDR_SETUP_SECTS bz)) (\<lambda>sects.
        let setup_bytes = setup_sects_bytes sects in
        if setup_bytes + unat ENTRY_64_OFFSET \<ge> length bz then Inl (Boot BzNoPayload) else
        bind_result (or_panic (get32 HDR_INIT_SIZE bz)) (\<lambda>init_size.
        bind_result (or_panic (get32 HDR_CMDLINE_SIZE bz)) (\<lambda>cmdline_max.
        Inr \<lparr>ki_setup_bytes = setup_bytes, ki_init_size = init_size,
             ki_cmdline_max = cmdline_max\<rparr>))))))))))))"

section \<open>Zero page and GDT\<close>

fun write_e820 :: "nat \<Rightarrow> e820_entry list \<Rightarrow> bytes \<Rightarrow> bytes option" where
  "write_e820 index [] page = Some page"
| "write_e820 index ((b, n, kind) # es) page =
     do {
       let at = BP_E820_TABLE + index * E820_ENTRY_LEN;
       page \<leftarrow> put64 at b page;
       page \<leftarrow> put64 (at + 8) n page;
       page \<leftarrow> put32 (at + 16) kind page;
       write_e820 (Suc index) es page
     }"

definition zero_page ::
  "bytes \<Rightarrow> kernel_info \<Rightarrow> nat \<Rightarrow> u64 \<Rightarrow> e820_entry list \<Rightarrow> u64 \<Rightarrow> bytes result" where
  "zero_page setup info initramfs_len rsdp emap setup_data =
     (if length emap > E820_MAX then Inl (Boot (E820TooLong (length emap)))
      else or_panic (do {
        hdr \<leftarrow> peek SETUP_HEADER (SETUP_HEADER_END - SETUP_HEADER) setup;
        page \<leftarrow> poke SETUP_HEADER hdr (replicate (unat PAGE) 0);
        page \<leftarrow> put8 HDR_TYPE_OF_LOADER LOADER_TYPE_UNDEFINED page;
        loadflags \<leftarrow> read_at HDR_LOADFLAGS page;
        page \<leftarrow> put8 HDR_LOADFLAGS (loadflags OR LOADFLAGS_CAN_USE_HEAP) page;
        page \<leftarrow> put32 HDR_RAMDISK_IMAGE (ucast INITRAMFS_BASE) page;
        page \<leftarrow> put32 HDR_RAMDISK_SIZE (of_nat initramfs_len) page;
        page \<leftarrow> put32 HDR_CMD_LINE_PTR (ucast CMDLINE) page;
        page \<leftarrow> put32 HDR_CODE32_START (ucast KERNEL_BASE) page;
        page \<leftarrow> put32 HDR_INIT_SIZE (ki_init_size info) page;
        page \<leftarrow> put64 BP_ACPI_RSDP_ADDR rsdp page;
        page \<leftarrow> put64 HDR_SETUP_DATA setup_data page;
        page \<leftarrow> put8 BP_E820_ENTRIES (of_nat (length emap)) page;
        write_e820 0 emap page
      }))"

definition gdt_stack :: "bytes option" where
  "gdt_stack = do {
     let v = replicate (unat BSP_STACK_SIZE) 0;
     v \<leftarrow> put64 (unat BOOT_CS32) GDT_CODE32 v;
     v \<leftarrow> put64 (unat BOOT_CS) GDT_CODE64 v;
     v \<leftarrow> put64 (unat BOOT_DS) GDT_DATA v;
     let at = unat (GDT_PTR - BSP_STACK);
     v \<leftarrow> poke at (le16 (ucast GDT_LIMIT)) v;
     put64 (at + 2) BSP_STACK v
   }"

section \<open>Which images are accepted\<close>

text \<open>The fields of the header as a boot loader reads them, for images long enough to have them.\<close>

definition hdr8 :: "nat \<Rightarrow> bytes \<Rightarrow> u8" where "hdr8 at bz = bz ! at"
definition hdr16 :: "nat \<Rightarrow> bytes \<Rightarrow> u16" where "hdr16 at bz = le_word (take 2 (drop at bz))"
definition hdr32 :: "nat \<Rightarrow> bytes \<Rightarrow> u32" where "hdr32 at bz = le_word (take 4 (drop at bz))"
definition hdr64 :: "nat \<Rightarrow> bytes \<Rightarrow> u64" where "hdr64 at bz = le_word (take 8 (drop at bz))"

definition bootable :: "bytes \<Rightarrow> bool" where
  "bootable bz \<longleftrightarrow>
     SETUP_HEADER_MIN \<le> length bz
   \<and> hdr16 HDR_BOOT_FLAG bz = BOOT_FLAG \<and> take 4 (drop HDR_SIGNATURE bz) = hdrs_magic
   \<and> BOOT_PROTOCOL_2_12 \<le> hdr16 HDR_VERSION bz
   \<and> hdr8 HDR_LOADFLAGS bz AND LOADFLAGS_LOADED_HIGH \<noteq> 0
   \<and> hdr8 HDR_XLOADFLAGS bz AND XLF_KERNEL_64 \<noteq> 0
   \<and> hdr32 HDR_KERNEL_ALIGNMENT bz \<noteq> 0
   \<and> is_power_of_two (ucast (hdr32 HDR_KERNEL_ALIGNMENT bz))
   \<and> is_multiple_of KERNEL_BASE (ucast (hdr32 HDR_KERNEL_ALIGNMENT bz))
   \<and> (hdr8 HDR_RELOCATABLE bz \<noteq> 0 \<or> hdr64 HDR_PREF_ADDRESS bz = KERNEL_BASE)
   \<and> setup_sects_bytes (hdr8 HDR_SETUP_SECTS bz) + unat ENTRY_64_OFFSET < length bz"

definition info_of :: "bytes \<Rightarrow> kernel_info" where
  "info_of bz = \<lparr>ki_setup_bytes = setup_sects_bytes (hdr8 HDR_SETUP_SECTS bz),
     ki_init_size = hdr32 HDR_INIT_SIZE bz, ki_cmdline_max = hdr32 HDR_CMDLINE_SIZE bz\<rparr>"

text \<open>What each failing check reports, in the order of the code.\<close>

lemma parse_bzimage_long:
  assumes "SETUP_HEADER_MIN \<le> length bz"
  shows "parse_bzimage bz =
     (if hdr16 HDR_BOOT_FLAG bz \<noteq> BOOT_FLAG \<or> take 4 (drop HDR_SIGNATURE bz) \<noteq> hdrs_magic
        then Inl (Boot BzNotLinux)
      else if hdr16 HDR_VERSION bz < BOOT_PROTOCOL_2_12 then Inl (Boot BzOldProtocol)
      else if hdr8 HDR_LOADFLAGS bz AND LOADFLAGS_LOADED_HIGH = 0 then Inl (Boot BzNotHigh)
      else if hdr8 HDR_XLOADFLAGS bz AND XLF_KERNEL_64 = 0 then Inl (Boot BzNo64BitEntry)
      else if hdr32 HDR_KERNEL_ALIGNMENT bz = 0
           \<or> \<not> is_power_of_two (ucast (hdr32 HDR_KERNEL_ALIGNMENT bz))
           \<or> \<not> is_multiple_of KERNEL_BASE (ucast (hdr32 HDR_KERNEL_ALIGNMENT bz))
        then Inl (Boot BzBadAlignment)
      else if hdr8 HDR_RELOCATABLE bz = 0 \<and> hdr64 HDR_PREF_ADDRESS bz \<noteq> KERNEL_BASE
        then Inl (Boot BzNotRelocatable)
      else if length bz \<le> setup_sects_bytes (hdr8 HDR_SETUP_SECTS bz) + unat ENTRY_64_OFFSET
        then Inl (Boot BzNoPayload)
      else Inr (info_of bz))"
proof -
  have r: "at + 2 \<le> length bz \<Longrightarrow> get16 at bz = Some (hdr16 at bz)"
    "at + 4 \<le> length bz \<Longrightarrow> get32 at bz = Some (hdr32 at bz)"
    "at + 8 \<le> length bz \<Longrightarrow> get64 at bz = Some (hdr64 at bz)"
    "at < length bz \<Longrightarrow> read_at at bz = Some (hdr8 at bz)"
    "at + 4 \<le> length bz \<Longrightarrow> peek at 4 bz = Some (take 4 (drop at bz))" for at
    by (simp_all add: get_in_bounds read_at_in_bounds peek_in_bounds
        hdr8_def hdr16_def hdr32_def hdr64_def)
  have len: "0x268 \<le> length bz"
    using assms by (simp add: SETUP_HEADER_MIN_def)
  note offs = HDR_SETUP_SECTS_def HDR_BOOT_FLAG_def HDR_SIGNATURE_def HDR_VERSION_def
    HDR_LOADFLAGS_def HDR_KERNEL_ALIGNMENT_def HDR_RELOCATABLE_def HDR_XLOADFLAGS_def
    HDR_CMDLINE_SIZE_def HDR_PREF_ADDRESS_def HDR_INIT_SIZE_def
  have reads: "get16 HDR_BOOT_FLAG bz = Some (hdr16 HDR_BOOT_FLAG bz)"
    "peek HDR_SIGNATURE 4 bz = Some (take 4 (drop HDR_SIGNATURE bz))"
    "get16 HDR_VERSION bz = Some (hdr16 HDR_VERSION bz)"
    "read_at HDR_LOADFLAGS bz = Some (hdr8 HDR_LOADFLAGS bz)"
    "read_at HDR_XLOADFLAGS bz = Some (hdr8 HDR_XLOADFLAGS bz)"
    "get32 HDR_KERNEL_ALIGNMENT bz = Some (hdr32 HDR_KERNEL_ALIGNMENT bz)"
    "read_at HDR_RELOCATABLE bz = Some (hdr8 HDR_RELOCATABLE bz)"
    "get64 HDR_PREF_ADDRESS bz = Some (hdr64 HDR_PREF_ADDRESS bz)"
    "read_at HDR_SETUP_SECTS bz = Some (hdr8 HDR_SETUP_SECTS bz)"
    "get32 HDR_INIT_SIZE bz = Some (hdr32 HDR_INIT_SIZE bz)"
    "get32 HDR_CMDLINE_SIZE bz = Some (hdr32 HDR_CMDLINE_SIZE bz)"
    by (rule r, use len in \<open>simp add: offs\<close>)+
  show ?thesis
    using assms unfolding parse_bzimage_def reads Let_def info_of_def by auto
qed

lemma parse_bzimage_Inr_iff: "parse_bzimage bz = Inr info \<longleftrightarrow> bootable bz \<and> info = info_of bz"
proof (cases "SETUP_HEADER_MIN \<le> length bz")
  case True
  then show ?thesis
    unfolding parse_bzimage_long [OF True] bootable_def by (auto simp: not_less not_le)
next
  case False
  then show ?thesis by (simp add: parse_bzimage_def bootable_def)
qed

lemma setup_bytes_bounds: "1024 \<le> setup_sects_bytes s \<and> setup_sects_bytes s \<le> 131072"
proof -
  have "unat s \<le> 255" using unat_u8_less [of s] by simp
  moreover have "s \<noteq> 0 \<Longrightarrow> 1 \<le> unat s" by (simp add: Suc_le_eq unat_gt_0)
  ultimately show ?thesis by (auto simp: setup_sects_bytes_def)
qed

section \<open>The E820 table of the zero page\<close>

definition enc_e820 :: "e820_entry \<Rightarrow> bytes" where
  "enc_e820 e = (case e of (b, n, k) \<Rightarrow> le64 b @ le64 n @ le32 k)"

definition dec_e820 :: "bytes \<Rightarrow> e820_entry" where
  "dec_e820 bs = (le_word (take 8 bs), le_word (take 8 (drop 8 bs)), le_word (drop 16 bs))"

interpretation e820_codec: fixed_codec enc_e820 dec_e820 20 "\<lambda>_. True"
  by unfold_locales (auto simp: enc_e820_def dec_e820_def)

lemma length_enc_e820 [simp]: "length (enc_e820 e) = 20"
  by (rule e820_codec.length_enc) simp

lemma length_concat_e820 [simp]: "length (concat (map enc_e820 es)) = 20 * length es"
  by (rule e820_codec.length_concat_enc) simp

lemma write_e820_blit:
  "0x2d0 + 20 * (index + length es) \<le> length page \<Longrightarrow>
     write_e820 index es page = Some (blit (0x2d0 + 20 * index) (concat (map enc_e820 es)) page)"
proof (induction es arbitrary: index page)
  case Nil
  then show ?case by (simp add: blit_def)
next
  case (Cons e es)
  obtain b n kind where e: "e = (b, n, kind)" by (cases e)
  let ?at = "0x2d0 + 20 * index"
  let ?page = "blit ?at (enc_e820 e) page"
  from Cons.prems have len: "?at + 20 + 20 * length es \<le> length page" by simp
  have at: "BP_E820_TABLE + index * E820_ENTRY_LEN = ?at"
    by (simp add: BP_E820_TABLE_def E820_ENTRY_LEN_def)
  have w: "blit (736 + 20 * index) (le32 kind) (blit (728 + 20 * index) (le64 n) (blit ?at (le64 b) page)) = ?page"
    using len by (simp add: blit_blit_append enc_e820_def e)
  have "write_e820 index (e # es) page = write_e820 (Suc index) es ?page"
    using len unfolding e write_e820.simps Let_def at by (simp add: w [unfolded e])
  also have "\<dots> = Some (blit (0x2d0 + 20 * Suc index) (concat (map enc_e820 es)) ?page)"
    using len by (intro Cons.IH) simp
  also have "\<dots> = Some (blit ?at (concat (map enc_e820 (e # es))) page)"
    using len by (simp add: blit_blit_append)
  finally show ?case .
qed

text \<open>
  The reader of the boot protocol: a count byte at \<open>0x1e8\<close> and that many 20-byte entries from
  \<open>0x2d0\<close>.
\<close>

definition read_e820 :: "bytes \<Rightarrow> e820_entry list option" where
  "read_e820 page = do {
     count \<leftarrow> read_at BP_E820_ENTRIES page;
     those (map (\<lambda>i. map_option dec_e820 (peek (BP_E820_TABLE + i * E820_ENTRY_LEN) 20 page))
       [0..<unat count])
   }"

lemma read_e820_blit:
  assumes "length page = 4096" "length es \<le> 128"
    "read_at BP_E820_ENTRIES page = Some (of_nat (length es))"
  shows "read_e820 (blit 0x2d0 (concat (map enc_e820 es)) page) = Some es"
proof -
  let ?t = "concat (map enc_e820 es)"
  have c: "unat (of_nat (length es) :: u8) = length es"
    using assms(2) by (simp add: unat_of_nat)
  have n: "read_at BP_E820_ENTRIES (blit 0x2d0 ?t page) = Some (of_nat (length es))"
    using assms by (subst read_at_blit_other) (simp_all add: BP_E820_ENTRIES_def)
  have "map_option dec_e820 (peek (BP_E820_TABLE + i * E820_ENTRY_LEN) 20 (blit 0x2d0 ?t page))
      = Some (es ! i)" if i: "i < length es" for i
  proof -
    have "peek (0x2d0 + i * 20) 20 (blit 0x2d0 ?t page)
        = peek (i * 20) 20 (?t @ drop (0x2d0 + 20 * length es) page)"
      using assms(1,2) i by (simp add: peek_def blit_def drop_take)
    then show ?thesis
      using e820_codec.decode_record_at [OF _ i] by (simp add: BP_E820_TABLE_def E820_ENTRY_LEN_def)
  qed
  then have "those (map (\<lambda>i. map_option dec_e820
        (peek (BP_E820_TABLE + i * E820_ENTRY_LEN) 20 (blit 0x2d0 ?t page))) [0..<length es])
      = Some (map (\<lambda>i. es ! i) [0..<length es])"
    by (intro those_map_Some) simp
  then show ?thesis by (simp add: read_e820_def n c map_nth)
qed

section \<open>What Linux finds in the zero page\<close>

text \<open>The bytes of the page before the E820 table: the copied header with its edited fields.\<close>

definition zero_page_header :: "bytes \<Rightarrow> kernel_info \<Rightarrow> nat \<Rightarrow> u64 \<Rightarrow> nat \<Rightarrow> u64 \<Rightarrow> bytes" where
  "zero_page_header setup info initramfs_len rsdp count setup_data =
     blit 0x1e8 [of_nat count]
    (blit 0x250 (le64 setup_data)
    (blit 0x70 (le64 rsdp)
    (blit 0x260 (le32 (ki_init_size info))
    (blit 0x214 (le32 0x1000000)
    (blit 0x228 (le32 0x20000)
    (blit 0x21c (le32 (of_nat initramfs_len))
    (blit 0x218 (le32 0x20000000)
    (blit 0x211 [setup ! 0x211 OR 0x80]
    (blit 0x210 [0xff]
    (blit 0x1f1 (take 0x9f (drop 0x1f1 setup)) (replicate 4096 0)))))))))))"

lemma length_zero_page_header:
  "0x290 \<le> length setup \<Longrightarrow>
     length (zero_page_header setup info il rsdp count sd) = 4096"
  by (simp add: zero_page_header_def)

lemma zero_page_eq:
  assumes "0x290 \<le> length setup" "length emap \<le> 128"
  shows "zero_page setup info il rsdp emap sd =
    Inr (blit 0x2d0 (concat (map enc_e820 emap))
      (zero_page_header setup info il rsdp (length emap) sd))"
proof -
  note c = SETUP_HEADER_def SETUP_HEADER_END_def HDR_SETUP_SECTS_def HDR_TYPE_OF_LOADER_def
    HDR_LOADFLAGS_def HDR_RAMDISK_IMAGE_def HDR_RAMDISK_SIZE_def HDR_CMD_LINE_PTR_def
    HDR_CODE32_START_def HDR_INIT_SIZE_def BP_ACPI_RSDP_ADDR_def HDR_SETUP_DATA_def
    BP_E820_ENTRIES_def LOADER_TYPE_UNDEFINED_def LOADFLAGS_CAN_USE_HEAP_def
    INITRAMFS_BASE_def CMDLINE_def KERNEL_BASE_def
  have pk: "peek 0x1f1 0x9f setup = Some (take 0x9f (drop 0x1f1 setup))"
    using assms(1) by (simp add: peek_def)
  have rd: "read_at 0x211 (blit 0x210 [0xff]
      (blit 0x1f1 (take 0x9f (drop 0x1f1 setup)) (replicate 4096 0))) = Some (setup ! 0x211)"
    using assms(1) by (simp add: read_at_def nth_blit)
  have len: "length (zero_page_header setup info il rsdp (length emap) sd) = 4096"
    using assms(1) by (rule length_zero_page_header)
  have e: "write_e820 0 emap (zero_page_header setup info il rsdp (length emap) sd) =
      Some (blit 0x2d0 (concat (map enc_e820 emap))
        (zero_page_header setup info il rsdp (length emap) sd))"
    using write_e820_blit [of 0 emap "zero_page_header setup info il rsdp (length emap) sd"]
      assms(2) len by simp
  have nolen: "\<not> length emap > E820_MAX" using assms(2) by (simp add: E820_MAX_def)
  show ?thesis
    unfolding zero_page_def c if_not_P [OF nolen]
    using assms(1) e [unfolded zero_page_header_def]
    by (simp add: pk rd zero_page_header_def)
qed

lemma zero_page_too_long:
  "128 < length emap \<Longrightarrow> zero_page setup info il rsdp emap sd = Inl (Boot (E820TooLong (length emap)))"
  by (simp add: zero_page_def E820_MAX_def)

lemma zero_page_fields:
  assumes "0x290 \<le> length setup" "zero_page setup info il rsdp emap sd = Inr page"
  shows "length page = 4096 \<and> read_e820 page = Some emap
    \<and> get64 BP_ACPI_RSDP_ADDR page = Some rsdp
    \<and> get64 HDR_SETUP_DATA page = Some sd
    \<and> get32 HDR_RAMDISK_IMAGE page = Some (ucast INITRAMFS_BASE)
    \<and> get32 HDR_RAMDISK_SIZE page = Some (of_nat il)
    \<and> get32 HDR_CMD_LINE_PTR page = Some (ucast CMDLINE)
    \<and> get32 HDR_CODE32_START page = Some (ucast KERNEL_BASE)
    \<and> get32 HDR_INIT_SIZE page = Some (ki_init_size info)
    \<and> read_at HDR_TYPE_OF_LOADER page = Some LOADER_TYPE_UNDEFINED
    \<and> read_at HDR_LOADFLAGS page = Some (setup ! HDR_LOADFLAGS OR LOADFLAGS_CAN_USE_HEAP)
    \<and> get32 HDR_KERNEL_ALIGNMENT page = get32 HDR_KERNEL_ALIGNMENT setup"
proof -
  have n: "length emap \<le> 128"
    using assms(2) zero_page_too_long by (metis Inl_Inr_False not_le)
  note eq = zero_page_eq [OF assms(1) n, of info il rsdp sd]
  have page: "page = blit 0x2d0 (concat (map enc_e820 emap))
      (zero_page_header setup info il rsdp (length emap) sd)"
    using assms(2) eq by simp
  let ?h = "zero_page_header setup info il rsdp (length emap) sd"
  have len: "length ?h = 4096" using assms(1) by (rule length_zero_page_header)
  have cnt: "read_at BP_E820_ENTRIES ?h = Some (of_nat (length emap))"
    using assms(1) by (simp add: zero_page_header_def BP_E820_ENTRIES_def)
  have "read_e820 page = Some emap"
    unfolding page by (rule read_e820_blit [OF len n cnt])
  moreover have "get64 0x70 page = Some rsdp" "get64 0x250 page = Some sd"
    "get32 0x218 page = Some 0x20000000" "get32 0x21c page = Some (of_nat il)"
    "get32 0x228 page = Some 0x20000" "get32 0x214 page = Some 0x1000000"
    "get32 0x260 page = Some (ki_init_size info)"
    "read_at 0x210 page = Some 0xff" "read_at 0x211 page = Some (setup ! 0x211 OR 0x80)"
    using n len assms(1) unfolding page
    by (simp_all add: zero_page_header_def)
  moreover have "get32 0x230 page = get32 0x230 setup"
  proof -
    have "get32 0x230 page = get32 0x230
        (blit 0x1f1 (take 0x9f (drop 0x1f1 setup)) (replicate 4096 0))"
      using n len assms(1) unfolding page by (simp add: zero_page_header_def)
    also have "\<dots> = get32 0x230 setup"
    proof -
      have "peek 0x230 4 (blit 0x1f1 (take 0x9f (drop 0x1f1 setup)) (replicate 4096 0))
          = peek 0x230 4 setup"
        using assms(1) by (auto simp: peek_def nth_blit intro!: nth_equalityI)
      then show ?thesis by (simp add: get32_def)
    qed
    finally show ?thesis .
  qed
  moreover have "length page = 4096" using n len unfolding page by simp
  ultimately show ?thesis
    by (simp add: layout_consts)
qed

section \<open>The descriptor table\<close>

lemma gdt_stack_contents:
  "\<exists>v. gdt_stack = Some v \<and> length v = unat BSP_STACK_SIZE \<and>
     get64 0 v = Some 0 \<and>
     get64 (unat BOOT_CS32) v = Some GDT_CODE32 \<and>
     get64 (unat BOOT_CS) v = Some GDT_CODE64 \<and>
     get64 (unat BOOT_DS) v = Some GDT_DATA \<and>
     get16 (unat (GDT_PTR - BSP_STACK)) v = Some (ucast GDT_LIMIT) \<and>
     get64 (unat (GDT_PTR - BSP_STACK) + 2) v = Some BSP_STACK"
proof -
  have "le_word (replicate n 0) = (0 :: u64)" for n
    by (induction n) auto
  then have z: "get64 0 (replicate 65536 0) = Some 0"
    by (simp add: get64_def peek_def)
  show ?thesis
    by (simp add: gdt_stack_def layout_consts z)
qed

section \<open>Properties\<close>

text \<open>The bzImage-shaped stub of the tests in src/src/image.rs, the concrete input of the witnesses.\<close>

definition test_kernel :: bytes where
  "test_kernel =
     blit 0x260 (le32 0x200000) (blit 0x238 (le32 0x800) (blit 0x236 [1] (blit 0x234 [1]
       (blit 0x230 (le32 0x200000) (blit 0x211 [1] (blit 0x206 (le16 0x020c)
         (blit 0x202 hdrs_magic (blit 0x1fe (le16 0xaa55) (blit 0x1f1 [4]
           (replicate 8192 0))))))))))"

lemma length_test_kernel [simp]: "length test_kernel = 8192"
  by (simp add: test_kernel_def hdrs_magic_def)

lemma parse_test_kernel:
  "parse_bzimage test_kernel =
     Inr \<lparr>ki_setup_bytes = 2560, ki_init_size = 0x200000, ki_cmdline_max = 0x800\<rparr>"
proof -
  have len: "length hdrs_magic = 4" by (simp add: hdrs_magic_def)
  have "get16 0x1fe test_kernel = Some 0xaa55" "get16 0x206 test_kernel = Some 0x020c"
    "get32 0x230 test_kernel = Some 0x200000" "get32 0x238 test_kernel = Some 0x800"
    "get32 0x260 test_kernel = Some 0x200000"
    "read_at 0x1f1 test_kernel = Some 4" "read_at 0x211 test_kernel = Some 1"
    "read_at 0x234 test_kernel = Some 1" "read_at 0x236 test_kernel = Some 1"
    "peek 0x202 4 test_kernel = Some hdrs_magic"
    by (simp_all add: test_kernel_def len peek_blit_other peek_blit_same)
  moreover have "is_power_of_two 0x200000" "is_multiple_of KERNEL_BASE 0x200000"
    by (simp_all add: is_power_of_two_def is_multiple_of_def KERNEL_BASE_def)
  moreover have "get64 HDR_PREF_ADDRESS test_kernel = Some (hdr64 HDR_PREF_ADDRESS test_kernel)"
    by (simp add: get_in_bounds HDR_PREF_ADDRESS_def hdr64_def)
  moreover have "(ucast (0x200000 :: u32) :: u64) = 0x200000" by simp
  ultimately show ?thesis
    by (simp add: parse_bzimage_def HDR_SETUP_SECTS_def HDR_BOOT_FLAG_def HDR_SIGNATURE_def
        HDR_VERSION_def HDR_LOADFLAGS_def HDR_KERNEL_ALIGNMENT_def HDR_RELOCATABLE_def
        HDR_XLOADFLAGS_def HDR_CMDLINE_SIZE_def HDR_INIT_SIZE_def SETUP_HEADER_MIN_def
        BOOT_FLAG_def BOOT_PROTOCOL_2_12_def LOADFLAGS_LOADED_HIGH_def XLF_KERNEL_64_def
        ENTRY_64_OFFSET_def setup_sects_bytes_def)
qed

lemma test_kernel_bootable:
  "bootable test_kernel"
  "info_of test_kernel = \<lparr>ki_setup_bytes = 2560, ki_init_size = 0x200000, ki_cmdline_max = 0x800\<rparr>"
  using parse_test_kernel by (auto simp: parse_bzimage_Inr_iff)

text \<open>An image is accepted exactly when every condition of the boot protocol the builder relies on
  holds, with the header's own sizes as the result, and no input, however short, makes the
  parser read out of range.\<close>

theorem parse_bzimage_decides:
  "(parse_bzimage bz = Inr info \<longleftrightarrow> bootable bz \<and> info = info_of bz) \<and>
   parse_bzimage bz \<noteq> Inl Panic"
proof
  show "parse_bzimage bz = Inr info \<longleftrightarrow> bootable bz \<and> info = info_of bz"
    by (rule parse_bzimage_Inr_iff)
  show "parse_bzimage bz \<noteq> Inl Panic"
  proof (cases "SETUP_HEADER_MIN \<le> length bz")
    case True
    then show ?thesis by (simp add: parse_bzimage_long)
  next
    case False
    then show ?thesis by (simp add: parse_bzimage_def)
  qed
qed

text \<open>Whatever the map, the zero page Linux reads holds it back entry by entry, at most 128 of
  them, beside the addresses of the ACPI tables, the command line and the initramfs, and the
  kernel's own header fields; the page is refused exactly when the map is longer than that.\<close>

theorem zero_page_reads_back:
  assumes "0x290 \<le> length setup"
  shows "((\<exists>page. zero_page setup info il rsdp emap sd = Inr page) \<longleftrightarrow> length emap \<le> 128) \<and>
    (\<forall>page. zero_page setup info il rsdp emap sd = Inr page \<longrightarrow>
      length page = 4096 \<and> read_e820 page = Some emap
    \<and> get64 BP_ACPI_RSDP_ADDR page = Some rsdp
    \<and> get64 HDR_SETUP_DATA page = Some sd
    \<and> get32 HDR_RAMDISK_IMAGE page = Some (ucast INITRAMFS_BASE)
    \<and> get32 HDR_RAMDISK_SIZE page = Some (of_nat il)
    \<and> get32 HDR_CMD_LINE_PTR page = Some (ucast CMDLINE)
    \<and> get32 HDR_CODE32_START page = Some (ucast KERNEL_BASE)
    \<and> get32 HDR_INIT_SIZE page = Some (ki_init_size info)
    \<and> read_at HDR_TYPE_OF_LOADER page = Some LOADER_TYPE_UNDEFINED
    \<and> read_at HDR_LOADFLAGS page = Some (setup ! HDR_LOADFLAGS OR LOADFLAGS_CAN_USE_HEAP))"
proof
  show "(\<exists>page. zero_page setup info il rsdp emap sd = Inr page) \<longleftrightarrow> length emap \<le> 128"
    using zero_page_eq [OF assms] zero_page_too_long
    by (cases "length emap \<le> 128") (auto simp: not_le)
qed (use zero_page_fields [OF assms] in blast)

theorem zero_page_reads_back_witness:
  "\<exists>page. zero_page (replicate 1024 0) (info_of test_kernel) 5 ACPI_BASE [(0, 0x7000, RAM)] 0 = Inr page
     \<and> read_e820 page = Some [(0, 0x7000, RAM)] \<and> get32 HDR_INIT_SIZE page = Some 0x200000"
proof -
  have len: "0x290 \<le> length (replicate 1024 0 :: bytes)" by simp
  note both = zero_page_reads_back [OF len, of "info_of test_kernel" 5 ACPI_BASE "[(0, 0x7000, RAM)]" 0]
  then obtain page where page: "zero_page (replicate 1024 0) (info_of test_kernel) 5 ACPI_BASE
      [(0, 0x7000, RAM)] 0 = Inr page"
    by fastforce
  then have "read_e820 page = Some [(0, 0x7000, RAM)] \<and>
      get32 HDR_INIT_SIZE page = Some (ki_init_size (info_of test_kernel))"
    using both by blast
  with page show ?thesis by (simp add: test_kernel_bootable)
qed

text \<open>The measured stack page starts with the four descriptors the selectors address, and the
  pseudo-descriptor a shim loads names that table with its exact limit.\<close>

theorem gdt_stack_holds_the_descriptors:
  "\<exists>v. gdt_stack = Some v \<and> length v = unat BSP_STACK_SIZE \<and> get64 0 v = Some 0 \<and>
     get64 (unat BOOT_CS32) v = Some GDT_CODE32 \<and>
     get64 (unat BOOT_CS) v = Some GDT_CODE64 \<and>
     get64 (unat BOOT_DS) v = Some GDT_DATA \<and>
     get16 (unat (GDT_PTR - BSP_STACK)) v = Some (ucast GDT_LIMIT) \<and>
     get64 (unat (GDT_PTR - BSP_STACK) + 2) v = Some BSP_STACK"
  by (rule gdt_stack_contents)

end
