(* ===== verification/Acpi.thy ===== *)
theory Acpi
  imports Boot_Protocol
begin

text \<open>
  src/src/acpi.rs: the one measured page of ACPI tables (RSDP, XSDT, FADT, DSDT, MADT). Each
  table is built by its own definition, composed in the order of \<open>build\<close>; every write is one
  that panics out of range. The lemmas show that no write panics for an accepted processor
  count, that every checksum makes its table sum to zero, that the tables point at each other,
  and what the MADT says of every processor.
\<close>

section \<open>Constants\<close>

text \<open>\<open>OEM_ID\<close> is TINFOI, \<open>OEM_TABLE_ID\<close> is TDXSHIM and a space, \<open>CREATOR_ID\<close> is TFNL.\<close>

definition OEM_ID :: bytes where "OEM_ID = [84, 73, 78, 70, 79, 73]"
definition OEM_TABLE_ID :: bytes where "OEM_TABLE_ID = [84, 68, 88, 83, 72, 73, 77, 32]"
definition CREATOR_ID :: bytes where "CREATOR_ID = [84, 70, 78, 76]"

definition TABLE_HEADER_LEN :: nat where [layout_consts]: "TABLE_HEADER_LEN = 36"
definition RSDP_CHECKSUM :: nat where [layout_consts]: "RSDP_CHECKSUM = 8"
definition RSDP_OEM_ID :: nat where [layout_consts]: "RSDP_OEM_ID = 9"
definition RSDP_REVISION :: nat where [layout_consts]: "RSDP_REVISION = 15"
definition RSDP_LENGTH :: nat where [layout_consts]: "RSDP_LENGTH = 20"
definition RSDP_XSDT :: nat where [layout_consts]: "RSDP_XSDT = 24"
definition RSDP_EXT_CHECKSUM :: nat where [layout_consts]: "RSDP_EXT_CHECKSUM = 32"
definition RSDP_V1_LEN :: nat where [layout_consts]: "RSDP_V1_LEN = 20"
definition FADT_DSDT :: nat where [layout_consts]: "FADT_DSDT = 40"
definition FADT_FLAGS :: nat where [layout_consts]: "FADT_FLAGS = 112"
definition FADT_MINOR_VERSION :: nat where [layout_consts]: "FADT_MINOR_VERSION = 131"
definition FADT_X_DSDT :: nat where [layout_consts]: "FADT_X_DSDT = 140"
definition MADT_LAPIC_ADDR :: nat where [layout_consts]: "MADT_LAPIC_ADDR = 36"
definition MADT_FLAGS :: nat where [layout_consts]: "MADT_FLAGS = 40"

definition FADT_WBINVD :: u32 where [layout_consts]: "FADT_WBINVD = 1"
definition FADT_HW_REDUCED_ACPI :: u32 where [layout_consts]: "FADT_HW_REDUCED_ACPI = push_bit 20 1"
definition MADT_PCAT_COMPAT :: u32 where [layout_consts]: "MADT_PCAT_COMPAT = 1"
definition MADT_LOCAL_APIC :: u8 where [layout_consts]: "MADT_LOCAL_APIC = 0"
definition MADT_WAKEUP :: u8 where [layout_consts]: "MADT_WAKEUP = 16"
definition LAPIC_ENABLED :: u32 where [layout_consts]: "LAPIC_ENABLED = 1"
definition LOCAL_APIC_ADDR :: u32 where [layout_consts]: "LOCAL_APIC_ADDR = 0xfee00000"

section \<open>Tables\<close>

definition checksum :: "bytes \<Rightarrow> u8" where
  "checksum v = 0 - fold (\<lambda>b a. a + b) v 0"

definition acpi_header :: "nat \<Rightarrow> bytes \<Rightarrow> u32 \<Rightarrow> u8 \<Rightarrow> bytes \<Rightarrow> bytes option" where
  "acpi_header off signature len revision v = do {
     v \<leftarrow> poke off signature v;
     v \<leftarrow> poke (off + 4) (le32 len) v;
     v \<leftarrow> put8 (off + 8) revision v;
     v \<leftarrow> poke (off + 10) OEM_ID v;
     v \<leftarrow> poke (off + 16) OEM_TABLE_ID v;
     v \<leftarrow> poke (off + 24) (le32 1) v;
     v \<leftarrow> poke (off + 28) CREATOR_ID v;
     poke (off + 32) (le32 1) v
   }"

definition acpi_finish :: "nat \<Rightarrow> nat \<Rightarrow> bytes \<Rightarrow> bytes option" where
  "acpi_finish off len v = do {
     v \<leftarrow> put8 (off + 9) 0 v;
     table \<leftarrow> peek off len v;
     put8 (off + 9) (checksum table) v
   }"

definition madt_len :: "u32 \<Rightarrow> bool \<Rightarrow> u64" where
  "madt_len cpus wakeup =
     MADT_HEADER_LEN + ucast cpus * MADT_LAPIC_LEN + (if wakeup then MADT_WAKEUP_LEN else 0)"

definition write_rsdp :: "bytes \<Rightarrow> bytes option" where
  "write_rsdp v = do {
     v \<leftarrow> poke 0 [82, 83, 68, 32, 80, 84, 82, 32] v;
     v \<leftarrow> poke RSDP_OEM_ID OEM_ID v;
     v \<leftarrow> put8 RSDP_REVISION 2 v;
     v \<leftarrow> put32 RSDP_LENGTH (ucast RSDP_LEN) v;
     v \<leftarrow> put64 RSDP_XSDT (ACPI_BASE + ACPI_XSDT) v;
     v1 \<leftarrow> peek 0 RSDP_V1_LEN v;
     v \<leftarrow> put8 RSDP_CHECKSUM (checksum v1) v;
     all \<leftarrow> peek 0 (unat RSDP_LEN) v;
     put8 RSDP_EXT_CHECKSUM (checksum all) v
   }"

definition write_xsdt :: "bytes \<Rightarrow> bytes option" where
  "write_xsdt v = do {
     let xo = unat ACPI_XSDT;
     v \<leftarrow> acpi_header xo [88, 83, 68, 84] (ucast XSDT_LEN) 1 v;
     v \<leftarrow> put64 (xo + TABLE_HEADER_LEN) (ACPI_BASE + ACPI_FADT) v;
     v \<leftarrow> put64 (xo + TABLE_HEADER_LEN + 8) (ACPI_BASE + ACPI_MADT) v;
     acpi_finish xo (unat XSDT_LEN) v
   }"

definition write_fadt :: "bytes \<Rightarrow> bytes option" where
  "write_fadt v = do {
     let fo = unat ACPI_FADT;
     v \<leftarrow> acpi_header fo [70, 65, 67, 80] (ucast FADT_LEN) 6 v;
     v \<leftarrow> put32 (fo + FADT_DSDT) (ucast (ACPI_BASE + ACPI_DSDT)) v;
     v \<leftarrow> put32 (fo + FADT_FLAGS) (FADT_HW_REDUCED_ACPI OR FADT_WBINVD) v;
     v \<leftarrow> put8 (fo + FADT_MINOR_VERSION) 5 v;
     v \<leftarrow> put64 (fo + FADT_X_DSDT) (ACPI_BASE + ACPI_DSDT) v;
     acpi_finish fo (unat FADT_LEN) v
   }"

definition write_dsdt :: "bytes \<Rightarrow> bytes option" where
  "write_dsdt v = do {
     let dsdt_off = unat ACPI_DSDT;
     v \<leftarrow> acpi_header dsdt_off [68, 83, 68, 84] (ucast DSDT_LEN) 2 v;
     acpi_finish dsdt_off (unat DSDT_LEN) v
   }"

text \<open>One Local APIC entry per processor; \<open>id as u8\<close> truncates.\<close>

fun write_lapics :: "nat \<Rightarrow> nat \<Rightarrow> nat \<Rightarrow> bytes \<Rightarrow> (nat \<times> bytes) option" where
  "write_lapics cpu_id 0 at v = Some (at, v)"
| "write_lapics cpu_id (Suc left) at v = do {
     v \<leftarrow> put8 at MADT_LOCAL_APIC v;
     v \<leftarrow> put8 (at + 1) (ucast MADT_LAPIC_LEN) v;
     v \<leftarrow> put8 (at + 2) (of_nat cpu_id) v;
     v \<leftarrow> put8 (at + 3) (of_nat cpu_id) v;
     v \<leftarrow> put32 (at + 4) LAPIC_ENABLED v;
     write_lapics (Suc cpu_id) left (at + unat MADT_LAPIC_LEN) v
   }"

definition write_madt :: "u32 \<Rightarrow> bool \<Rightarrow> bytes \<Rightarrow> bytes option" where
  "write_madt cpus wakeup v = do {
     let mo = unat ACPI_MADT;
     let len = unat (madt_len cpus wakeup);
     v \<leftarrow> acpi_header mo [65, 80, 73, 67] (of_nat len) 6 v;
     v \<leftarrow> put32 (mo + MADT_LAPIC_ADDR) LOCAL_APIC_ADDR v;
     v \<leftarrow> put32 (mo + MADT_FLAGS) MADT_PCAT_COMPAT v;
     (at, v) \<leftarrow> write_lapics 0 (unat cpus) (mo + unat MADT_HEADER_LEN) v;
     v \<leftarrow> (if wakeup then do {
             v \<leftarrow> put8 at MADT_WAKEUP v;
             v \<leftarrow> put8 (at + 1) (ucast MADT_WAKEUP_LEN) v;
             put64 (at + 8) MAILBOX v
           } else Some v);
     acpi_finish mo len v
   }"

definition acpi_build :: "u32 \<Rightarrow> bool \<Rightarrow> bytes option" where
  "acpi_build cpus wakeup = do {
     let v = replicate (unat PAGE) 0;
     v \<leftarrow> write_rsdp v;
     v \<leftarrow> write_xsdt v;
     v \<leftarrow> write_fadt v;
     v \<leftarrow> write_dsdt v;
     write_madt cpus wakeup v
   }"

section \<open>Checksums\<close>

lemma fold_plus_sum: "fold (\<lambda>b a. a + b) v (s :: u8) = s + sum_list v"
  by (induction v arbitrary: s) (simp_all add: ac_simps)

lemma checksum_eq: "checksum v = - sum_list v"
  by (simp add: checksum_def fold_plus_sum)

lemma sum_list_update_word:
  "i < length xs \<Longrightarrow> sum_list (xs[i := x]) = sum_list xs - xs ! i + (x :: u8)"
  by (induction xs arbitrary: i) (auto split: nat.splits simp: algebra_simps)

lemma window_blit1:
  "k < len \<Longrightarrow> off + len \<le> length v \<Longrightarrow>
     take len (drop off (blit (off + k) [x] v)) = (take len (drop off v))[k := x]"
  by (rule nth_equalityI) (auto simp: nth_blit nth_list_update)

text \<open>A table whose bytes sum to zero, as ACPI asks.\<close>

definition sums_to_zero :: "nat \<Rightarrow> nat \<Rightarrow> bytes \<Rightarrow> bool" where
  "sums_to_zero off len v \<longleftrightarrow> (\<exists>t. peek off len v = Some t \<and> sum_list t = 0)"

lemma checksum_byte:
  assumes "off + len \<le> length v" "k < len" "v ! (off + k) = 0"
  shows "sums_to_zero off len (blit (off + k) [checksum (take len (drop off v))] v)"
proof -
  let ?t = "take len (drop off v)"
  have "?t ! k = 0" "k < length ?t" using assms by simp_all
  then have "sum_list (?t[k := checksum ?t]) = 0"
    by (simp add: sum_list_update_word checksum_eq)
  then show ?thesis
    using assms by (simp add: sums_to_zero_def peek_in_bounds window_blit1)
qed

lemma acpi_finish_spec:
  assumes "off + len \<le> length v" "9 < len"
  shows "\<exists>w. acpi_finish off len v = Some w \<and> same_outside (off + 9) (off + 10) v w \<and>
    sums_to_zero off len w"
proof -
  let ?v = "blit (off + 9) [0] v"
  let ?w = "blit (off + 9) [checksum (take len (drop off ?v))] ?v"
  have len: "length ?v = length v" using assms by simp
  have eq: "acpi_finish off len v = Some ?w"
    using assms len by (simp add: acpi_finish_def peek_in_bounds)
  moreover have "same_outside (off + 9) (off + 10) v ?w"
    using assms len by (intro same_outside_blit) simp_all
  moreover have "sums_to_zero off len ?w"
    using assms len by (intro checksum_byte) (simp_all add: nth_blit)
  ultimately show ?thesis by blast
qed

lemma acpi_header_spec:
  assumes "off + 36 \<le> length v" "length sig = 4"
  shows "\<exists>w. acpi_header off sig len rv v = Some w \<and> same_outside off (off + 36) v w \<and>
    peek off 4 w = Some sig \<and> get32 (off + 4) w = Some len"
proof -
  let ?w = "blit (off + 32) (le32 1) (blit (off + 28) CREATOR_ID (blit (off + 24) (le32 1)
    (blit (off + 16) OEM_TABLE_ID (blit (off + 10) OEM_ID (blit (off + 8) [rv]
    (blit (off + 4) (le32 len) (blit off sig v)))))))"
  have ids: "length OEM_ID = 6" "length OEM_TABLE_ID = 8" "length CREATOR_ID = 4"
    by (simp_all add: OEM_ID_def OEM_TABLE_ID_def CREATOR_ID_def)
  have "acpi_header off sig len rv v = Some ?w"
    using assms by (simp add: acpi_header_def ids)
  moreover have "same_outside off (off + 36) v ?w"
    using assms by (simp add: ids)
  moreover have "peek off 4 ?w = Some sig" "get32 (off + 4) ?w = Some len"
    using assms by (simp_all add: ids peek_blit_other peek_blit_same)
  ultimately show ?thesis by blast
qed

lemma sums_to_zero_same_outside:
  "same_outside lo hi v w \<Longrightarrow> off + len \<le> lo \<or> hi \<le> off \<Longrightarrow>
     sums_to_zero off len w = sums_to_zero off len v"
  using peek_same_outside by (fastforce simp: sums_to_zero_def)

section \<open>The tables\<close>

lemma write_rsdp_spec:
  "\<exists>w. write_rsdp (replicate 4096 0) = Some w \<and> length w = 4096 \<and>
     peek 0 8 w = Some [82, 83, 68, 32, 80, 84, 82, 32] \<and>
     sums_to_zero 0 20 w \<and> sums_to_zero 0 36 w \<and>
     get64 24 w = Some (ACPI_BASE + ACPI_XSDT)"
proof -
  define v where "v = blit 24 (le64 (ACPI_BASE + ACPI_XSDT)) (blit 20 (le32 36) (blit 15 [2]
    (blit 9 OEM_ID (blit 0 [82, 83, 68, 32, 80, 84, 82, 32] (replicate 4096 0)))))"
  define v1 where "v1 = blit 8 [checksum (take 20 v)] v"
  define w where "w = blit 32 [checksum (take 36 v1)] v1"
  have ids: "length OEM_ID = 6" by (simp add: OEM_ID_def)
  have lv: "length v = 4096" by (simp add: v_def ids)
  then have lv1: "length v1 = 4096" by (simp add: v1_def)
  then have lw: "length w = 4096" by (simp add: w_def)
  note offs = RSDP_OEM_ID_def RSDP_REVISION_def RSDP_LENGTH_def RSDP_XSDT_def RSDP_V1_LEN_def
    RSDP_CHECKSUM_def RSDP_EXT_CHECKSUM_def RSDP_LEN_def
  have eq: "write_rsdp (replicate 4096 0) = Some w"
    by (simp add: write_rsdp_def offs ids peek_in_bounds lv lv1
        flip: v_def v1_def w_def)
  have "v ! (0 + 8) = 0" "v1 ! (0 + 32) = 0"
    by (simp_all add: v1_def v_def nth_blit ids)
  with lv lv1 have s: "sums_to_zero 0 20 (blit (0 + 8) [checksum (take 20 (drop 0 v))] v)"
    "sums_to_zero 0 36 (blit (0 + 32) [checksum (take 36 (drop 0 v1))] v1)"
    by (intro checksum_byte; simp)+
  have "same_outside 32 33 v1 w" using lv1 unfolding w_def by (intro same_outside_blit) simp_all
  then have "sums_to_zero 0 20 w"
    using s(1) sums_to_zero_same_outside [of 32 33 v1 w 0 20] by (simp flip: v1_def)
  moreover have "get64 24 v = Some (ACPI_BASE + ACPI_XSDT)"
    by (simp add: v_def ids)
  then have "get64 24 w = Some (ACPI_BASE + ACPI_XSDT)"
    using lv lv1 by (simp add: w_def v1_def)
  moreover have "peek 0 8 w = Some [82, 83, 68, 32, 80, 84, 82, 32]"
    using lv lv1 by (simp add: w_def v1_def v_def ids peek_blit_other peek_blit_same)
  ultimately show ?thesis using eq s(2) lw by (auto simp flip: w_def)
qed

text \<open>
  One table after the RSDP: written inside its own window, with its signature, its length and
  a zero sum. \<open>mid\<close> is what the table writes between its header and its checksum.
\<close>

definition table_ok :: "nat \<Rightarrow> nat \<Rightarrow> bytes \<Rightarrow> bytes \<Rightarrow> bool" where
  "table_ok off len sig w \<longleftrightarrow>
     peek off 4 w = Some sig \<and> get32 (off + 4) w = Some (of_nat len) \<and> sums_to_zero off len w"

lemma table_ok_same_outside:
  assumes "same_outside lo hi v w" "off + len \<le> lo \<or> hi \<le> off" "8 \<le> len"
  shows "table_ok off len sig w = table_ok off len sig v"
  using assms sums_to_zero_same_outside [OF assms(1), of off len]
    peek_same_outside [OF assms(1), of off 4] get_same_outside(2) [OF assms(1), of "off + 4"]
  by (auto simp: table_ok_def)

lemma table_spec:
  assumes "off + len \<le> length v" "36 \<le> len" "length sig = 4"
    "\<And>u. length u = length v \<Longrightarrow>
       \<exists>w. mid u = Some w \<and> same_outside (off + 36) (off + len) u w \<and> P w"
    "\<And>u w. P u \<Longrightarrow> same_outside (off + 9) (off + 10) u w \<Longrightarrow> P w"
  shows "\<exists>w. do { u \<leftarrow> acpi_header off sig (of_nat len) rv v; u \<leftarrow> mid u; acpi_finish off len u } = Some w \<and>
    same_outside off (off + len) v w \<and> table_ok off len sig w \<and> P w"
proof -
  have "off + 36 \<le> length v" using assms(1,2) by simp
  from acpi_header_spec [OF this assms(3), of "of_nat len" rv] obtain a where
    a: "acpi_header off sig (of_nat len) rv v = Some a" "same_outside off (off + 36) v a"
      "peek off 4 a = Some sig" "get32 (off + 4) a = Some (of_nat len)" by blast
  have la: "length a = length v" using same_outside_length [OF a(2)] .
  from assms(4) [OF this] obtain b where
    b: "mid a = Some b" "same_outside (off + 36) (off + len) a b" "P b" by blast
  have lb: "length b = length v" using same_outside_length [OF b(2)] la by simp
  have "off + len \<le> length b" "9 < len" using lb assms(1,2) by simp_all
  from acpi_finish_spec [OF this] obtain c where
    c: "acpi_finish off len b = Some c" "same_outside (off + 9) (off + 10) b c"
      "sums_to_zero off len c" by blast
  have hdr: "peek off 4 c = Some sig" "get32 (off + 4) c = Some (of_nat len)"
    using a b(2) c(2)
    by (simp_all add: peek_same_outside get_same_outside(2))
  have "same_outside off (off + len) v b"
    by (rule same_outside_trans [OF a(2) b(2)]) (use assms(2) in simp_all)
  then have "same_outside off (off + len) v c"
    by (rule same_outside_trans [OF _ c(2)]) (use assms(2) in simp_all)
  then show ?thesis
    using a(1) b(1) c(1,3) hdr assms(5) [OF b(3) c(2)]
    by (intro exI [of _ c]) (simp add: table_ok_def)
qed

lemma write_xsdt_spec:
  assumes "length v = 4096"
  shows "\<exists>w. write_xsdt v = Some w \<and> same_outside 0x100 0x134 v w \<and>
    table_ok 0x100 52 [88, 83, 68, 84] w \<and>
    get64 0x124 w = Some (ACPI_BASE + ACPI_FADT) \<and> get64 0x12c w = Some (ACPI_BASE + ACPI_MADT)"
proof -
  let ?mid = "\<lambda>u. do { u \<leftarrow> put64 0x124 (ACPI_BASE + ACPI_FADT) u; put64 0x12c (ACPI_BASE + ACPI_MADT) u }"
  let ?P = "\<lambda>w. get64 0x124 w = Some (ACPI_BASE + ACPI_FADT) \<and>
    get64 0x12c w = Some (ACPI_BASE + ACPI_MADT)"
  have eq: "write_xsdt v = do { u \<leftarrow> acpi_header 0x100 [88, 83, 68, 84] (of_nat 52) 1 v;
      u \<leftarrow> ?mid u; acpi_finish 0x100 52 u }"
    by (simp add: write_xsdt_def ACPI_XSDT_def TABLE_HEADER_LEN_def XSDT_LEN_def)
  have "\<exists>w. do { u \<leftarrow> acpi_header 0x100 [88, 83, 68, 84] (of_nat 52) 1 v;
      u \<leftarrow> ?mid u; acpi_finish 0x100 52 u } = Some w \<and>
    same_outside 0x100 (0x100 + 52) v w \<and> table_ok 0x100 52 [88, 83, 68, 84] w \<and> ?P w"
    by (rule table_spec) (use assms in \<open>auto simp: get_same_outside(3)\<close>)
  then show ?thesis unfolding eq by simp
qed

lemma write_fadt_spec:
  assumes "length v = 4096"
  shows "\<exists>w. write_fadt v = Some w \<and> same_outside 0x200 0x314 v w \<and>
    table_ok 0x200 276 [70, 65, 67, 80] w \<and>
    get64 0x28c w = Some (ACPI_BASE + ACPI_DSDT) \<and>
    get32 0x270 w = Some (FADT_HW_REDUCED_ACPI OR FADT_WBINVD)"
proof -
  let ?mid = "\<lambda>u. do { u \<leftarrow> put32 0x228 (ucast (ACPI_BASE + ACPI_DSDT)) u;
    u \<leftarrow> put32 0x270 (FADT_HW_REDUCED_ACPI OR FADT_WBINVD) u; u \<leftarrow> put8 0x283 5 u;
    put64 0x28c (ACPI_BASE + ACPI_DSDT) u }"
  let ?P = "\<lambda>w. get64 0x28c w = Some (ACPI_BASE + ACPI_DSDT) \<and>
    get32 0x270 w = Some (FADT_HW_REDUCED_ACPI OR FADT_WBINVD)"
  have eq: "write_fadt v = do { u \<leftarrow> acpi_header 0x200 [70, 65, 67, 80] (of_nat 276) 6 v;
      u \<leftarrow> ?mid u; acpi_finish 0x200 276 u }"
    by (simp add: write_fadt_def ACPI_FADT_def FADT_LEN_def FADT_DSDT_def FADT_FLAGS_def
        FADT_MINOR_VERSION_def FADT_X_DSDT_def)
  have "\<exists>w. do { u \<leftarrow> acpi_header 0x200 [70, 65, 67, 80] (of_nat 276) 6 v;
      u \<leftarrow> ?mid u; acpi_finish 0x200 276 u } = Some w \<and>
    same_outside 0x200 (0x200 + 276) v w \<and> table_ok 0x200 276 [70, 65, 67, 80] w \<and> ?P w"
    by (rule table_spec) (use assms in \<open>auto simp: get_same_outside(2,3)\<close>)
  then show ?thesis unfolding eq by simp
qed

lemma write_dsdt_spec:
  assumes "length v = 4096"
  shows "\<exists>w. write_dsdt v = Some w \<and> same_outside 0x400 0x424 v w \<and>
    table_ok 0x400 36 [68, 83, 68, 84] w"
proof -
  have eq: "write_dsdt v = do { u \<leftarrow> acpi_header 0x400 [68, 83, 68, 84] (of_nat 36) 2 v;
      u \<leftarrow> Some u; acpi_finish 0x400 36 u }"
    by (simp add: write_dsdt_def ACPI_DSDT_def DSDT_LEN_def)
  have "\<exists>w. do { u \<leftarrow> acpi_header 0x400 [68, 83, 68, 84] (of_nat 36) 2 v;
      u \<leftarrow> Some u; acpi_finish 0x400 36 u } = Some w \<and>
    same_outside 0x400 (0x400 + 36) v w \<and> table_ok 0x400 36 [68, 83, 68, 84] w \<and> True"
    by (rule table_spec) (use assms in auto)
  then show ?thesis unfolding eq by simp
qed

text \<open>The MADT entries, one 8-byte Local APIC structure per processor.\<close>

definition lapic_entry :: "nat \<Rightarrow> bytes" where
  "lapic_entry cpu = [0, 8, of_nat cpu, of_nat cpu] @ le32 1"

lemma write_lapics_spec:
  assumes "at + 8 * n \<le> length v"
  shows "write_lapics cpu n at v =
    Some (at + 8 * n, blit at (concat (map lapic_entry [cpu..<cpu + n])) v)"
  using assms
proof (induction n arbitrary: cpu at v)
  case 0
  then show ?case by (simp add: blit_def)
next
  case (Suc n)
  then have len: "at + 8 + 8 * n \<le> length v" by simp
  let ?v = "blit at (lapic_entry cpu) v"
  have le: "length (concat (map lapic_entry [a..<a + m])) = 8 * m" for a m
    by (induction m) (simp_all add: lapic_entry_def)
  have "blit (at + 4) (le32 1) (blit (at + 3) [of_nat cpu] (blit (at + 2) [of_nat cpu]
      (blit (at + 1) [8] (blit at [0] v)))) = ?v"
    using len by (simp add: blit_blit_append lapic_entry_def)
  then have "write_lapics cpu (Suc n) at v = write_lapics (Suc cpu) n (at + 8) ?v"
    using len by (simp add: MADT_LOCAL_APIC_def MADT_LAPIC_LEN_def LAPIC_ENABLED_def)
  also have "\<dots> = Some (at + 8 + 8 * n,
      blit (at + 8) (concat (map lapic_entry [Suc cpu..<Suc cpu + n])) ?v)"
    using len by (intro Suc.IH) (simp add: lapic_entry_def)
  also have "\<dots> = Some (at + 8 * Suc n, blit at (concat (map lapic_entry [cpu..<cpu + Suc n])) v)"
  proof -
    have "[cpu..<cpu + Suc n] = cpu # [Suc cpu..<Suc cpu + n]"
      by (simp add: upt_conv_Cons)
    moreover have "blit (at + 8) (concat (map lapic_entry [Suc cpu..<Suc cpu + n])) ?v =
        blit at (lapic_entry cpu @ concat (map lapic_entry [Suc cpu..<Suc cpu + n])) v"
      using len le [of "Suc cpu" n] by (intro blit_blit_append) (simp_all add: lapic_entry_def)
    ultimately show ?thesis by simp
  qed
  finally show ?case .
qed

lemma length_lapics: "length (concat (map lapic_entry [0..<n])) = 8 * n"
  by (induction n) (simp_all add: lapic_entry_def)

lemma unat_madt_len:
  assumes "cpus \<le> MAX_VCPUS"
  shows "unat (madt_len cpus wakeup) = 44 + 8 * unat cpus + (if wakeup then 16 else 0)"
proof -
  have "unat cpus \<le> 344" using assms by (simp add: layout_consts word_le_nat_alt)
  then have "madt_len cpus wakeup = of_nat (44 + 8 * unat cpus + (if wakeup then 16 else 0))"
    by (simp add: madt_len_def MADT_HEADER_LEN_def MADT_LAPIC_LEN_def MADT_WAKEUP_LEN_def of_nat_unat)
  then show ?thesis
    using \<open>unat cpus \<le> 344\<close> by (simp only: unat_of_nat_u64) (subst unat_of_nat_u64; simp)
qed

definition madt_entries :: "nat \<Rightarrow> bool \<Rightarrow> bytes \<Rightarrow> bool" where
  "madt_entries n wakeup w \<longleftrightarrow>
     peek 0x52c (8 * n) w = Some (concat (map lapic_entry [0..<n])) \<and>
     (wakeup \<longrightarrow> read_at (0x52c + 8 * n) w = Some MADT_WAKEUP \<and>
        read_at (0x52c + 8 * n + 1) w = Some 16 \<and>
        get64 (0x52c + 8 * n + 8) w = Some MAILBOX)"

lemma write_madt_spec:
  assumes "length v = 4096" "cpus \<le> MAX_VCPUS"
  shows "\<exists>w. write_madt cpus wakeup v = Some w \<and> same_outside 0x500 0x1000 v w \<and>
    table_ok 0x500 (unat (madt_len cpus wakeup)) [65, 80, 73, 67] w \<and>
    madt_entries (unat cpus) wakeup w"
proof -
  define n where "n = unat cpus"
  define len where "len = unat (madt_len cpus wakeup)"
  have n: "n \<le> 344" using assms(2) by (simp add: n_def layout_consts word_le_nat_alt)
  have len: "len = 44 + 8 * n + (if wakeup then 16 else 0)"
    unfolding len_def n_def by (rule unat_madt_len [OF assms(2)])
  let ?wake = "\<lambda>at u. if wakeup then do { u \<leftarrow> put8 at MADT_WAKEUP u;
    u \<leftarrow> put8 (at + 1) (ucast MADT_WAKEUP_LEN) u; put64 (at + 8) MAILBOX u } else Some u"
  let ?mid = "\<lambda>u. do { u \<leftarrow> put32 0x524 LOCAL_APIC_ADDR u; u \<leftarrow> put32 0x528 MADT_PCAT_COMPAT u;
    (at, u) \<leftarrow> write_lapics 0 n 0x52c u; ?wake at u }"
  have eq: "write_madt cpus wakeup v = do { u \<leftarrow> acpi_header 0x500 [65, 80, 73, 67] (of_nat len) 6 v;
      u \<leftarrow> ?mid u; acpi_finish 0x500 len u }"
    unfolding write_madt_def Let_def len_def [symmetric] n_def [symmetric]
    by (cases wakeup) (simp_all add: ACPI_MADT_def MADT_LAPIC_ADDR_def MADT_FLAGS_def
        MADT_HEADER_LEN_def split_def bind_assoc)
  have mid: "\<exists>w. ?mid u = Some w \<and> same_outside (0x500 + 36) (0x500 + len) u w \<and>
      madt_entries n wakeup w" if u: "length u = length v" for u
  proof -
    let ?l = "concat (map lapic_entry [0..<n])"
    let ?u = "blit 0x528 (le32 MADT_PCAT_COMPAT) (blit 0x524 (le32 LOCAL_APIC_ADDR) u)"
    obtain a where a: "write_lapics 0 n 0x52c ?u = Some (0x52c + 8 * n, a)"
      "length a = 4096" "same_outside (0x500 + 36) (0x500 + len) u a" "peek 0x52c (8 * n) a = Some ?l"
    proof
      show "write_lapics 0 n 0x52c ?u = Some (0x52c + 8 * n, blit 0x52c ?l ?u)"
        using u assms(1) n by (subst write_lapics_spec) simp_all
      show "length (blit 0x52c ?l ?u) = 4096"
        using u assms(1) n by (simp add: length_lapics)
      show "same_outside (0x500 + 36) (0x500 + len) u (blit 0x52c ?l ?u)"
        using u assms(1) n len by (intro same_outside_blit) (simp_all add: length_lapics)
      show "peek 0x52c (8 * n) (blit 0x52c ?l ?u) = Some ?l"
        using u assms(1) n by (intro peek_blit_same) (simp_all add: length_lapics)
    qed
    let ?w = "blit (0x52c + 8 * n + 8) (le64 MAILBOX) (blit (0x52c + 8 * n + 1) [16]
      (blit (0x52c + 8 * n) [MADT_WAKEUP] a))"
    show ?thesis
    proof (cases wakeup)
      case True
      have "?mid u = Some ?w"
        using u assms(1) n a(1,2) True by (simp add: MADT_WAKEUP_LEN_def)
      moreover have "same_outside (0x500 + 36) (0x500 + len) u ?w"
        using a(2,3) n len True by (intro same_outside_blit) simp_all
      moreover have "madt_entries n wakeup ?w"
        using a(2,4) n True by (simp add: madt_entries_def peek_blit_other)
      ultimately show ?thesis by blast
    next
      case False
      then show ?thesis
        using u assms(1) n a by (simp add: madt_entries_def)
    qed
  qed
  have stable: "madt_entries n wakeup w"
    if "madt_entries n wakeup u" "same_outside (0x500 + 9) (0x500 + 10) u w" for u w
    using that by (simp add: madt_entries_def peek_same_outside get_same_outside(3,4))
  have "\<exists>w. do { u \<leftarrow> acpi_header 0x500 [65, 80, 73, 67] (of_nat len) 6 v;
      u \<leftarrow> ?mid u; acpi_finish 0x500 len u } = Some w \<and>
    same_outside 0x500 (0x500 + len) v w \<and> table_ok 0x500 len [65, 80, 73, 67] w \<and>
    madt_entries n wakeup w"
    by (rule table_spec) (use assms n len mid stable in auto)
  moreover have "same_outside 0x500 0x1000 v w" if "same_outside 0x500 (0x500 + len) v w" for w
    using that len n by (auto simp: same_outside_def)
  ultimately show ?thesis unfolding eq n_def len_def by blast
qed

section \<open>The whole page\<close>

text \<open>What a reader of the finished page finds.\<close>

definition acpi_page_ok :: "u32 \<Rightarrow> bool \<Rightarrow> bytes \<Rightarrow> bool" where
  "acpi_page_ok cpus wakeup w \<longleftrightarrow>
     length w = unat PAGE \<and> peek 0 8 w = Some [82, 83, 68, 32, 80, 84, 82, 32] \<and>
     sums_to_zero 0 RSDP_V1_LEN w \<and> sums_to_zero 0 (unat RSDP_LEN) w \<and>
     get64 RSDP_XSDT w = Some (ACPI_BASE + ACPI_XSDT) \<and>
     table_ok (unat ACPI_XSDT) (unat XSDT_LEN) [88, 83, 68, 84] w \<and>
     get64 (unat ACPI_XSDT + TABLE_HEADER_LEN) w = Some (ACPI_BASE + ACPI_FADT) \<and>
     get64 (unat ACPI_XSDT + TABLE_HEADER_LEN + 8) w = Some (ACPI_BASE + ACPI_MADT) \<and>
     table_ok (unat ACPI_FADT) (unat FADT_LEN) [70, 65, 67, 80] w \<and>
     get64 (unat ACPI_FADT + FADT_X_DSDT) w = Some (ACPI_BASE + ACPI_DSDT) \<and>
     table_ok (unat ACPI_DSDT) (unat DSDT_LEN) [68, 83, 68, 84] w \<and>
     table_ok (unat ACPI_MADT) (unat (madt_len cpus wakeup)) [65, 80, 73, 67] w \<and>
     madt_entries (unat cpus) wakeup w"

lemma acpi_build_ok:
  assumes "cpus \<le> MAX_VCPUS"
  shows "\<exists>w. acpi_build cpus wakeup = Some w \<and> acpi_page_ok cpus wakeup w"
proof -
  obtain a where a: "write_rsdp (replicate 4096 0) = Some a" "length a = 4096"
    and sig: "peek 0 8 a = Some [82, 83, 68, 32, 80, 84, 82, 32]" and a':
    "sums_to_zero 0 20 a" "sums_to_zero 0 36 a" "get64 24 a = Some (ACPI_BASE + ACPI_XSDT)"
    using write_rsdp_spec by blast
  obtain b where b: "write_xsdt a = Some b" "same_outside 0x100 0x134 a b"
    "table_ok 0x100 52 [88, 83, 68, 84] b"
    "get64 0x124 b = Some (ACPI_BASE + ACPI_FADT)" "get64 0x12c b = Some (ACPI_BASE + ACPI_MADT)"
    using write_xsdt_spec [OF a(2)] by blast
  have lb: "length b = 4096" using same_outside_length [OF b(2)] a(2) by simp
  obtain c where c: "write_fadt b = Some c" "same_outside 0x200 0x314 b c"
    "table_ok 0x200 276 [70, 65, 67, 80] c" "get64 0x28c c = Some (ACPI_BASE + ACPI_DSDT)"
    using write_fadt_spec [OF lb] by blast
  have lc: "length c = 4096" using same_outside_length [OF c(2)] lb by simp
  obtain d where d: "write_dsdt c = Some d" "same_outside 0x400 0x424 c d"
    "table_ok 0x400 36 [68, 83, 68, 84] d"
    using write_dsdt_spec [OF lc] by blast
  have ld: "length d = 4096" using same_outside_length [OF d(2)] lc by simp
  obtain e where e: "write_madt cpus wakeup d = Some e" "same_outside 0x500 0x1000 d e"
    "table_ok 0x500 (unat (madt_len cpus wakeup)) [65, 80, 73, 67] e"
    "madt_entries (unat cpus) wakeup e"
    using write_madt_spec [OF ld assms] by blast
  have le: "length e = 4096" using same_outside_length [OF e(2)] ld by simp
  have build: "acpi_build cpus wakeup = Some e"
    using a(1) b(1) c(1) d(1) e(1) by (simp add: acpi_build_def)
  have ce: "same_outside 0x400 0x1000 c e"
    by (rule same_outside_trans [OF d(2) e(2)]) simp_all
  have bd: "same_outside 0x200 0x1000 b e"
    by (rule same_outside_trans [OF c(2) ce]) simp_all
  have ae: "same_outside 0x100 0x1000 a e"
    by (rule same_outside_trans [OF b(2) bd]) simp_all
  have rsdp: "sums_to_zero 0 20 e" "sums_to_zero 0 36 e" "get64 24 e = Some (ACPI_BASE + ACPI_XSDT)"
    using a a' sums_to_zero_same_outside [OF ae] get_same_outside(3) [OF ae] by simp_all
  have sig_e: "peek 0 8 e = Some [82, 83, 68, 32, 80, 84, 82, 32]"
    using sig peek_same_outside [OF ae] by simp
  have xsdt: "table_ok 0x100 52 [88, 83, 68, 84] e"
    "get64 0x124 e = Some (ACPI_BASE + ACPI_FADT)" "get64 0x12c e = Some (ACPI_BASE + ACPI_MADT)"
    using b table_ok_same_outside [OF bd] get_same_outside(3) [OF bd] by simp_all
  have fadt: "table_ok 0x200 276 [70, 65, 67, 80] e" "get64 0x28c e = Some (ACPI_BASE + ACPI_DSDT)"
    using c table_ok_same_outside [OF ce] get_same_outside(3) [OF ce] by simp_all
  have dsdt: "table_ok 0x400 36 [68, 83, 68, 84] e"
    using d table_ok_same_outside [OF e(2)] by simp
  show ?thesis
    using build sig_e rsdp xsdt fadt dsdt e le
    by (simp add: acpi_page_ok_def RSDP_V1_LEN_def RSDP_LEN_def RSDP_XSDT_def ACPI_XSDT_def XSDT_LEN_def
        TABLE_HEADER_LEN_def ACPI_FADT_def FADT_LEN_def FADT_X_DSDT_def ACPI_DSDT_def DSDT_LEN_def
        ACPI_MADT_def)
qed

section \<open>Properties\<close>

text \<open>C27: for every processor count the parameters allow, the ACPI page is built, is exactly one page,
  and holds an RSDP with both checksums right that leads to an XSDT, an FADT and a MADT, each
  with its signature, its length and a zero byte sum, the MADT listing one enabled local APIC
  per processor and, when asked for, the wakeup mailbox.\<close>

theorem acpi_page_is_valid:
  assumes "cpus \<le> MAX_VCPUS"
  shows "\<exists>w. acpi_build cpus wakeup = Some w \<and> acpi_page_ok cpus wakeup w"
  using assms by (rule acpi_build_ok)

theorem acpi_page_is_valid_witness:
  "\<exists>w. acpi_build 344 True = Some w \<and> table_ok 0x500 2812 [65, 80, 73, 67] w"
proof -
  have m: "(344 :: u32) \<le> MAX_VCPUS" by (simp add: layout_consts)
  from acpi_page_is_valid [OF m, of True] show ?thesis
    by (auto simp: acpi_page_ok_def unat_madt_len [OF m] ACPI_MADT_def)
qed

text \<open>The processor and APIC ids Linux reads from the MADT.\<close>

definition lapic_ids :: "nat \<Rightarrow> bytes \<Rightarrow> u8 list" where
  "lapic_ids n w = map (\<lambda>i. w ! (0x52c + 8 * i + 3)) [0..<n]"

lemma lapics_nth:
  "i < n \<Longrightarrow> concat (map lapic_entry [0..<n]) ! (8 * i + 3) = of_nat i"
proof (induction n)
  case 0
  then show ?case by simp
next
  case (Suc n)
  show ?case
  proof (cases "i = n")
    case True
    moreover have "lapic_entry n ! 3 = of_nat n" by (simp add: lapic_entry_def)
    ultimately show ?thesis by (simp add: nth_append length_lapics)
  next
    case False
    with Suc show ?thesis by (simp add: nth_append length_lapics)
  qed
qed

lemma lapic_ids_eq:
  assumes "madt_entries n wakeup w"
  shows "lapic_ids n w = map of_nat [0..<n]"
proof -
  let ?l = "concat (map lapic_entry [0..<n])"
  from assms have len: "0x52c + 8 * n \<le> length w" and l: "take (8 * n) (drop 0x52c w) = ?l"
    by (auto simp: madt_entries_def peek_def split: if_splits)
  have "w ! (0x52c + 8 * i + 3) = of_nat i" if i: "i < n" for i
  proof -
    have "?l ! (8 * i + 3) = w ! (0x52c + (8 * i + 3))"
      using i len by (subst l [symmetric]) simp
    then show ?thesis using lapics_nth [OF i] by (simp add: add.assoc)
  qed
  then show ?thesis by (simp add: lapic_ids_def)
qed

text \<open>C37: the local APIC ids of the MADT are distinct exactly up to 256 processors: the ids are
  single bytes, so of the 344 processors the parameters allow, those past 256 repeat the ids
  of the first ones.\<close>

theorem lapic_ids_distinct_iff:
  assumes "cpus \<le> MAX_VCPUS" "acpi_build cpus wakeup = Some w"
  shows "distinct (lapic_ids (unat cpus) w) \<longleftrightarrow> cpus \<le> 256"
proof -
  have "acpi_page_ok cpus wakeup w" using acpi_build_ok [OF assms(1), of wakeup] assms(2) by simp
  then have ids: "lapic_ids (unat cpus) w = map of_nat [0..<unat cpus]"
    by (intro lapic_ids_eq) (auto simp: acpi_page_ok_def)
  have "distinct (map (of_nat :: nat \<Rightarrow> u8) [0..<n]) \<longleftrightarrow> n \<le> 256" for n
  proof
    assume d: "distinct (map (of_nat :: nat \<Rightarrow> u8) [0..<n])"
    show "n \<le> 256"
    proof (rule ccontr)
      assume "\<not> n \<le> 256"
      then have "map (of_nat :: nat \<Rightarrow> u8) [0..<n] ! 0 = map of_nat [0..<n] ! 256" by simp
      then show False using d \<open>\<not> n \<le> 256\<close> by (subst (asm) nth_eq_iff_index_eq) simp_all
    qed
  next
    assume n: "n \<le> 256"
    have "inj_on (of_nat :: nat \<Rightarrow> u8) {0..<n}"
    proof (rule inj_onI)
      fix x y assume xy: "x \<in> {0..<n}" "y \<in> {0..<n}" "(of_nat x :: u8) = of_nat y"
      have "unat (of_nat x :: u8) = x" "unat (of_nat y :: u8) = y"
        using n xy(1,2) by (simp_all add: unat_of_nat_u8)
      with xy(3) show "x = y" by metis
    qed
    then show "distinct (map (of_nat :: nat \<Rightarrow> u8) [0..<n])" by (simp add: distinct_map)
  qed
  then show ?thesis by (simp add: ids word_le_nat_alt)
qed

theorem lapic_ids_distinct_iff_witness:
  "\<exists>w. acpi_build 300 True = Some w \<and> \<not> distinct (lapic_ids 300 w)"
proof -
  have m: "(300 :: u32) \<le> MAX_VCPUS" by (simp add: layout_consts)
  then obtain w where w: "acpi_build 300 True = Some w" using acpi_build_ok by blast
  with lapic_ids_distinct_iff [OF m w] show ?thesis by simp
qed

end
