(* ===== verification/Page_Tables.thy ===== *)
theory Page_Tables
  imports Acpi
begin

text \<open>
  The four-level identity map of src/src/image.rs (\<open>identity_map\<close>) and, as its abstract
  specification, the page walk the processor performs on it with 1-GiB pages (\<open>walk\<close>). The
  lemmas show that every address below the map limit translates to itself, encrypted exactly
  when a C-bit is built in, and that the alias region reaches physical GiB 0 in the clear.
\<close>

section \<open>Building the tables\<close>

definition c_mask :: "u64 \<Rightarrow> u64" where
  "c_mask c_bit = (if c_bit = 0 then 0 else push_bit (unat c_bit mod 64) 1)"

fun write_pdpt :: "u64 \<Rightarrow> nat \<Rightarrow> nat \<Rightarrow> bytes \<Rightarrow> bytes option" where
  "write_pdpt c gib 0 v = Some v"
| "write_pdpt c gib (Suc left) v = do {
     v \<leftarrow> put64 (unat (PAGE + of_nat gib * 8)) ((of_nat gib * GIB) OR c OR 0x83) v;
     write_pdpt c (Suc gib) left v
   }"

definition identity_map :: "u64 \<Rightarrow> bool \<Rightarrow> bytes option" where
  "identity_map c_bit shared_alias = do {
     let c = c_mask c_bit;
     let table_pages = (if shared_alias then 3 else 2);
     let v = replicate (table_pages * unat PAGE) 0;
     v \<leftarrow> put64 0 ((PAGE_TABLES + PAGE) OR c OR 3) v;
     v \<leftarrow> write_pdpt c 0 (unat (MAP_LIMIT div GIB)) v;
     if shared_alias then do {
       v \<leftarrow> put64 8 ((PAGE_TABLES + 2 * PAGE) OR c OR 3) v;
       put64 (unat (2 * PAGE)) 0x83 v
     } else Some v
   }"

section \<open>The page walk\<close>

text \<open>
  The processor's view, with the tables at \<open>PAGE_TABLES\<close>: bits 39 to 47 of the address pick a
  PML4 entry, bits 30 to 38 an entry of the table it names. Bit 0 is present, bit 7 of the
  second entry makes it a 1-GiB page. The C-bit is not part of the physical address; set in
  the last entry, it makes the access encrypted. \<open>None\<close> is a page fault.
\<close>

definition walk :: "u64 \<Rightarrow> bytes \<Rightarrow> u64 \<Rightarrow> (u64 \<times> bool) option" where
  "walk c tables va = do {
     pml4e \<leftarrow> get64 (8 * unat (drop_bit 39 va AND 511)) tables;
     pdpte \<leftarrow> (if bit pml4e 0 then
                 get64 (unat ((pml4e AND 0x000ffffffffff000 AND NOT c) - PAGE_TABLES)
                        + 8 * unat (drop_bit 30 va AND 511)) tables
               else None);
     if bit pdpte 0 \<and> bit pdpte 7
     then Some ((pdpte AND 0x000fffffc0000000 AND NOT c) OR (va AND 0x3fffffff),
                pdpte AND c \<noteq> 0)
     else None
   }"

section \<open>The tables as a list of entries\<close>

interpretation word_table: fixed_codec le64 "le_word :: bytes \<Rightarrow> u64" 8 "\<lambda>_. True"
  by unfold_locales auto

definition pdpt_entry :: "u64 \<Rightarrow> nat \<Rightarrow> u64" where
  "pdpt_entry c gib = (of_nat gib * GIB) OR c OR 0x83"

lemma write_pdpt_spec:
  "4096 + 8 * (gib + n) \<le> length v \<Longrightarrow> gib + n \<le> 512 \<Longrightarrow>
     write_pdpt c gib n v =
       Some (blit (4096 + 8 * gib) (concat (map (\<lambda>g. le64 (pdpt_entry c g)) [gib..<gib + n])) v)"
proof (induction n arbitrary: gib v)
  case 0
  then show ?case by (simp add: blit_def)
next
  case (Suc n)
  let ?v = "blit (4096 + 8 * gib) (le64 (pdpt_entry c gib)) v"
  have "unat (PAGE + of_nat gib * 8) = 4096 + 8 * gib"
  proof -
    have "PAGE + of_nat gib * 8 = of_nat (4096 + 8 * gib)" by (simp add: PAGE_def)
    moreover have "unat (of_nat (4096 + 8 * gib) :: u64) = 4096 + 8 * gib"
      using Suc.prems by (intro unat_of_nat_u64) simp
    ultimately show ?thesis by (simp only:)
  qed
  then have "write_pdpt c gib (Suc n) v = write_pdpt c (Suc gib) n ?v"
    using Suc.prems by (simp add: pdpt_entry_def)
  also have "\<dots> = Some (blit (4096 + 8 * Suc gib)
      (concat (map (\<lambda>g. le64 (pdpt_entry c g)) [Suc gib..<Suc gib + n])) ?v)"
    using Suc.prems by (intro Suc.IH) simp_all
  also have "\<dots> = Some (blit (4096 + 8 * gib)
      (concat (map (\<lambda>g. le64 (pdpt_entry c g)) [gib..<gib + Suc n])) v)"
  proof -
    have l: "length (concat (map (\<lambda>g. le64 (pdpt_entry c g)) [a..<b])) = 8 * (b - a)" for a b
      using word_table.length_concat_enc [of "map (pdpt_entry c) [a..<b]"] by (simp add: o_def)
    have "[gib..<gib + Suc n] = gib # [Suc gib..<Suc gib + n]"
      by (simp add: upt_conv_Cons)
    moreover have "blit (4096 + 8 * Suc gib)
        (concat (map (\<lambda>g. le64 (pdpt_entry c g)) [Suc gib..<Suc gib + n])) ?v =
        blit (4096 + 8 * gib) (le64 (pdpt_entry c gib) @
          concat (map (\<lambda>g. le64 (pdpt_entry c g)) [Suc gib..<Suc gib + n])) v"
      using Suc.prems l [of "Suc gib" "Suc gib + n"] by (intro blit_blit_append) (auto simp del: upt_Suc)
    ultimately show ?thesis by simp
  qed
  finally show ?case .
qed

lemma get64_table:
  assumes "i < length ws" "at + 8 * length ws \<le> length v"
  shows "get64 (at + 8 * i) (blit at (concat (map le64 ws)) v) = Some (ws ! i)"
proof -
  have l: "length (concat (map le64 ws)) = 8 * length ws"
    by (rule word_table.length_concat_enc) simp
  have "peek (at + 8 * i) 8 (blit at (concat (map le64 ws)) v) =
      peek (i * 8) 8 (concat (map le64 ws) @ drop (at + 8 * length ws) v)"
    using assms l by (simp add: peek_def blit_def drop_take mult.commute)
  then show ?thesis
    using word_table.decode_record_at [of ws i "drop (at + 8 * length ws) v"] assms
    by (simp add: get64_def)
qed

lemma identity_map_entries:
  "\<exists>v. identity_map c_bit shared = Some v \<and> length v = (if shared then 12288 else 8192) \<and>
     get64 0 v = Some ((PAGE_TABLES + PAGE) OR c_mask c_bit OR 3) \<and>
     (\<forall>g<512. get64 (4096 + 8 * g) v = Some (pdpt_entry (c_mask c_bit) g)) \<and>
     (shared \<longrightarrow> get64 8 v = Some ((PAGE_TABLES + 2 * PAGE) OR c_mask c_bit OR 3) \<and>
        get64 8192 v = Some 0x83 \<and> (\<forall>j<512. j \<noteq> 0 \<longrightarrow> get64 (8192 + 8 * j) v = Some 0)) \<and>
     (\<forall>i<512. i \<noteq> 0 \<longrightarrow> (shared \<longrightarrow> i \<noteq> 1) \<longrightarrow> get64 (8 * i) v = Some 0)"
proof -
  let ?c = "c_mask c_bit"
  define len :: nat where "len = (if shared then 12288 else 8192)"
  let ?es = "map (pdpt_entry ?c) [0..<512]"
  let ?v0 = "blit 0 (le64 ((PAGE_TABLES + PAGE) OR ?c OR 3)) (replicate len 0)"
  define v where "v = blit 4096 (concat (map le64 ?es)) ?v0"
  define w where "w = blit 8192 (le64 0x83) (blit 8 (le64 ((PAGE_TABLES + 2 * PAGE) OR ?c OR 3)) v)"
  have lt: "length (concat (map le64 ?es)) = 4096"
    by (subst word_table.length_concat_enc) simp_all
  have len: "8192 \<le> len" "shared \<Longrightarrow> len = 12288" by (simp_all add: len_def)
  have lv0: "length ?v0 = len" using len by simp
  have lv: "length v = len" unfolding v_def by (rule length_blit [OF lv0]) (use len lt in simp)
  have p: "write_pdpt ?c 0 512 ?v0 = Some v"
    using len lv0 by (subst write_pdpt_spec) (simp_all add: v_def o_def)
  have es: "get64 (4096 + 8 * g) v = Some (pdpt_entry ?c g)" if "g < 512" for g
    unfolding v_def using get64_table [of g ?es 4096 ?v0] that len lv0 by simp
  have e0: "get64 0 v = Some ((PAGE_TABLES + PAGE) OR ?c OR 3)"
    unfolding v_def using len lt lv0 by (subst get_blit_other(2)) simp_all
  have zs: "get64 at (replicate n 0) = Some 0" if "at + 8 \<le> n" for at n
  proof -
    have "le_word (replicate m 0) = (0 :: u64)" for m by (induction m) auto
    then show ?thesis using that by (simp add: get64_def peek_def min_def)
  qed
  have zv: "get64 (8 * i) v = Some 0" if "i < 512" "i \<noteq> 0" for i
    unfolding v_def using that len lt lv0 by (subst get_blit_other(2); simp add: zs)
  have za: "get64 (8192 + 8 * j) v = Some 0" if "j < 512" shared for j
    unfolding v_def using that len lt lv0 by (subst get_blit_other(2); simp add: zs)
  show ?thesis
  proof (cases shared)
    case True
    have im: "identity_map c_bit shared = Some w"
      using True len lv p
      by (simp add: identity_map_def len_def w_def MAP_LIMIT_def GIB_def)
        (simp add: PAGE_def)
    have "get64 (4096 + 8 * g) w = Some (pdpt_entry ?c g)" if "g < 512" for g
      using es [OF that] that lv len True by (simp add: w_def)
    moreover have "get64 0 w = Some ((PAGE_TABLES + PAGE) OR ?c OR 3)"
      using e0 lv len True by (simp add: w_def)
    moreover have "get64 8 w = Some ((PAGE_TABLES + 2 * PAGE) OR ?c OR 3)" "get64 8192 w = Some 0x83"
      "length w = 12288"
      using lv len True by (simp_all add: w_def)
    moreover have "get64 (8 * i) w = Some 0" if "i < 512" "i \<noteq> 0" "i \<noteq> 1" for i
      using zv [OF that(1,2)] that lv len True by (simp add: w_def)
    moreover have "get64 (8192 + 8 * j) w = Some 0" if "j < 512" "j \<noteq> 0" for j
      using za [OF that(1) True] that lv len True by (simp add: w_def)
    ultimately show ?thesis using im True by auto
  next
    case False
    have "identity_map c_bit shared = Some v"
      using False p by (simp add: identity_map_def len_def MAP_LIMIT_def GIB_def)
    then show ?thesis using es e0 zv lv False by (auto simp: len_def)
  qed
qed

section \<open>Every mapped address translates to itself\<close>

text \<open>The C-bits that are bits of a page-table entry's address field above the mapped range.\<close>

definition cbit_in_address_field :: "u64 \<Rightarrow> bool" where
  "cbit_in_address_field c_bit \<longleftrightarrow> c_bit = 0 \<or> 39 \<le> c_bit \<and> c_bit \<le> 51"

lemma c_mask_bits:
  assumes "cbit_in_address_field c_bit" "bit (c_mask c_bit) i"
  shows "39 \<le> i \<and> i \<le> 51"
proof -
  have "c_bit \<noteq> 0 \<and> i = unat c_bit mod 64"
    using assms(2) by (auto simp: c_mask_def bit_simps split: if_splits)
  moreover from this have "39 \<le> unat c_bit" "unat c_bit \<le> 51"
    using assms(1) by (auto simp: cbit_in_address_field_def word_le_nat_alt)
  ultimately show ?thesis by simp
qed

lemma address_masks:
  "(0x000ffffffffff000 :: u64) = push_bit 12 (mask 40)"
  "(0x000fffffc0000000 :: u64) = push_bit 30 (mask 22)"
  "(0x3fffffff :: u64) = mask 30"
  "(511 :: u64) = mask 9"
  by (simp_all add: mask_eq_exp_minus_1)

lemma small_constant_bits:
  "bit (3 :: u64) i \<longleftrightarrow> i = 0 \<or> i = 1"
  "bit (0x83 :: u64) i \<longleftrightarrow> i = 0 \<or> i = 1 \<or> i = 7"
  "bit (0x101000 :: u64) i \<longleftrightarrow> i = 12 \<or> i = 20"
  "bit (0x102000 :: u64) i \<longleftrightarrow> i = 13 \<or> i = 20"
proof -
  have e: "(3 :: u64) = push_bit 0 1 OR push_bit 1 1"
    "(0x83 :: u64) = push_bit 0 1 OR push_bit 1 1 OR push_bit 7 1"
    "(0x101000 :: u64) = push_bit 12 1 OR push_bit 20 1"
    "(0x102000 :: u64) = push_bit 13 1 OR push_bit 20 1"
    by simp_all
  show "bit (3 :: u64) i \<longleftrightarrow> i = 0 \<or> i = 1"
    unfolding e(1) bit_or_iff bit_push_bit_iff bit_1_iff by auto
  show "bit (0x83 :: u64) i \<longleftrightarrow> i = 0 \<or> i = 1 \<or> i = 7"
    unfolding e(2) bit_or_iff bit_push_bit_iff bit_1_iff by auto
  show "bit (0x101000 :: u64) i \<longleftrightarrow> i = 12 \<or> i = 20"
    unfolding e(3) bit_or_iff bit_push_bit_iff bit_1_iff by auto
  show "bit (0x102000 :: u64) i \<longleftrightarrow> i = 13 \<or> i = 20"
    unfolding e(4) bit_or_iff bit_push_bit_iff bit_1_iff by auto
qed

lemma masked_entry:
  assumes "\<And>i. bit a i \<Longrightarrow> bit m i \<and> \<not> bit c i" "\<And>i. bit f i \<Longrightarrow> \<not> bit m i"
  shows "(a OR c OR f) AND m AND NOT c = (a :: u64)"
  by (rule bit_word_eqI) (use assms in \<open>auto simp: bit_or_iff bit_and_iff bit_not_iff\<close>)

lemma split_gib: "push_bit 30 (drop_bit 30 va) OR (va AND mask 30) = (va :: u64)"
  by (rule bit_word_eqI)
    (auto simp: bit_or_iff bit_and_iff bit_push_bit_iff bit_drop_bit_eq bit_mask_iff
      dest: bit_imp_le_length)

lemma gib_entry:
  assumes "unat va div 2 ^ 30 = g"
  shows "(of_nat g * GIB :: u64) = push_bit 30 (drop_bit 30 va)"
proof -
  have "unat (drop_bit 30 va) = g"
    using assms by (simp add: unat_drop_bit_eq drop_bit_eq_div unat_div)
  then have "(of_nat g :: u64) = drop_bit 30 va"
    by (metis of_nat_unat ucast_id)
  then show ?thesis by (simp add: GIB_def push_bit_eq_mult mult.commute)
qed

lemma drop_below_map_limit:
  assumes "(va :: u64) < 0x8000000000"
  shows "drop_bit 39 va = 0"
proof -
  have "unat (drop_bit 39 va) = 0"
    using assms by (simp add: unat_drop_bit_eq drop_bit_eq_div word_less_nat_alt unat_div)
  then show ?thesis by (simp only: unat_eq_zero)
qed

lemma bits_below_map_limit:
  assumes "(va :: u64) < 0x8000000000" "bit va i"
  shows "i < 39"
proof (rule ccontr)
  assume "\<not> i < 39"
  then have "bit (drop_bit 39 va) (i - 39)"
    using assms(2) by (simp add: bit_drop_bit_eq)
  then show False by (simp add: drop_below_map_limit [OF assms(1)])
qed

lemma walk_identity:
  assumes "identity_map c_bit shared = Some v" "cbit_in_address_field c_bit" "va < MAP_LIMIT"
  shows "walk (c_mask c_bit) v va = Some (va, c_bit \<noteq> 0)"
proof -
  let ?c = "c_mask c_bit"
  define g where "g = unat va div 2 ^ 30"
  have va: "va < 0x8000000000" using assms(3) by (simp add: MAP_LIMIT_def GIB_def)
  have g: "g < 512" using va by (simp add: g_def word_less_nat_alt less_mult_imp_div_less)
  obtain w where "identity_map c_bit shared = Some w"
    and e0: "get64 0 w = Some ((PAGE_TABLES + PAGE) OR ?c OR 3)"
    and eg: "\<forall>g<512. get64 (4096 + 8 * g) w = Some (pdpt_entry ?c g)"
    using identity_map_entries [of c_bit shared] by blast
  with assms(1) have e0: "get64 0 v = Some (0x101000 OR ?c OR 3)"
    and eg: "get64 (4096 + 8 * g) v = Some (pdpt_entry ?c g)"
    using g by (simp_all add: PAGE_TABLES_def PAGE_def)
  have cb: "39 \<le> i \<and> i \<le> 51" if "bit ?c i" for i
    using c_mask_bits [OF assms(2) that] .
  have i1: "drop_bit 39 va AND 511 = 0" by (simp add: drop_below_map_limit [OF va])
  have "drop_bit 30 va AND 511 = drop_bit 30 va"
    unfolding address_masks
    by (rule bit_word_eqI) (auto simp: bit_and_iff bit_mask_iff bit_drop_bit_eq
        dest: bits_below_map_limit [OF va])
  then have i2: "unat (drop_bit 30 va AND 511) = g"
    by (simp add: unat_drop_bit_eq drop_bit_eq_div g_def unat_div)
  have a1: "(0x101000 OR ?c OR 3) AND 0x000ffffffffff000 AND NOT ?c = 0x101000"
    unfolding address_masks
    by (rule masked_entry; simp only: small_constant_bits bit_push_bit_iff bit_mask_iff)
      (auto dest: cb)
  have gb: "pdpt_entry ?c g = push_bit 30 (drop_bit 30 va) OR ?c OR 0x83"
    by (simp add: pdpt_entry_def gib_entry [OF g_def [symmetric]])
  have a2: "pdpt_entry ?c g AND 0x000fffffc0000000 AND NOT ?c = push_bit 30 (drop_bit 30 va)"
    unfolding gb address_masks
    by (rule masked_entry; simp only: small_constant_bits bit_push_bit_iff bit_drop_bit_eq
        bit_mask_iff) (use cb bits_below_map_limit [OF va] in fastforce)+
  have present: "bit (0x101000 OR ?c OR 3) 0" "bit (pdpt_entry ?c g) 0" "bit (pdpt_entry ?c g) 7"
    by (simp_all add: gb bit_or_iff small_constant_bits)
  have enc: "pdpt_entry ?c g AND ?c \<noteq> 0 \<longleftrightarrow> c_bit \<noteq> 0"
  proof (cases "c_bit = 0")
    case True
    then show ?thesis by (simp add: c_mask_def)
  next
    case False
    then have "bit ?c (unat c_bit mod 64)" by (simp add: c_mask_def bit_simps)
    then have "bit (pdpt_entry ?c g AND ?c) (unat c_bit mod 64)"
      by (simp add: gb bit_or_iff bit_and_iff)
    then have "pdpt_entry ?c g AND ?c \<noteq> 0" by (intro notI) simp
    with False show ?thesis by simp
  qed
  have "walk ?c v va = Some (push_bit 30 (drop_bit 30 va) OR (va AND 0x3fffffff), c_bit \<noteq> 0)"
    using e0 eg present a1 a2 enc i1 i2
    by (simp add: walk_def PAGE_TABLES_def)
  then show ?thesis by (simp only: split_gib address_masks)
qed

text \<open>The alias at \<open>SHARED_ALIAS\<close> reaches physical GiB 0 without the C-bit.\<close>

lemma walk_shared_alias:
  assumes "identity_map c_bit True = Some v" "cbit_in_address_field c_bit" "x < GIB"
  shows "walk (c_mask c_bit) v (SHARED_ALIAS + x) = Some (x, False)"
proof -
  let ?c = "c_mask c_bit" and ?va = "SHARED_ALIAS + x"
  obtain w where "identity_map c_bit True = Some w"
    and e1: "get64 8 w = Some ((PAGE_TABLES + 2 * PAGE) OR ?c OR 3)" "get64 8192 w = Some 0x83"
    using identity_map_entries [of c_bit True] by auto
  with assms(1) have e1: "get64 8 v = Some (0x102000 OR ?c OR 3)" "get64 8192 v = Some 0x83"
    by (simp_all add: PAGE_TABLES_def PAGE_def)
  have cb: "39 \<le> i \<and> i \<le> 51" if "bit ?c i" for i
    using c_mask_bits [OF assms(2) that] .
  have x: "unat x < 2 ^ 30" using assms(3) by (simp add: GIB_def word_less_nat_alt)
  have va: "unat ?va = 2 ^ 39 + unat x"
    using x by (subst unat_add_noov) (simp_all add: SHARED_ALIAS_def)
  have "unat (drop_bit 39 ?va) = 1"
    using va x by (simp add: unat_drop_bit_eq drop_bit_eq_div unat_div)
  then have "drop_bit 39 ?va = 1" by (metis unat_1 word_unat_eq_iff)
  then have i1: "unat (drop_bit 39 ?va AND 511) = 1" by (simp only: and_one_eq and.commute) simp
  have "unat (drop_bit 30 ?va) = unat (512 :: u64)"
    using va x by (simp add: unat_drop_bit_eq drop_bit_eq_div unat_div)
  then have "drop_bit 30 ?va = 512" by (simp only: word_unat_eq_iff)
  then have i2: "drop_bit 30 ?va AND 511 = 0" by (simp only:) simp
  have a1: "(0x102000 OR ?c OR 3) AND 0x000ffffffffff000 AND NOT ?c = 0x102000"
    unfolding address_masks
    by (rule masked_entry; simp only: small_constant_bits bit_push_bit_iff bit_mask_iff)
      (auto dest: cb)
  have a2: "(0x83 :: u64) AND 0x000fffffc0000000 AND NOT ?c = 0" by (simp add: and.assoc [symmetric])
  have low: "?va AND 0x3fffffff = x"
  proof -
    have "unat (?va AND mask 30) = unat x"
      using va x mod_mult_self3 [of 512 1073741824 "unat x"]
      by (simp add: take_bit_eq_mask [symmetric] take_bit_eq_mod unat_mod)
    then show ?thesis by (simp only: word_unat_eq_iff address_masks)
  qed
  have clear: "(0x83 :: u64) AND ?c = 0"
    by (rule bit_word_eqI; simp only: bit_and_iff small_constant_bits bit_0) (use cb in fastforce)
  have present: "bit (0x102000 OR ?c OR 3) 0" "bit (0x83 :: u64) 0" "bit (0x83 :: u64) 7"
    by (simp_all add: bit_or_iff small_constant_bits)
  show ?thesis
    using e1 present a1 a2 low clear i1 i2
    by (simp add: walk_def PAGE_TABLES_def)
qed

text \<open>Everything else faults: no other entry of any of the tables is present.\<close>

lemma walk_beyond:
  assumes "identity_map c_bit shared = Some v" "cbit_in_address_field c_bit" "unat va < 2 ^ 48"
    "MAP_LIMIT \<le> va" "\<not> (shared \<and> va < SHARED_ALIAS + GIB)"
  shows "walk (c_mask c_bit) v va = None"
proof -
  let ?c = "c_mask c_bit"
  obtain w where "identity_map c_bit shared = Some w"
    and w: "shared \<Longrightarrow> get64 8 w = Some ((PAGE_TABLES + 2 * PAGE) OR ?c OR 3)"
      "\<And>j. shared \<Longrightarrow> j < 512 \<Longrightarrow> j \<noteq> 0 \<Longrightarrow> get64 (8192 + 8 * j) w = Some 0"
      "\<And>i. i < 512 \<Longrightarrow> i \<noteq> 0 \<Longrightarrow> (shared \<Longrightarrow> i \<noteq> 1) \<Longrightarrow> get64 (8 * i) w = Some 0"
    using identity_map_entries [of c_bit shared] by blast
  with assms(1) have [simp]: "w = v" by simp
  define i where "i = unat (drop_bit 39 va AND 511)"
  define j where "j = unat (drop_bit 30 va AND 511)"
  have i: "i = unat va div 2 ^ 39"
  proof -
    have "i = unat va div 2 ^ 39 mod 512"
      by (simp add: i_def address_masks(4) flip: take_bit_eq_mask)
        (simp add: take_bit_eq_mod unat_mod unat_drop_bit_eq drop_bit_eq_div unat_div)
    also have "\<dots> = unat va div 2 ^ 39" using assms(3) by (intro mod_less) (simp add: div_less_iff_less_mult)
    finally show ?thesis .
  qed
  have j: "j = unat va div 2 ^ 30 mod 512"
    by (simp add: j_def address_masks(4) flip: take_bit_eq_mask)
      (simp add: take_bit_eq_mod unat_mod unat_drop_bit_eq drop_bit_eq_div unat_div)
  have i0: "i \<noteq> 0" "i < 512"
    using assms(3,4) by (simp_all add: i MAP_LIMIT_def GIB_def word_le_nat_alt div_less_iff_less_mult
        div_eq_0_iff)
  show ?thesis
  proof (cases "shared \<and> i = 1")
    case False
    then have "get64 (8 * i) v = Some 0" using w(3) [OF i0(2,1)] by auto
    then show ?thesis by (simp add: walk_def i_def [symmetric])
  next
    case True
    have cb: "39 \<le> i \<and> i \<le> 51" if "bit ?c i" for i
      using c_mask_bits [OF assms(2) that] .
    have "(0x102000 OR ?c OR 3) AND 0x000ffffffffff000 AND NOT ?c = 0x102000"
      unfolding address_masks
      by (rule masked_entry; simp only: small_constant_bits bit_push_bit_iff bit_mask_iff)
        (auto dest: cb)
    moreover have "j \<noteq> 0"
    proof
      assume "j = 0"
      then have "unat va div 2 ^ 30 = 512 * (unat va div 2 ^ 30 div 512)"
        using j by (metis mod_0_imp_dvd dvd_mult_div_cancel)
      also have "unat va div 2 ^ 30 div 512 = 1"
        using True i by (simp flip: div_mult2_eq)
      finally have "unat va div 2 ^ 30 < 513" by simp
      then have "unat va < 513 * 2 ^ 30" by (simp add: div_less_iff_less_mult)
      moreover have "unat (SHARED_ALIAS + GIB) = 513 * 2 ^ 30" by (simp add: layout_consts)
      ultimately show False using assms(5) True by (simp add: word_less_nat_alt)
    qed
    moreover have "j < 512" by (simp add: j)
    ultimately show ?thesis
      using w(1,2) True
      by (simp add: walk_def PAGE_TABLES_def PAGE_def i_def [symmetric] j_def [symmetric])
  qed
qed

text \<open>What the tables are for: a translation as a function of the address.\<close>

definition intended_map :: "bool \<Rightarrow> bool \<Rightarrow> u64 \<Rightarrow> (u64 \<times> bool) option" where
  "intended_map encrypted shared va =
     (if va < MAP_LIMIT then Some (va, encrypted)
      else if shared \<and> va < SHARED_ALIAS + GIB then Some (va - SHARED_ALIAS, False)
      else None)"

section \<open>Properties\<close>

text \<open>C29: for a build with no C-bit, or with one at position 39 to 51, where the hardware has it (the
  builder also accepts 32 to 38 and 52 to 63, with which the entries are not read as meant), the
  page walk of the tables the builder writes is the intended map at every address the
  processor can form in the lower half: each address below the limit is itself, encrypted exactly
  when the image is built with a C-bit; the alias, where there is one, reaches the first gibibyte
  in the clear; and every other access faults.\<close>

theorem page_walk_is_the_intended_map:
  assumes "cbit_in_address_field c_bit" "unat va < 2 ^ 48"
  shows "\<exists>v. identity_map c_bit shared = Some v \<and>
    walk (c_mask c_bit) v va = intended_map (c_bit \<noteq> 0) shared va"
proof -
  obtain v where v: "identity_map c_bit shared = Some v"
    using identity_map_entries [of c_bit shared] by blast
  have eq: "MAP_LIMIT = SHARED_ALIAS" by (simp add: layout_consts)
  consider "va < MAP_LIMIT" | "SHARED_ALIAS \<le> va" "shared" "va < SHARED_ALIAS + GIB"
    | "MAP_LIMIT \<le> va" "\<not> (shared \<and> va < SHARED_ALIAS + GIB)"
    unfolding eq by force
  then show ?thesis
  proof cases
    case 1
    then show ?thesis using v walk_identity [OF v assms(1)] by (simp add: intended_map_def)
  next
    case 2
    then have "unat (va - SHARED_ALIAS) = unat va - unat SHARED_ALIAS" by (intro unat_sub)
    then have "va - SHARED_ALIAS < GIB"
      using 2 by (simp add: word_less_nat_alt word_le_nat_alt layout_consts)
    from walk_shared_alias [OF v [unfolded 2(2)[THEN eqTrueI]] assms(1) this] 2
    show ?thesis using v by (simp add: intended_map_def eq leD)
  next
    case 3
    then show ?thesis
      using v walk_beyond [OF v assms] by (simp add: intended_map_def leD)
  qed
qed

theorem page_walk_is_the_intended_map_witness:
  "\<exists>v. identity_map 51 True = Some v \<and> walk (c_mask 51) v 0x803ffff123 = Some (0x3ffff123, False) \<and>
     walk (c_mask 51) v 0x8040000000 = None"
proof -
  have c: "cbit_in_address_field 51" by (simp add: cbit_in_address_field_def)
  have a: "unat (0x803ffff123 :: u64) < 2 ^ 48" "unat (0x8040000000 :: u64) < 2 ^ 48" by simp_all
  have "intended_map True True 0x803ffff123 = Some (0x3ffff123, False)"
    "intended_map True True 0x8040000000 = None"
    by (simp_all add: intended_map_def layout_consts)
  with page_walk_is_the_intended_map [OF c a(1), of True]
    page_walk_is_the_intended_map [OF c a(2), of True]
  show ?thesis by auto
qed

text \<open>In particular every address the shims touch translates to itself.\<close>

theorem identity_map_translates_to_itself:
  assumes "cbit_in_address_field c_bit" "va < MAP_LIMIT"
  shows "\<exists>v. identity_map c_bit shared = Some v \<and>
    walk (c_mask c_bit) v va = Some (va, c_bit \<noteq> 0)"
proof -
  obtain v where "identity_map c_bit shared = Some v"
    using identity_map_entries [of c_bit shared] by blast
  with walk_identity [OF this assms] show ?thesis by blast
qed

theorem identity_map_translates_to_itself_witness:
  "\<exists>v. identity_map 51 True = Some v \<and> walk (c_mask 51) v 0x7fffffffff = Some (0x7fffffffff, True)"
  using identity_map_translates_to_itself [of 51 "0x7fffffffff" True]
  by (simp add: cbit_in_address_field_def layout_consts)

text \<open>The alias the SNP shim writes its shared page through reaches the first gibibyte of physical
  memory in the clear, whatever C-bit the rest of the map is built with.\<close>

theorem shared_alias_reaches_gib_zero:
  assumes "cbit_in_address_field c_bit" "x < GIB"
  shows "\<exists>v. identity_map c_bit True = Some v \<and>
    walk (c_mask c_bit) v (SHARED_ALIAS + x) = Some (x, False)"
proof -
  obtain v where "identity_map c_bit True = Some v"
    using identity_map_entries [of c_bit True] by blast
  with walk_shared_alias [OF this assms] show ?thesis by blast
qed

theorem shared_alias_reaches_gib_zero_witness:
  "\<exists>v. identity_map 51 True = Some v \<and>
     walk (c_mask 51) v (SHARED_ALIAS + SNP_GHCB) = Some (SNP_GHCB, False)"
  using shared_alias_reaches_gib_zero [of 51 SNP_GHCB]
  by (simp add: cbit_in_address_field_def layout_consts)

end
