(* ===== verification/Mrtd.thy ===== *)
theory Mrtd
  imports Page_Tables
begin

text \<open>
  src/src/mrtd.rs: the TDX launch measurement. \<open>mrtd_stream\<close> is the byte string the hash is
  fed, one TDH.MEM.PAGE.ADD record per page and one TDH.MR.EXTEND record per 256-byte chunk;
  SHA-384 (crate sha2) is the parameter \<open>sha384\<close>. The records of a page are a fixed-width
  format, so the stream determines the pages: equal measurements of different page lists are
  a collision of the hash on the two streams.
\<close>

section \<open>Records\<close>

definition MR_RECORD_LEN :: nat where [layout_consts]: "MR_RECORD_LEN = 128"
definition MR_GPA :: nat where [layout_consts]: "MR_GPA = 16"
definition MR_EXTEND_CHUNK :: nat where [layout_consts]: "MR_EXTEND_CHUNK = 256"

text \<open>The tags \<open>MEM.PAGE.ADD\<close> and \<open>MR.EXTEND\<close>.\<close>

definition mem_page_add :: bytes where
  "mem_page_add = [77, 69, 77, 46, 80, 65, 71, 69, 46, 65, 68, 68]"

definition mr_extend :: bytes where
  "mr_extend = [77, 82, 46, 69, 88, 84, 69, 78, 68]"

definition mr_record :: "bytes \<Rightarrow> u64 \<Rightarrow> bytes option" where
  "mr_record tag gpa = do {
     r \<leftarrow> poke 0 tag (replicate MR_RECORD_LEN 0);
     poke MR_GPA (le64 gpa) r
   }"

definition mrtd_chunk :: "u64 \<Rightarrow> bytes \<Rightarrow> nat \<Rightarrow> bytes option" where
  "mrtd_chunk gpa data offset = do {
     extend \<leftarrow> mr_record mr_extend (gpa + of_nat offset);
     chunk \<leftarrow> peek offset MR_EXTEND_CHUNK data;
     Some (extend @ chunk)
   }"

definition mrtd_page :: "u64 \<times> bytes \<Rightarrow> bytes option" where
  "mrtd_page p = do {
     add \<leftarrow> mr_record mem_page_add (fst p);
     chunks \<leftarrow> those (map (\<lambda>k. mrtd_chunk (fst p) (snd p) (k * MR_EXTEND_CHUNK))
                     [0..<unat PAGE div MR_EXTEND_CHUNK]);
     Some (add @ concat chunks)
   }"

definition mrtd_stream :: "(u64 \<times> bytes) list \<Rightarrow> bytes option" where
  "mrtd_stream pgs = map_option concat (those (map mrtd_page pgs))"

definition mrtd_calculate :: "(bytes \<Rightarrow> bytes) \<Rightarrow> (u64 \<times> bytes) list \<Rightarrow> bytes option" where
  "mrtd_calculate sha384 pgs = map_option sha384 (mrtd_stream pgs)"

section \<open>The stream determines the pages\<close>

definition whole_page :: "u64 \<times> bytes \<Rightarrow> bool" where
  "whole_page p \<longleftrightarrow> length (snd p) = 4096"

definition enc_record :: "bytes \<Rightarrow> u64 \<Rightarrow> bytes" where
  "enc_record tag gpa = blit 16 (le64 gpa) (blit 0 tag (replicate 128 0))"

definition enc_chunk :: "u64 \<Rightarrow> bytes \<Rightarrow> nat \<Rightarrow> bytes" where
  "enc_chunk gpa data k =
     enc_record mr_extend (gpa + of_nat (k * 256)) @ take 256 (drop (k * 256) data)"

definition enc_page :: "u64 \<times> bytes \<Rightarrow> bytes" where
  "enc_page p = enc_record mem_page_add (fst p) @ concat (map (enc_chunk (fst p) (snd p)) [0..<16])"

definition dec_page :: "bytes \<Rightarrow> u64 \<times> bytes" where
  "dec_page bs = (le_word (take 8 (drop 16 bs)),
     concat (map (\<lambda>k. take 256 (drop (256 + k * 384) bs)) [0..<16]))"

lemma tag_lengths [simp]: "length mem_page_add = 12" "length mr_extend = 9"
  by (simp_all add: mem_page_add_def mr_extend_def)

lemma mr_record_eq:
  "length tag \<le> 16 \<Longrightarrow> mr_record tag gpa = Some (enc_record tag gpa)"
  by (simp add: mr_record_def enc_record_def MR_RECORD_LEN_def MR_GPA_def)

lemma length_enc_record [simp]: "length tag \<le> 16 \<Longrightarrow> length (enc_record tag gpa) = 128"
  by (simp add: enc_record_def)

lemma mrtd_page_eq:
  assumes "whole_page p"
  shows "mrtd_page p = Some (enc_page p)"
proof -
  have "mrtd_chunk (fst p) (snd p) (k * MR_EXTEND_CHUNK) = Some (enc_chunk (fst p) (snd p) k)"
    if "k < 16" for k
    using assms that
    by (simp add: mrtd_chunk_def mr_record_eq peek_in_bounds enc_chunk_def MR_EXTEND_CHUNK_def
        whole_page_def)
  then have "those (map (\<lambda>k. mrtd_chunk (fst p) (snd p) (k * MR_EXTEND_CHUNK)) [0..<16])
      = Some (map (enc_chunk (fst p) (snd p)) [0..<16])"
    by (intro those_map_Some) simp
  then show ?thesis
    by (simp add: mrtd_page_def mr_record_eq enc_page_def MR_EXTEND_CHUNK_def)
qed

lemma length_enc_chunk:
  "length data = 4096 \<Longrightarrow> k < 16 \<Longrightarrow> length (enc_chunk gpa data k) = 384"
  by (simp add: enc_chunk_def)

lemma nth_enc_chunks:
  assumes "length data = 4096" "k < n" "n \<le> 16"
  shows "take 384 (drop (k * 384) (concat (map (enc_chunk gpa data) [0..<n]) @ rest)) =
    enc_chunk gpa data k"
  using assms(2,3)
proof (induction n arbitrary: rest)
  case 0
  then show ?case by simp
next
  case (Suc n)
  have len: "length (concat (map (enc_chunk gpa data) [0..<n])) = 384 * n"
    using Suc.prems(2)
  proof (induction n)
    case 0
    then show ?case by simp
  next
    case (Suc m)
    then show ?case using assms(1) by (simp add: length_enc_chunk)
  qed
  show ?case
  proof (cases "k = n")
    case True
    then show ?thesis using len Suc.prems assms(1) by (simp add: length_enc_chunk)
  next
    case False
    then show ?thesis
      using Suc.IH [of "enc_chunk gpa data n @ rest"] Suc.prems by simp
  qed
qed

lemma dec_enc_page:
  assumes "whole_page p"
  shows "dec_page (enc_page p) = p"
proof -
  obtain gpa data where p: "p = (gpa, data)" by (cases p)
  with assms have len: "length data = 4096" by (simp add: whole_page_def)
  let ?cs = "concat (map (enc_chunk gpa data) [0..<16])"
  have "take 8 (drop 16 (enc_record mem_page_add gpa)) = le64 gpa"
    using peek_blit_same [of 16 "le64 gpa" "blit 0 mem_page_add (replicate 128 0)" 8]
    by (simp add: enc_record_def peek_def)
  then have g: "le_word (take 8 (drop 16 (enc_page p))) = gpa"
    by (simp add: enc_page_def p)
  have "take 256 (drop (256 + k * 384) (enc_page p)) = take 256 (drop (k * 256) data)"
    if k: "k < 16" for k
  proof -
    have "drop (256 + k * 384) (enc_page p) = drop 128 (drop (k * 384) ?cs)"
      by (simp add: enc_page_def p add.commute)
    then have "take 256 (drop (256 + k * 384) (enc_page p))
        = drop 128 (take 384 (drop (k * 384) (?cs @ [])))"
      by (simp add: take_drop add.commute)
    also have "\<dots> = take 256 (drop (k * 256) data)"
      using k len by (subst nth_enc_chunks) (simp_all add: enc_chunk_def)
    finally show ?thesis .
  qed
  then have "concat (map (\<lambda>k. take 256 (drop (256 + k * 384) (enc_page p))) [0..<16]) =
      concat (map (\<lambda>k. take 256 (drop (k * 256) data)) [0..<16])"
    by (intro arg_cong [where f = concat] map_cong) simp_all
  also have "\<dots> = take (16 * 256) data"
  proof -
    have "concat (map (\<lambda>k. take 256 (drop (k * 256) data)) [0..<n]) = take (n * 256) data" for n
    proof (induction n)
      case (Suc n)
      then show ?case using take_add [of "n * 256" 256 data] by (simp add: add.commute [of 256])
    qed simp
    then show ?thesis .
  qed
  also have "\<dots> = data" using len by simp
  finally show ?thesis using g by (simp add: dec_page_def p)
qed

interpretation page_codec: fixed_codec enc_page dec_page 6272 whole_page
proof
  fix p
  assume p: "whole_page p"
  have "length (concat (map (enc_chunk (fst p) (snd p)) [0..<n])) = 384 * n" if "n \<le> 16" for n
    using that p by (induction n) (simp_all add: length_enc_chunk whole_page_def)
  then show "length (enc_page p) = 6272" by (simp add: enc_page_def)
  show "dec_page (enc_page p) = p" by (rule dec_enc_page [OF p])
qed simp

lemma mrtd_stream_eq:
  "\<forall>p\<in>set ps. whole_page p \<Longrightarrow> mrtd_stream ps = Some (concat (map enc_page ps))"
  using those_map_Some [of ps mrtd_page enc_page] by (simp add: mrtd_stream_def mrtd_page_eq)

lemma mrtd_stream_inject:
  assumes "\<forall>p\<in>set ps. whole_page p" "\<forall>q\<in>set qs. whole_page q" "mrtd_stream ps = mrtd_stream qs"
  shows "ps = qs"
  using assms page_codec.concat_enc_inject [of ps qs] by (simp add: mrtd_stream_eq)

section \<open>Properties\<close>

text \<open>C28: the TDX measurement is a commitment to the loaded pages: two different lists of whole pages
  with the same digest give a collision of SHA-384 on two streams the builder hashes.\<close>

theorem mrtd_collision:
  assumes "\<forall>p\<in>set ps. whole_page p" "\<forall>q\<in>set qs. whole_page q"
    "mrtd_calculate sha384 ps = mrtd_calculate sha384 qs" "ps \<noteq> qs"
  shows "\<exists>x y. mrtd_stream ps = Some x \<and> mrtd_stream qs = Some y \<and> x \<noteq> y \<and> sha384 x = sha384 y"
proof -
  have "mrtd_stream ps \<noteq> mrtd_stream qs"
    using assms(1,2,4) mrtd_stream_inject by blast
  with assms show ?thesis by (auto simp: mrtd_calculate_def mrtd_stream_eq)
qed

theorem mrtd_collision_witness:
  "let ps = [(0, replicate 4096 7)]; qs = [(0x1000, replicate 4096 7)]; digest = (\<lambda>bs. take 1 bs)
   in (\<forall>p\<in>set ps. whole_page p) \<and> (\<forall>q\<in>set qs. whole_page q) \<and> ps \<noteq> qs \<and>
      mrtd_calculate digest ps = mrtd_calculate digest qs \<and>
      (\<exists>x y. mrtd_stream ps = Some x \<and> mrtd_stream qs = Some y \<and> x \<noteq> y \<and> digest x = digest y)"
proof -
  let ?ps = "[(0 :: u64, replicate 4096 7)]" and ?qs = "[(0x1000, replicate 4096 7)]"
  have w: "\<forall>p\<in>set ?ps. whole_page p" "\<forall>q\<in>set ?qs. whole_page q" "?ps \<noteq> ?qs"
    by (simp_all add: whole_page_def)
  have eq: "mrtd_calculate (\<lambda>bs. take 1 bs) ?ps = mrtd_calculate (\<lambda>bs. take 1 bs) ?qs"
    by (simp add: mrtd_calculate_def mrtd_stream_eq whole_page_def enc_page_def enc_record_def
        blit_def mem_page_add_def)
  from mrtd_collision [OF w(1,2) eq w(3)] w eq show ?thesis unfolding Let_def by blast
qed

end
