(* ===== verification/Image.thy ===== *)
theory Image
  imports Externals Placement Boot_Protocol Acpi Page_Tables Mrtd
begin

text \<open>
  src/src/image.rs: what both builders share (\<open>config_field\<close>, \<open>prepare\<close>, the shim data
  block, the manifest pieces) and the TDX builder \<open>build_tdx\<close> (\<open>image::build\<close>). The lemmas
  give the exact conditions under which an input is accepted, what the shim reads back from
  its data block, and the shape of the configuration field.
\<close>

section \<open>Manifest pieces\<close>

definition COMPAT :: u32 where [layout_consts]: "COMPAT = 1"

definition zeros :: "nat \<Rightarrow> rstr" where
  "zeros n = concat (replicate n [48, 48])"

definition config_field :: "rstr option \<Rightarrow> nat \<Rightarrow> rstr result" where
  "config_field hash n = (case hash of
       None \<Rightarrow> Inr (zeros n)
     | Some h \<Rightarrow>
         let h = to_ascii_lowercase (trim_start_0x (trim h))
         in if length (utf8 h) \<noteq> n * 2 \<or> \<not> (\<forall>b\<in>set (utf8 h). is_ascii_hexdigit (unat b))
            then Inl (Image (BadConfigHash n))
            else Inr h)"

definition component_of :: "('file, 'key) externs \<Rightarrow> u64 \<Rightarrow> bytes \<Rightarrow> component" where
  "component_of ex address data =
     \<lparr>co_address = lit ''0x'' @ fmt_hex 8 (unat address), co_size = length data,
      co_sha256 = ex_hex ex (ex_sha256 ex data)\<rparr>"

definition components :: "('file, 'key) externs \<Rightarrow> placed list \<Rightarrow> rstr \<rightharpoonup> component" where
  "components ex placed =
     foldl (\<lambda>m p. m(pl_name p \<mapsto> component_of ex (pl_base p) (placed_data p))) Map.empty
       (filter (\<lambda>p. pl_name p \<noteq> []) placed)"

definition mmio_holes :: "params \<Rightarrow> rstr list" where
  "mmio_holes params =
     map (\<lambda>(b, n). lit ''0x'' @ fmt_hex 8 (unat b) @ lit '':0x'' @ fmt_hex 0 (unat n))
       (p_mmio params)"

definition tdx_launch :: "('file, 'key) externs \<Rightarrow> bytes \<Rightarrow> rstr \<Rightarrow> launch" where
  "tdx_launch ex mrtd mrconfigid =
     foldl (\<lambda>r name. r(name \<mapsto> zeros 48))
       [lit ''mrtd'' \<mapsto> ex_hex ex mrtd, lit ''mrconfigid'' \<mapsto> mrconfigid]
       [lit ''rtmr0'', lit ''rtmr1'', lit ''rtmr2'', lit ''rtmr3'']"

text \<open>\<open>write_manifest\<close>, given the serializer's result for the manifest.\<close>

definition write_manifest :: "rstr \<Rightarrow> string + bytes \<Rightarrow> unit io" where
  "write_manifest output json =
     io_bind (io_lift (extern_result ManifestJson json)) (\<lambda>json.
       fs_write ''write manifest'' (output @ lit ''.manifest.json'') (json @ [10]))"

section \<open>Preparing the inputs\<close>

record prepared =
  pr_info :: kernel_info
  pr_setup :: bytes
  pr_kernel :: bytes
  pr_initramfs :: bytes
  pr_command :: bytes
  pr_entry :: u64

definition slice_from :: "nat \<Rightarrow> 'a list \<Rightarrow> 'a list option" where
  "slice_from at v = (if at \<le> length v then Some (drop at v) else None)"

text \<open>\<open>Vec::resize(n, 0)\<close>.\<close>

definition resize :: "nat \<Rightarrow> bytes \<Rightarrow> bytes" where
  "resize n v = take n v @ replicate (n - length v) 0"

definition prepare_checks ::
  "kernel_info \<Rightarrow> nat \<Rightarrow> nat \<Rightarrow> params \<Rightarrow> unit result" where
  "prepare_checks info kernel_len initramfs_len params =
     (let kernel_end = align_up (KERNEL_BASE + of_nat kernel_len) PAGE;
          initramfs_end = align_up (INITRAMFS_BASE + of_nat initramfs_len) PAGE
      in if kernel_end > INITRAMFS_BASE then Inl (Prepare KernelOverInitramfs)
         else if KERNEL_BASE + ucast (ki_init_size info) > INITRAMFS_BASE
           then Inl (Prepare InitSizeOverInitramfs)
         else if initramfs_end > p_memory params then Inl (Prepare InitramfsBeyondMemory)
         else if initramfs_end > ucast (0xffffffff :: u32) then Inl (Prepare InitramfsAbove4G)
         else if ki_setup_bytes info > unat KERNEL_SETUP_AREA_SIZE then Inl (Prepare SetupTooLarge)
         else if of_nat (length (utf8 (p_cmdline params))) + 1 > ki_cmdline_max info
           then Inl (Prepare (CmdlineTooLong (ki_cmdline_max info)))
         else Inr ())"

definition prepare_inputs :: "bytes \<Rightarrow> bytes \<Rightarrow> params \<Rightarrow> prepared result" where
  "prepare_inputs kernel_file initramfs params =
     bind_result (parse_bzimage kernel_file) (\<lambda>info.
     bind_result (or_panic (slice_from (ki_setup_bytes info) kernel_file)) (\<lambda>kernel.
     bind_result (prepare_checks info (length kernel) (length initramfs) params) (\<lambda>_.
     bind_result (or_panic (peek 0 (ki_setup_bytes info) kernel_file)) (\<lambda>head.
     bind_result (or_panic (poke 0 head (replicate (unat KERNEL_SETUP_AREA_SIZE) 0))) (\<lambda>setup.
     Inr \<lparr>pr_info = info, pr_setup = setup, pr_kernel = kernel, pr_initramfs = initramfs,
          pr_command = resize (unat PAGE) (utf8 (p_cmdline params) @ [0]),
          pr_entry = KERNEL_BASE + ENTRY_64_OFFSET\<rparr>)))))"

definition prepare :: "rstr \<Rightarrow> rstr \<Rightarrow> params \<Rightarrow> prepared io" where
  "prepare kernel_path initramfs_path params =
     io_bind (fs_read ''read kernel'' kernel_path) (\<lambda>kernel_file.
     io_bind (fs_read ''read initramfs'' initramfs_path) (\<lambda>initramfs.
     io_lift (prepare_inputs kernel_file initramfs params)))"

section \<open>The shim page\<close>

definition shim_data :: "u64 \<Rightarrow> (u64 \<times> u64) list \<Rightarrow> bytes" where
  "shim_data entry ranges =
     le64 entry @ concat (map (\<lambda>(lo, hi). le64 lo @ le64 hi) ranges) @ replicate 16 0"

definition shim :: "bytes \<Rightarrow> u64 \<Rightarrow> (u64 \<times> u64) list \<Rightarrow> bytes result" where
  "shim blob entry ranges =
     (let data = shim_data entry ranges; at = unat SHIM_DATA in
      if length data > unat SHIM_DATA_SIZE then Inl (Image (ShimDataTooLong (length data)))
      else bind_result (or_panic (peek at (length data) blob)) (\<lambda>old.
        if \<exists>b\<in>set old. b \<noteq> 0 then Inl (Image ShimCodeOverrun)
        else or_panic (poke at data blob)))"

definition shim_owned :: "placed list \<Rightarrow> nat result" where
  "shim_owned placed =
     (let owned = unat (sum_list (map span
            (filter (\<lambda>p. \<not> (case pl_fill p of Mmio _ \<Rightarrow> True | _ \<Rightarrow> False))
              (filter (\<lambda>p. pl_base p < KERNEL_SETUP_BASE \<or> pl_base p = RESET_ALIAS) placed))))
      in if owned > SHIM_LIMIT then Inl (Image (ShimOwnedTooLarge owned)) else Inr owned)"

section \<open>The TDX file\<close>

fun launch_pages :: "placed list \<Rightarrow> (u64 \<times> bytes) list result" where
  "launch_pages [] = Inr []"
| "launch_pages (region # rest) = (case pl_fill region of
       Measured data \<Rightarrow>
         bind_result (launch_pages rest) (\<lambda>out. Inr (pages (pl_base region) data @ out))
     | Mmio _ \<Rightarrow> launch_pages rest
     | Host \<Rightarrow> Inl (Image (NoMeasuredContents (pl_base region))))"

definition page_directive :: "u64 \<Rightarrow> page_type \<Rightarrow> bytes \<Rightarrow> directive" where
  "page_directive gpa data_type data =
     PageData gpa COMPAT \<lparr>pf_is_2mb_page = False, pf_unmeasured = False, pf_shared = False\<rparr>
       data_type data"

definition tdx_platform :: "u16 \<Rightarrow> platform_header" where
  "tdx_platform version =
     \<lparr>ph_mask = COMPAT, ph_highest_vtl = 0, ph_type = TDX, ph_version = version,
      ph_shared_gpa_boundary = 0\<rparr>"

definition igvm :: "('file, 'key) externs \<Rightarrow> (u64 \<times> bytes) list \<Rightarrow> bytes result" where
  "igvm ex pgs =
     (let directives = map (\<lambda>(gpa, data). page_directive gpa NORMAL data) pgs in
      bind_result (extern_result IgvmConstruct
        (ex_igvm_new ex [tdx_platform (ex_platform_version ex)] [] directives)) (\<lambda>file.
      extern_result IgvmSerialize (ex_igvm_serialize ex file)))"

fun measured_page :: "directive \<Rightarrow> (u64 \<times> bytes) result" where
  "measured_page (PageData gpa cmask flags data_type data) =
     (if cmask = COMPAT \<and> data_type = NORMAL \<and> \<not> pf_is_2mb_page flags
         \<and> \<not> pf_unmeasured flags \<and> \<not> pf_shared flags \<and> length data = unat PAGE
      then Inr (gpa, data) else Inl (Image NotAMeasuredPage))"
| "measured_page _ = Inl (Image NotAMeasuredPage)"

definition igvm_pages :: "('file, 'key) externs \<Rightarrow> bytes \<Rightarrow> (u64 \<times> bytes) list result" where
  "igvm_pages ex file =
     bind_result (extern_result IgvmReadBack (ex_igvm_parse ex file)) (\<lambda>f.
       map_result measured_page (ex_directives ex f))"

section \<open>The TDX builder\<close>

definition tdx_regions ::
  "params \<Rightarrow> prepared \<Rightarrow> bytes \<Rightarrow> bytes \<Rightarrow> bytes \<Rightarrow> placed list" where
  "tdx_regions params p acpi tables stack =
     [placed_measured ZERO_PAGE [] RESERVED (replicate (unat PAGE) 0),
      placed_measured CMDLINE (lit ''command_line'') RESERVED (pr_command p),
      placed_measured ACPI_BASE (lit ''acpi'') ACPI acpi,
      placed_measured MAILBOX [] RESERVED (replicate (unat PAGE) 0),
      placed_measured PAGE_TABLES [] RESERVED tables,
      placed_measured BSP_STACK [] RESERVED stack,
      placed_measured KERNEL_SETUP_BASE (lit ''kernel_setup'') RESERVED (pr_setup p),
      placed_measured KERNEL_BASE (lit ''kernel'') RAM (pr_kernel p),
      placed_measured INITRAMFS_BASE (lit ''initramfs'') RAM (pr_initramfs p),
      placed_measured RESET_ALIAS (lit ''shim'') RESERVED (replicate (unat PAGE) 0)]
     @ map (\<lambda>(b, n). placed_mmio b n) (p_mmio params)"

definition tdx_place ::
  "('file, 'key) externs \<Rightarrow> params \<Rightarrow> prepared \<Rightarrow> (placed list \<times> nat) result" where
  "tdx_place ex params p =
     bind_result (or_panic (acpi_build (p_vcpus params) True)) (\<lambda>acpi.
     bind_result (or_panic (identity_map 0 False)) (\<lambda>tables.
     bind_result (or_panic gdt_stack) (\<lambda>stack.
     let placed = tdx_regions params p acpi tables stack in
     bind_result (validate placed (p_memory params)) (\<lambda>_.
     let emap = e820 placed (p_memory params) in
     bind_result (zero_page (pr_setup p) (pr_info p) (length (pr_initramfs p)) ACPI_BASE emap 0)
       (\<lambda>zero.
     bind_result (fill_region placed ZERO_PAGE zero) (\<lambda>placed.
     let accept = accept_ranges placed (p_memory params) in
     bind_result (shim (ex_reset_shim ex) (pr_entry p) accept) (\<lambda>shim_page.
     bind_result (fill_region placed RESET_ALIAS shim_page) (\<lambda>placed.
     bind_result (shim_owned placed) (\<lambda>owned.
     Inr (placed, owned))))))))))"

definition tdx_file ::
  "('file, 'key) externs \<Rightarrow> placed list \<Rightarrow> ((u64 \<times> bytes) list \<times> bytes \<times> bytes) result" where
  "tdx_file ex placed =
     bind_result (launch_pages placed) (\<lambda>pgs.
     bind_result (igvm ex pgs) (\<lambda>file.
     bind_result (igvm_pages ex file) (\<lambda>back.
     if back \<noteq> pgs then Inl (Image IgvmMismatch)
     else bind_result (or_panic (mrtd_calculate (ex_sha384 ex) pgs)) (\<lambda>mrtd.
     Inr (pgs, file, mrtd)))))"

definition build_tdx ::
  "('file, 'key) externs \<Rightarrow> rstr \<Rightarrow> rstr \<Rightarrow> rstr \<Rightarrow> params \<Rightarrow> rstr option \<Rightarrow> unit io" where
  "build_tdx ex kernel_path initramfs_path output params config_hash =
     io_bind (io_lift (config_field config_hash 48)) (\<lambda>mrconfigid.
     io_bind (prepare kernel_path initramfs_path params) (\<lambda>p.
     io_bind (io_lift (tdx_place ex params p)) (\<lambda>(placed, owned).
     let placed = sort_key pl_base placed in
     io_bind (io_lift (tdx_file ex placed)) (\<lambda>(pgs, file, mrtd).
     io_bind (fs_write ''write IGVM'' output file) (\<lambda>_.
     let manifest =
       \<lparr>tm_format_version = 2, tm_platform = lit ''tdx'', tm_memory_bytes = p_memory params,
        tm_vcpus = p_vcpus params, tm_command_line = p_cmdline params,
        tm_mmio_holes = mmio_holes params,
        tm_kernel_entry = lit ''0x'' @ fmt_hex 8 (unat (pr_entry p)),
        tm_expected_mrtd = ex_hex ex mrtd, tm_shim_owned_bytes = owned,
        tm_launch = tdx_launch ex mrtd mrconfigid, tm_components = components ex placed\<rparr>
     in write_manifest output (ex_json_tdx ex manifest))))))"

section \<open>The configuration field\<close>

definition lower_hex :: "nat \<Rightarrow> bool" where
  "lower_hex c \<longleftrightarrow> 48 \<le> c \<and> c \<le> 57 \<or> 97 \<le> c \<and> c \<le> 102"

lemma utf8_char_ascii:
  assumes "\<forall>b\<in>set (utf8_char c). unat b < 128"
  shows "c < 128"
proof (rule ccontr)
  assume "\<not> c < 128"
  then have "of_nat (0x80 + c mod 64) \<in> set (utf8_char c)"
    by (simp add: utf8_char_def)
  moreover have "unat (of_nat (0x80 + c mod 64) :: u8) = 0x80 + c mod 64"
  proof -
    have "c mod 64 < 64" by simp
    then have "0x80 + c mod 64 < 256" by linarith
    then show ?thesis by (rule unat_of_nat_u8)
  qed
  ultimately show False using assms by fastforce
qed

lemma utf8_all_ascii:
  assumes "\<forall>b\<in>set (utf8 h). unat b < 128"
  shows "\<forall>c\<in>set h. c < 128"
  using assms utf8_char_ascii by (force simp: utf8_def)

lemma hexdigit_ascii: "is_ascii_hexdigit n \<Longrightarrow> n < 128"
  by (auto simp: is_ascii_hexdigit_def)

lemma lower_hex_text:
  assumes "\<forall>c\<in>set r. lower_hex c"
  shows "trim r = r" "trim_start_0x r = r" "to_ascii_lowercase r = r" "utf8 r = map of_nat r"
    "\<forall>b\<in>set (utf8 r). is_ascii_hexdigit (unat b)"
proof -
  have ascii: "\<forall>c\<in>set r. c < 128" using assms by (auto simp: lower_hex_def)
  show "trim r = r"
    using assms by (intro trim_no_ws) (auto simp: lower_hex_def is_whitespace_def)
  show "trim_start_0x r = r"
    using assms by (cases r rule: trim_start_0x.cases) (auto simp: lower_hex_def)
  show "to_ascii_lowercase r = r"
    unfolding to_ascii_lowercase_def using assms by (intro map_idI) (auto simp: lower_hex_def)
  show u: "utf8 r = map of_nat r" by (rule utf8_ascii [OF ascii])
  show "\<forall>b\<in>set (utf8 r). is_ascii_hexdigit (unat b)"
  proof
    fix b assume "b \<in> set (utf8 r)"
    then obtain c where c: "c \<in> set r" "b = of_nat c" using u by auto
    then have "unat b = c" using ascii by (auto intro!: unat_of_nat_u8 dest!: bspec)
    then show "is_ascii_hexdigit (unat b)"
      using c assms by (auto simp: lower_hex_def is_ascii_hexdigit_def)
  qed
qed

lemma zeros_lower_hex: "\<forall>c\<in>set (zeros n). lower_hex c"
  by (auto simp: zeros_def lower_hex_def)

lemma length_zeros [simp]: "length (zeros n) = 2 * n"
  by (induction n) (auto simp: zeros_def)

lemma lowercased_hex:
  assumes "h = to_ascii_lowercase t" "\<forall>b\<in>set (utf8 h). is_ascii_hexdigit (unat b)"
  shows "(\<forall>c\<in>set h. lower_hex c) \<and> length (utf8 h) = length h"
proof -
  have ascii: "\<forall>c\<in>set h. c < 128"
    using assms(2) by (intro utf8_all_ascii) (auto intro: hexdigit_ascii)
  have u: "utf8 h = map of_nat h" by (rule utf8_ascii [OF ascii])
  have "lower_hex c" if c: "c \<in> set h" for c
  proof -
    have "unat (of_nat c :: u8) = c" using ascii c by (auto intro!: unat_of_nat_u8 dest!: bspec)
    then have "is_ascii_hexdigit c" using assms(2) u c by force
    moreover have "\<not> (65 \<le> c \<and> c \<le> 90)"
      using c assms(1) by (auto simp: to_ascii_lowercase_def)
    ultimately show ?thesis by (auto simp: is_ascii_hexdigit_def lower_hex_def)
  qed
  with u show ?thesis by simp
qed

text \<open>The configuration field is always the requested number of bytes in lower-case
  hexadecimal, and passing the published field back in gives the same field: what the manifest
  states is a fixed point of the parser.\<close>

theorem config_field_normal_form:
  assumes "config_field hash n = Inr r"
  shows "length r = 2 * n \<and> (\<forall>c\<in>set r. lower_hex c) \<and> config_field (Some r) n = Inr r"
proof -
  have shape: "length r = 2 * n \<and> (\<forall>c\<in>set r. lower_hex c)"
  proof (cases hash)
    case None
    then show ?thesis using assms zeros_lower_hex by (auto simp: config_field_def)
  next
    case (Some h)
    with assms have r: "r = to_ascii_lowercase (trim_start_0x (trim h))"
      "length (utf8 r) = n * 2" "\<forall>b\<in>set (utf8 r). is_ascii_hexdigit (unat b)"
      by (auto simp: config_field_def Let_def split: if_splits)
    then show ?thesis using lowercased_hex [OF r(1,3)] by simp
  qed
  then show ?thesis
    using lower_hex_text [of r] by (simp add: config_field_def Let_def)
qed

theorem config_field_normal_form_witness:
  "config_field (Some (lit '' 0xABcd'')) 2 = Inr (lit ''abcd'') \<and>
   config_field (Some (lit ''abcd'')) 2 = Inr (lit ''abcd'')"
proof -
  have a: "config_field (Some (lit '' 0xABcd'')) 2 = Inr (lit ''abcd'')"
    by (simp add: config_field_def trim_def trim_start_def is_whitespace_def
        to_ascii_lowercase_def utf8_def utf8_char_def is_ascii_hexdigit_def)
  from a config_field_normal_form [OF a] show ?thesis by simp
qed

section \<open>Which inputs are accepted\<close>

lemma ceil_pages_le: "(n + 4095) div 4096 * 4096 \<le> K \<longleftrightarrow> n \<le> K div 4096 * (4096 :: nat)"
proof -
  have "(n + 4095) div 4096 * 4096 \<le> K \<longleftrightarrow> (n + 4095) div 4096 \<le> K div 4096"
    by (simp add: less_eq_div_iff_mult_less_eq)
  also have "\<dots> \<longleftrightarrow> n + 4095 < (K div 4096 + 1) * 4096"
    using div_less_iff_less_mult [of 4096 "n + 4095" "K div 4096 + 1"]
    by (simp add: less_Suc_eq_le)
  also have "\<dots> \<longleftrightarrow> n \<le> K div 4096 * 4096" by auto
  finally show ?thesis .
qed

lemma align_up_le_iff:
  assumes "unat v + 4095 < 2 ^ 64"
  shows "align_up v PAGE \<le> m \<longleftrightarrow> unat v \<le> unat m div 4096 * 4096"
  by (simp add: word_le_nat_alt unat_align_up [OF assms] ceil_pages_le)

text \<open>The conditions on the sizes, in plain numbers.\<close>

definition prepare_fits :: "kernel_info \<Rightarrow> nat \<Rightarrow> nat \<Rightarrow> params \<Rightarrow> bool" where
  "prepare_fits info kernel_len initramfs_len params \<longleftrightarrow>
     0x1000000 + kernel_len \<le> 0x20000000 \<and>
     0x1000000 + unat (ki_init_size info) \<le> 0x20000000 \<and>
     0x20000000 + initramfs_len \<le> unat (p_memory params) \<and>
     0x20000000 + initramfs_len \<le> 0xfffff000 \<and>
     ki_setup_bytes info \<le> 0x2f000 \<and>
     length (utf8 (p_cmdline params)) < unat (ki_cmdline_max info)"

lemma unat_base_plus_len:
  assumes "n < 2 ^ 63" "unat (b :: u64) \<le> 0x20000000"
  shows "unat (b + of_nat n) = unat b + n" "unat (b + of_nat n) + 4095 < 2 ^ 64"
proof -
  have "unat (of_nat n :: u64) = n" using assms(1) by (intro unat_of_nat_u64) simp
  then show eq: "unat (b + of_nat n) = unat b + n"
    using assms by (subst unat_add_noov) simp_all
  show "unat (b + of_nat n) + 4095 < 2 ^ 64" unfolding eq using assms by simp
qed

lemma prepare_checks_Inr_iff:
  assumes "kernel_len < 2 ^ 63" "initramfs_len < 2 ^ 63" "is_multiple_of (p_memory params) PAGE"
    "length (utf8 (p_cmdline params)) < 0xffffffff"
  shows "prepare_checks info kernel_len initramfs_len params = Inr () \<longleftrightarrow>
    prepare_fits info kernel_len initramfs_len params"
proof -
  have b: "unat KERNEL_BASE = 0x1000000" "unat INITRAMFS_BASE = 0x20000000"
    "unat KERNEL_SETUP_AREA_SIZE = 0x2f000"
    by (simp_all add: layout_consts)
  have mem: "unat (p_memory params) div 4096 * 4096 = unat (p_memory params)"
    using assms(3) by (simp add: PAGE_aligned_iff)
  have k: "align_up (KERNEL_BASE + of_nat kernel_len) PAGE \<le> INITRAMFS_BASE \<longleftrightarrow>
      0x1000000 + kernel_len \<le> 0x20000000"
    using unat_base_plus_len [OF assms(1), of KERNEL_BASE] by (simp add: align_up_le_iff b)
  have i: "align_up (INITRAMFS_BASE + of_nat initramfs_len) PAGE \<le> m \<longleftrightarrow>
      0x20000000 + initramfs_len \<le> unat m div 4096 * 4096" for m
    using unat_base_plus_len [OF assms(2), of INITRAMFS_BASE] by (simp add: align_up_le_iff b)
  have n: "KERNEL_BASE + ucast (ki_init_size info) \<le> INITRAMFS_BASE \<longleftrightarrow>
      0x1000000 + unat (ki_init_size info) \<le> 0x20000000"
    using unat_u32_less [of "ki_init_size info"]
    by (simp add: word_le_nat_alt b unat_add_noov)
  have "unat (of_nat (length (utf8 (p_cmdline params))) + 1 :: u32)
      = length (utf8 (p_cmdline params)) + 1"
    using assms(4) by (subst unat_add_noov) (simp_all add: unat_of_nat_u32)
  then have c: "of_nat (length (utf8 (p_cmdline params))) + 1 \<le> ki_cmdline_max info \<longleftrightarrow>
      length (utf8 (p_cmdline params)) < unat (ki_cmdline_max info)"
    by (simp add: word_le_nat_alt Suc_le_eq)
  show ?thesis
    by (auto simp: prepare_checks_def Let_def prepare_fits_def b mem k i n c
        simp flip: not_le)
qed

lemma prepare_inputs_Inr_iff:
  assumes "vec_len_ok kernel_file" "vec_len_ok initramfs" "is_multiple_of (p_memory params) PAGE"
    "length (utf8 (p_cmdline params)) < 0xffffffff"
  shows "prepare_inputs kernel_file initramfs params = Inr p \<longleftrightarrow>
    bootable kernel_file \<and>
    (let info = info_of kernel_file; n = ki_setup_bytes info in
     prepare_fits info (length kernel_file - n) (length initramfs) params \<and>
     p = \<lparr>pr_info = info, pr_setup = blit 0 (take n kernel_file) (replicate 0x2f000 0),
          pr_kernel = drop n kernel_file, pr_initramfs = initramfs,
          pr_command = resize 4096 (utf8 (p_cmdline params) @ [0]), pr_entry = 0x1000200\<rparr>)"
proof (cases "bootable kernel_file")
  case True
  then have parse: "parse_bzimage kernel_file = Inr (info_of kernel_file)"
    by (simp add: parse_bzimage_Inr_iff)
  let ?n = "ki_setup_bytes (info_of kernel_file)"
  have n: "?n \<le> length kernel_file"
    using True by (simp add: bootable_def info_of_def)
  have "?n \<le> 0x2f000"
    using setup_bytes_bounds [of "hdr8 HDR_SETUP_SECTS kernel_file"] by (simp add: info_of_def)
  then have pk: "poke 0 (take ?n kernel_file) (replicate (unat KERNEL_SETUP_AREA_SIZE) 0) =
      Some (blit 0 (take ?n kernel_file) (replicate 0x2f000 0))"
    using n by (simp add: KERNEL_SETUP_AREA_SIZE_def)
  have "length kernel_file - ?n < 2 ^ 63" "length initramfs < 2 ^ 63"
    using assms(1,2) by (auto simp: vec_len_ok_def)
  note checks = prepare_checks_Inr_iff [OF this assms(3,4), of "info_of kernel_file"]
  have "prepare_inputs kernel_file initramfs params = Inr p \<longleftrightarrow>
      prepare_checks (info_of kernel_file) (length kernel_file - ?n) (length initramfs) params
        = Inr () \<and>
      p = \<lparr>pr_info = info_of kernel_file,
          pr_setup = blit 0 (take ?n kernel_file) (replicate 0x2f000 0),
          pr_kernel = drop ?n kernel_file, pr_initramfs = initramfs,
          pr_command = resize 4096 (utf8 (p_cmdline params) @ [0]), pr_entry = 0x1000200\<rparr>"
    using n pk
    by (auto simp: prepare_inputs_def parse slice_from_def peek_def bind_result_Inr_conv
        KERNEL_BASE_def ENTRY_64_OFFSET_def)
  with True checks show ?thesis by (simp add: Let_def)
next
  case False
  then have "parse_bzimage kernel_file \<noteq> Inr info" for info
    by (simp add: parse_bzimage_Inr_iff)
  with False show ?thesis
    by (auto simp: prepare_inputs_def bind_result_Inr_conv)
qed

text \<open>C30: the builder goes on with a kernel and an initramfs exactly when the kernel is bootable and
  everything fits: the payload and its run-time size below the initramfs address, the
  initramfs inside the guest's memory and below the last page under 4 GiB, the command line
  within the kernel's own limit; it then loads the payload after the setup area unchanged.\<close>

theorem prepare_accepts_exactly:
  assumes "vec_len_ok kernel_file" "vec_len_ok initramfs" "is_multiple_of (p_memory params) PAGE"
    "length (utf8 (p_cmdline params)) < 0xffffffff"
  shows "(\<exists>p. prepare_inputs kernel_file initramfs params = Inr p) \<longleftrightarrow>
    bootable kernel_file \<and>
    prepare_fits (info_of kernel_file)
      (length kernel_file - ki_setup_bytes (info_of kernel_file)) (length initramfs) params"
  by (simp add: prepare_inputs_Inr_iff [OF assms] Let_def)

theorem prepare_accepts_exactly_witness:
  "(\<exists>p. prepare_inputs test_kernel [1, 2, 3] default_params = Inr p) \<and>
   \<not> (\<exists>p. prepare_inputs test_kernel (replicate 0x20000001 0) default_params = Inr p)"
proof
  have v: "vec_len_ok test_kernel" "vec_len_ok [1, 2, 3 :: u8]"
    "vec_len_ok (replicate 0x20000001 (0 :: u8))"
    "is_multiple_of (p_memory default_params) PAGE"
    "length (utf8 (p_cmdline default_params)) < 0xffffffff"
    by (simp_all add: vec_len_ok_def default_params_def is_multiple_of_def layout_consts utf8_def
        utf8_char_def)
  have "length (utf8 (p_cmdline default_params)) < 0x800"
    by (simp add: default_params_def utf8_def utf8_char_def)
  then show "\<exists>p. prepare_inputs test_kernel [1, 2, 3] default_params = Inr p"
    using prepare_accepts_exactly [OF v(1,2,4,5)]
    by (simp add: test_kernel_bootable prepare_fits_def default_params_def DEFAULT_RAM_def)
  show "\<not> (\<exists>p. prepare_inputs test_kernel (replicate 0x20000001 0) default_params = Inr p)"
    using prepare_accepts_exactly [OF v(1,3,4,5)]
    by (simp add: prepare_fits_def default_params_def DEFAULT_RAM_def)
qed

lemma length_resize [simp]: "length (resize n v) = n"
  by (simp add: resize_def)

lemma prepare_inputs_shape:
  assumes "prepare_inputs kernel_file initramfs params = Inr p"
  shows "length (pr_setup p) = 0x2f000" "length (pr_command p) = 4096"
    "pr_initramfs p = initramfs" "pr_entry p = 0x1000200" "pr_kernel p \<noteq> []"
    "pr_command p = resize 4096 (utf8 (p_cmdline params) @ [0])"
    "pr_info p = info_of kernel_file" "bootable kernel_file"
    "pr_kernel p = drop (ki_setup_bytes (info_of kernel_file)) kernel_file"
    "prepare_checks (info_of kernel_file) (length (pr_kernel p)) (length initramfs) params = Inr ()"
    "pr_setup p = blit 0 (take (ki_setup_bytes (info_of kernel_file)) kernel_file)
       (replicate 0x2f000 0)"
proof -
  from assms show boot: "bootable kernel_file"
    by (auto simp: prepare_inputs_def bind_result_Inr_conv parse_bzimage_Inr_iff)
  let ?n = "ki_setup_bytes (info_of kernel_file)"
  have n: "?n + 512 < length kernel_file" "?n \<le> 131072"
    using boot setup_bytes_bounds [of "hdr8 HDR_SETUP_SECTS kernel_file"]
    by (simp_all add: bootable_def info_of_def ENTRY_64_OFFSET_def)
  have parse: "parse_bzimage kernel_file = Inr (info_of kernel_file)"
    using boot by (simp add: parse_bzimage_Inr_iff)
  have p: "prepare_checks (info_of kernel_file) (length kernel_file - ?n) (length initramfs) params
        = Inr () \<and>
      p = \<lparr>pr_info = info_of kernel_file,
          pr_setup = blit 0 (take ?n kernel_file) (replicate 0x2f000 0),
          pr_kernel = drop ?n kernel_file, pr_initramfs = initramfs,
          pr_command = resize 4096 (utf8 (p_cmdline params) @ [0]), pr_entry = 0x1000200\<rparr>"
    using assms n
    by (auto simp: prepare_inputs_def parse slice_from_def peek_def bind_result_Inr_conv
        KERNEL_BASE_def ENTRY_64_OFFSET_def KERNEL_SETUP_AREA_SIZE_def)
  then show "length (pr_setup p) = 0x2f000" "length (pr_command p) = 4096"
    "pr_initramfs p = initramfs" "pr_entry p = 0x1000200" "pr_kernel p \<noteq> []"
    "pr_command p = resize 4096 (utf8 (p_cmdline params) @ [0])"
    "pr_info p = info_of kernel_file"
    "pr_kernel p = drop ?n kernel_file"
    "prepare_checks (info_of kernel_file) (length (pr_kernel p)) (length initramfs) params = Inr ()"
    "pr_setup p = blit 0 (take ?n kernel_file) (replicate 0x2f000 0)"
    using n by simp_all
qed

text \<open>The setup-area check can never fail: the parser bounds the setup bytes by 128 KiB.\<close>

lemma setup_area_never_too_large:
  "prepare_inputs kernel_file initramfs params \<noteq> Inl (Prepare SetupTooLarge)"
proof -
  have "ki_setup_bytes info \<le> unat KERNEL_SETUP_AREA_SIZE"
    if "parse_bzimage kernel_file = Inr info" for info
    using that setup_bytes_bounds [of "hdr8 HDR_SETUP_SECTS kernel_file"]
    by (simp add: parse_bzimage_Inr_iff info_of_def KERNEL_SETUP_AREA_SIZE_def)
  moreover have "parse_bzimage kernel_file \<noteq> Inl (Prepare SetupTooLarge)"
    by (cases "SETUP_HEADER_MIN \<le> length kernel_file")
      (simp add: parse_bzimage_long, simp add: parse_bzimage_def)
  ultimately show ?thesis
    by (auto simp: prepare_inputs_def bind_result_Inl_conv prepare_checks_def Let_def
        split: if_splits)
qed

text \<open>What Linux reads at the command-line address: the bytes up to the first NUL.\<close>

definition c_string :: "bytes \<Rightarrow> bytes" where
  "c_string bs = takeWhile (\<lambda>b. b \<noteq> 0) bs"

text \<open>C35: the measured command-line page gives Linux back exactly the command line of the parameters
  whenever it is shorter than a page; a longer one, which a kernel with a large enough limit
  lets through, is cut to a page without its terminator.\<close>

theorem command_page_reads_back:
  assumes "prepare_inputs kernel_file initramfs params = Inr p"
    "\<forall>b\<in>set (utf8 (p_cmdline params)). b \<noteq> 0"
  shows "length (pr_command p) = unat PAGE \<and>
    c_string (pr_command p) = take (unat PAGE) (utf8 (p_cmdline params)) \<and>
    (0 \<in> set (pr_command p) \<longleftrightarrow> length (utf8 (p_cmdline params)) < unat PAGE)"
proof -
  let ?c = "utf8 (p_cmdline params)"
  have p: "pr_command p = take 4096 (?c @ [0]) @ replicate (4096 - length (?c @ [0])) 0"
    using prepare_inputs_shape(6) [OF assms(1)] by (simp add: resize_def)
  show ?thesis
  proof (cases "length ?c < 4096")
    case True
    then have "pr_command p = ?c @ 0 # replicate (4095 - length ?c) 0" by (simp add: p)
    then show ?thesis using assms(2) True by (auto simp: c_string_def takeWhile_append2)
  next
    case False
    then have "pr_command p = take 4096 ?c" by (simp add: p)
    moreover have "\<forall>b\<in>set (take 4096 ?c). b \<noteq> 0" using assms(2) by (meson in_set_takeD)
    ultimately show ?thesis using False by (auto simp: c_string_def takeWhile_eq_all_conv)
  qed
qed

lemma default_params_facts:
  "is_multiple_of (p_memory default_params) PAGE"
  "length (utf8 (p_cmdline default_params)) = 15"
  "\<forall>b\<in>set (utf8 (p_cmdline default_params)). b \<noteq> 0"
  by (simp_all add: default_params_def is_multiple_of_def layout_consts utf8_def utf8_char_def)

lemma prepare_test_kernel: "\<exists>p. prepare_inputs test_kernel [1, 2, 3] default_params = Inr p"
proof -
  have "vec_len_ok test_kernel" "vec_len_ok [1, 2, 3 :: u8]"
    by (simp_all add: vec_len_ok_def)
  note iff = prepare_inputs_Inr_iff [OF this default_params_facts(1)]
  have "p_memory default_params = 0x40000000" by (simp add: default_params_def DEFAULT_RAM_def)
  then have "prepare_fits (info_of test_kernel) 5632 3 default_params"
    by (simp add: prepare_fits_def test_kernel_bootable default_params_facts)
  then show ?thesis
    by (simp add: iff default_params_facts Let_def test_kernel_bootable flip: numeral_3_eq_3)
qed

theorem command_page_reads_back_witness:
  "\<exists>p. prepare_inputs test_kernel [1, 2, 3] default_params = Inr p \<and>
     c_string (pr_command p) = utf8 (lit ''panic=-1 no5lvl'')"
proof -
  obtain p where p: "prepare_inputs test_kernel [1, 2, 3] default_params = Inr p"
    using prepare_test_kernel by blast
  from command_page_reads_back [OF p default_params_facts(3)] p default_params_facts(2)
  show ?thesis by (simp add: default_params_def)
qed

end
