(* ===== verification/Shim_Data.thy ===== *)
theory Shim_Data
  imports Image
begin

text \<open>
  The data block of a reset shim: what \<open>shim\<close> of src/src/image.rs packs into the assembled
  page, and what the code at \<open>accept_next\<close> (src/src/reset.S) and \<open>validate_next\<close>
  (src/src/snp_reset.S) reads back from it, the same loop in both. The pairs are a fixed-width
  record format, so the block is read back exactly.
\<close>

section \<open>The reader\<close>

definition shim_entry :: "bytes \<Rightarrow> u64 option" where
  "shim_entry page = get64 (unat SHIM_DATA) page"

definition next_range :: "bytes \<Rightarrow> nat \<Rightarrow> (u64 \<times> u64) option" where
  "next_range page at = do { lo \<leftarrow> get64 at page; hi \<leftarrow> get64 (at + 8) page; Some (lo, hi) }"

lemma next_range_in_bounds: "next_range page at = Some r \<Longrightarrow> at + 16 \<le> length page"
  by (auto simp: next_range_def get64_def peek_def bind_eq_Some_conv split: if_splits)

text \<open>The ranges the loop hands to its subroutine, up to the terminator; \<open>None\<close> reads past the page.\<close>

function shim_ranges :: "bytes \<Rightarrow> nat \<Rightarrow> (u64 \<times> u64) list option" where
  "shim_ranges page at = (case next_range page at of
       None \<Rightarrow> None
     | Some (lo, hi) \<Rightarrow>
         if lo OR hi = 0 then Some []
         else map_option (Cons (lo, hi)) (shim_ranges page (at + 16)))"
  by pat_completeness auto
termination
  by (relation "measure (\<lambda>(page, at). length page - at)") (auto dest: next_range_in_bounds)

declare shim_ranges.simps [simp del]

section \<open>The pairs as records\<close>

definition enc_range :: "u64 \<times> u64 \<Rightarrow> bytes" where
  "enc_range r = le64 (fst r) @ le64 (snd r)"

definition dec_range :: "bytes \<Rightarrow> u64 \<times> u64" where
  "dec_range bs = (le_word (take 8 bs), le_word (drop 8 bs))"

interpretation range_codec: fixed_codec enc_range dec_range 16 "\<lambda>_. True"
  by unfold_locales (auto simp: enc_range_def dec_range_def)

lemma length_enc_range [simp]: "length (enc_range r) = 16"
  by (rule range_codec.length_enc) simp

lemma length_concat_ranges [simp]: "length (concat (map enc_range rs)) = 16 * length rs"
  by (rule range_codec.length_concat_enc) simp

lemma shim_data_eq:
  "shim_data entry rs = le64 entry @ concat (map enc_range rs) @ replicate 16 0"
proof -
  have "(\<lambda>(lo, hi). le64 lo @ le64 hi) = enc_range" by (auto simp: enc_range_def)
  then show ?thesis by (simp add: shim_data_def)
qed

lemma length_shim_data [simp]: "length (shim_data entry rs) = 24 + 16 * length rs"
  by (simp add: shim_data_eq)

lemma le_word_zeros [simp]: "le_word (replicate n 0) = (0 :: u64)"
  by (induction n) auto

section \<open>When the block fits\<close>

lemma shim_Inr_iff:
  assumes "length blob = 4096"
  shows "shim blob entry rs = Inr page \<longleftrightarrow>
    length rs \<le> 61 \<and> (\<forall>b\<in>set (take (24 + 16 * length rs) (drop 0xc00 blob)). b = 0) \<and>
    page = blit 0xc00 (shim_data entry rs) blob"
proof -
  have c: "unat SHIM_DATA = 0xc00" "unat SHIM_DATA_SIZE = 1008"
    by (simp_all add: SHIM_DATA_def SHIM_DATA_SIZE_def RESET_VECTOR_def PAGE_def)
  show ?thesis
  proof (cases "length rs \<le> 61")
    case True
    then show ?thesis
      using assms by (auto simp: shim_def Let_def c peek_in_bounds)
  next
    case False
    then show ?thesis by (simp add: shim_def Let_def c)
  qed
qed

section \<open>Reading it back\<close>

lemma next_range_record:
  assumes "drop at page = enc_range r @ rest"
  shows "next_range page at = Some r"
proof -
  have "length (drop at page) = 16 + length rest" using assms by simp
  then have len: "at + 16 \<le> length page" by simp
  have "take 8 (drop at page) = le64 (fst r)" "take 8 (drop (at + 8) page) = le64 (snd r)"
    using assms by (simp_all add: enc_range_def add.commute [of at] flip: drop_drop)
  with len show ?thesis by (simp add: next_range_def get_in_bounds)
qed

lemma shim_ranges_read_back:
  assumes "drop at page = concat (map enc_range rs) @ replicate 16 0 @ rest"
    "\<forall>r\<in>set rs. fst r OR snd r \<noteq> 0"
  shows "shim_ranges page at = Some rs"
  using assms
proof (induction rs arbitrary: at)
  case Nil
  have "enc_range (0, 0) = replicate 16 0"
    by (simp add: enc_range_def le_bytes_def numeral_eq_Suc)
  with Nil have "next_range page at = Some (0, 0)"
    by (intro next_range_record) simp
  then show ?case by (subst shim_ranges.simps) simp
next
  case (Cons r rs)
  then have "next_range page at = Some r"
    by (intro next_range_record) simp
  moreover have "drop (at + 16) page = concat (map enc_range rs) @ replicate 16 0 @ rest"
    using Cons.prems(1) by (simp add: add.commute [of at] flip: drop_drop)
  then have "shim_ranges page (at + 16) = Some rs"
    using Cons by simp
  ultimately show ?case
    using Cons.prems(2) by (subst shim_ranges.simps) (auto split: prod.splits)
qed

lemma shim_page_contents:
  assumes "length blob = 4096" "shim blob entry rs = Inr page" "\<forall>r\<in>set rs. fst r < snd r"
  shows "length page = 4096 \<and> shim_entry page = Some entry \<and> shim_ranges page 0xc08 = Some rs \<and>
    take 0xc00 page = take 0xc00 blob \<and> drop 0xff0 page = drop 0xff0 blob"
proof -
  from assms(2) have n: "length rs \<le> 61" and page: "page = blit 0xc00 (shim_data entry rs) blob"
    by (simp_all add: shim_Inr_iff [OF assms(1)])
  have len: "length page = 4096" using assms(1) n by (simp add: page)
  have "drop 0xc08 page = concat (map enc_range rs) @ replicate 16 0 @ drop (0xc18 + 16 * length rs) blob"
    using assms(1) by (simp add: page blit_def shim_data_eq)
  moreover have "fst r OR snd r \<noteq> 0" if "r \<in> set rs" for r
  proof -
    have "snd r \<noteq> 0" using assms(3) that by (auto dest!: bspec)
    then show ?thesis by (metis or_eq_0_iff)
  qed
  ultimately have "shim_ranges page 0xc08 = Some rs"
    by (intro shim_ranges_read_back) auto
  moreover have "shim_entry page = Some entry"
  proof -
    have "take 8 (drop 0xc00 page) = le64 entry"
      using assms(1) by (simp add: page blit_def shim_data_eq)
    then show ?thesis using len by (simp add: shim_entry_def SHIM_DATA_def get_in_bounds)
  qed
  moreover have "take 0xc00 page = take 0xc00 blob" using assms(1) by (simp add: page blit_def)
  moreover have "drop 0xff0 page = drop 0xff0 blob"
  proof -
    have "0xff0 = 0xc00 + (24 + 16 * length rs) + (0x3d8 - 16 * length rs)" using n by simp
    then obtain k where "0xff0 = 0xc00 + (24 + 16 * length rs) + k" by blast
    then show ?thesis using assms(1) by (simp add: page blit_def)
  qed
  ultimately show ?thesis using len by blast
qed

end
