(* ===== verification/Launch.thy ===== *)
theory Launch
  imports Placement
begin

text \<open>
  What both builders do with a validated map: they load the pages of its measured regions (and,
  for SNP, the two pages the firmware fills) in ascending order, and leave the apertures
  alone. The lemmas give the two facts every launch rests on: the loaded addresses strictly
  ascend, and every page of the described memory is loaded once, or accepted by the shim, or
  part of an aperture, and never two of these.
\<close>

section \<open>The addresses a region loads\<close>

definition region_addresses :: "placed \<Rightarrow> u64 list" where
  "region_addresses p = (case pl_fill p of
       Measured data \<Rightarrow> map fst (pages (pl_base p) data)
     | Host \<Rightarrow> [pl_base p]
     | Mmio _ \<Rightarrow> [])"

definition loaded_addresses :: "placed list \<Rightarrow> u64 list" where
  "loaded_addresses ps = concat (map region_addresses ps)"

definition is_mmio :: "placed \<Rightarrow> bool" where
  "is_mmio p \<longleftrightarrow> (case pl_fill p of Mmio _ \<Rightarrow> True | _ \<Rightarrow> False)"

text \<open>A region that loads what it covers: it is not an empty measured region.\<close>

definition loadable :: "placed \<Rightarrow> bool" where
  "loadable p \<longleftrightarrow> (case pl_fill p of Measured data \<Rightarrow> data \<noteq> [] \<and> vec_len_ok data | _ \<Rightarrow> True)"

lemma proper_region: "proper ps \<Longrightarrow> p \<in> set ps \<Longrightarrow> pl_base p < pl_base p + span p"
  by (simp add: proper_def region_end_def)

lemma page_of_host:
  assumes "is_multiple_of (b :: u64) PAGE" "is_multiple_of a PAGE" "b < b + PAGE"
  shows "b \<le> a \<and> a < b + PAGE \<longleftrightarrow> a = b"
proof -
  have "unat (b + PAGE) = unat b + 4096"
    using assms(3) order_less_imp_le [OF assms(3)] by (simp add: word_le_plus_iff unat_add_noov)
  moreover obtain x y where "unat a = 4096 * x" "unat b = 4096 * y"
    using assms(1,2) by (auto simp: PAGE_aligned_iff elim!: dvdE)
  ultimately have "b \<le> a \<and> a < b + PAGE \<longleftrightarrow> x = y"
    by (auto simp: word_le_nat_alt word_less_nat_alt)
  also have "\<dots> \<longleftrightarrow> a = b"
    using \<open>unat a = 4096 * x\<close> \<open>unat b = 4096 * y\<close> by (auto simp: word_unat_eq_iff)
  finally show ?thesis .
qed

lemma region_addresses_covers:
  assumes "is_multiple_of (pl_base p) PAGE" "is_multiple_of a PAGE" "pl_base p < pl_base p + span p"
    "loadable p" "\<not> is_mmio p"
  shows "a \<in> set (region_addresses p) \<longleftrightarrow> covers p a"
proof (cases "pl_fill p")
  case (Measured data)
  then have "a \<in> set (region_addresses p) \<longleftrightarrow> a \<in> fst ` set (pages (pl_base p) data)"
    by (simp add: region_addresses_def)
  also have "\<dots> \<longleftrightarrow> pl_base p \<le> a \<and> a < pl_base p + fill_span (Measured data)"
    using Measured assms by (intro pages_addresses) (auto simp: loadable_def span_def)
  finally show ?thesis using Measured by (simp add: covers_def span_def)
next
  case Host
  then show ?thesis
    using page_of_host [OF assms(1,2)] assms(3)
    by (auto simp: region_addresses_def covers_def span_def fill_span_def)
next
  case (Mmio n)
  then show ?thesis using assms(5) by (simp add: is_mmio_def)
qed

lemma region_addresses_aligned:
  "is_multiple_of (pl_base p) PAGE \<Longrightarrow> a \<in> set (region_addresses p) \<Longrightarrow> is_multiple_of a PAGE"
  by (auto simp: region_addresses_def intro: pages_aligned split: fill.splits)

lemma region_addresses_ascend:
  assumes "pl_base p < pl_base p + span p" "loadable p"
  shows "sorted_wrt (<) (region_addresses p)"
proof (cases "pl_fill p")
  case (Measured data)
  with assms have d: "vec_len_ok data" "data \<noteq> []"
    "pl_base p \<le> pl_base p + fill_span (Measured data)"
    by (auto simp: loadable_def span_def)
  have "sorted_wrt (<) (map (\<lambda>i. pl_base p + of_nat i * PAGE) [0..<page_count data])"
    unfolding sorted_wrt_map
    by (rule sorted_wrt_mono_rel [OF _ sorted_wrt_upt])
      (simp add: word_less_nat_alt unat_page_address [OF d])
  then show ?thesis using Measured by (simp add: region_addresses_def map_fst_pages)
qed (simp_all add: region_addresses_def)

section \<open>Every page is loaded once, accepted, or in an aperture\<close>

definition apertures_cover :: "placed list \<Rightarrow> u64 \<Rightarrow> bool" where
  "apertures_cover ps a \<longleftrightarrow> (\<exists>p\<in>set ps. is_mmio p \<and> covers p a)"

definition accepted :: "(u64 \<times> u64) list \<Rightarrow> u64 \<Rightarrow> bool" where
  "accepted rs a \<longleftrightarrow> (\<exists>r\<in>set rs. in_range a r)"

lemma loaded_iff_covered:
  assumes "well_placed ps memory" "proper ps" "\<forall>p\<in>set ps. loadable p" "is_multiple_of a PAGE"
  shows "a \<in> set (loaded_addresses ps) \<longleftrightarrow> (\<exists>p\<in>set ps. \<not> is_mmio p \<and> covers p a)"
proof -
  have "a \<in> set (region_addresses p) \<longleftrightarrow> \<not> is_mmio p \<and> covers p a" if p: "p \<in> set ps" for p
  proof (cases "is_mmio p")
    case True
    then show ?thesis by (auto simp: is_mmio_def region_addresses_def split: fill.splits)
  next
    case False
    with p assms show ?thesis
      by (subst region_addresses_covers) (auto simp: well_placed_def proper_region)
  qed
  then show ?thesis by (auto simp: loaded_addresses_def)
qed

lemma covers_unique:
  assumes "well_placed ps memory" "p \<in> set ps" "q \<in> set ps" "covers p a" "covers q a"
  shows "p = q"
proof (rule ccontr)
  assume "p \<noteq> q"
  then have "pl_base p \<noteq> pl_base q"
    using assms(1-3) by (auto simp: well_placed_def distinct_map dest: inj_onD)
  then have "region_end p \<le> pl_base q \<or> region_end q \<le> pl_base p"
    using assms(1-3) by (meson linorder_neqE well_placed_def)
  then show False
    using assms(4,5) by (auto simp: covers_def region_end_def dest: order.strict_trans2 leD)
qed

text \<open>Where only the apertures are absent from the E820 map, it is silent exactly there.\<close>

lemma region_type_None_iff:
  assumes "well_placed ps memory" "\<forall>q\<in>set ps. is_mmio q \<longleftrightarrow> pl_e820 q = ABSENT" "a < memory"
  shows "region_type ps memory a = None \<longleftrightarrow> apertures_cover ps a"
proof (cases "find (\<lambda>q. covers q a) ps")
  case None
  then have "region_type ps memory a = Some RAM"
    using assms(3) by (simp add: region_type_def not_le)
  moreover have "\<not> apertures_cover ps a"
    using None by (auto simp: find_None_iff apertures_cover_def)
  ultimately show ?thesis by simp
next
  case (Some q)
  then have q: "q \<in> set ps" "covers q a" by (auto simp: find_Some_iff)
  then have "apertures_cover ps a \<longleftrightarrow> is_mmio q"
    using covers_unique [OF assms(1)] unfolding apertures_cover_def by blast
  moreover have "is_mmio q \<longleftrightarrow> pl_e820 q = ABSENT" using assms(2) q(1) by blast
  ultimately show ?thesis using Some assms(3) by (simp add: region_type_def not_le)
qed

lemma memory_partition:
  assumes "well_placed ps memory" "proper ps" "\<forall>p\<in>set ps. loadable p"
    "is_multiple_of a PAGE" "a < memory"
  shows "(a \<in> set (loaded_addresses ps) \<or> accepted (accept_ranges ps memory) a \<or> apertures_cover ps a) \<and>
    \<not> (a \<in> set (loaded_addresses ps) \<and> accepted (accept_ranges ps memory) a) \<and>
    \<not> (a \<in> set (loaded_addresses ps) \<and> apertures_cover ps a) \<and>
    \<not> (accepted (accept_ranges ps memory) a \<and> apertures_cover ps a)"
proof -
  have l: "a \<in> set (loaded_addresses ps) \<longleftrightarrow> (\<exists>p\<in>set ps. \<not> is_mmio p \<and> covers p a)"
    by (rule loaded_iff_covered [OF assms(1-4)])
  have c: "accepted (accept_ranges ps memory) a \<longleftrightarrow> (\<forall>p\<in>set ps. \<not> covers p a)"
    using assms(5) by (simp add: accepted_def accept_ranges_mem)
  have "\<not> (\<exists>p\<in>set ps. \<not> is_mmio p \<and> covers p a) \<or> \<not> apertures_cover ps a"
    using covers_unique [OF assms(1)] by (auto simp: apertures_cover_def)
  with l c show ?thesis by (auto simp: apertures_cover_def)
qed

section \<open>In ascending order\<close>

text \<open>Two different pages are a page apart.\<close>

lemma page_after:
  assumes "is_multiple_of a PAGE" "is_multiple_of b PAGE" "a < b"
  shows "a + PAGE \<le> b"
proof -
  from assms have step: "unat a + 4096 \<le> unat b"
    by (auto simp: PAGE_aligned_iff word_less_nat_alt elim!: dvdE)
  then have "unat (a + PAGE) = unat a + 4096"
    using unat_u64_less [of b] by (subst unat_add_noov) simp_all
  with step show ?thesis by (simp add: word_le_nat_alt)
qed

lemma windows2_sorted: "sorted_wrt P xs \<Longrightarrow> (v, w) \<in> set (windows2 xs) \<Longrightarrow> P v w"
  by (induction xs rule: induct_list012) auto

lemma sorted_wrt_concat:
  assumes "\<forall>xs\<in>set xss. sorted_wrt (<) xs"
    "sorted_wrt (\<lambda>xs ys. \<forall>x\<in>set xs. \<forall>y\<in>set ys. x < y) xss"
  shows "sorted_wrt (<) (concat xss)"
  using assms by (induction xss) (auto simp: sorted_wrt_append)

lemma region_addresses_range:
  assumes "is_multiple_of (pl_base p) PAGE" "pl_base p < pl_base p + span p" "loadable p"
    "a \<in> set (region_addresses p)"
  shows "pl_base p \<le> a \<and> a < region_end p"
proof -
  have "\<not> is_mmio p" using assms(4) by (auto simp: is_mmio_def region_addresses_def split: fill.splits)
  then have "covers p a"
    using assms region_addresses_covers region_addresses_aligned by blast
  then show ?thesis by (simp add: covers_def region_end_def)
qed

lemma loaded_ascending:
  assumes "well_placed ps memory" "proper ps" "\<forall>p\<in>set ps. loadable p" "sorted (map pl_base ps)"
  shows "sorted_wrt (<) (loaded_addresses ps)"
  unfolding loaded_addresses_def
proof (rule sorted_wrt_concat)
  show "\<forall>xs\<in>set (map region_addresses ps). sorted_wrt (<) xs"
    using assms(2,3) by (auto intro: region_addresses_ascend simp: proper_region)
  have "sorted_wrt (\<lambda>p q. pl_base p < pl_base q) ps"
  proof -
    have "sorted_wrt (<) (map pl_base ps)"
      using assms(1,4) by (simp add: strict_sorted_iff well_placed_def)
    then show ?thesis by (simp add: sorted_wrt_map)
  qed
  then have "sorted_wrt (\<lambda>p q. \<forall>x\<in>set (region_addresses p). \<forall>y\<in>set (region_addresses q). x < y) ps"
  proof (rule sorted_wrt_mono_rel [rotated])
    fix p q assume pq: "p \<in> set ps" "q \<in> set ps" "pl_base p < pl_base q"
    then have "region_end p \<le> pl_base q" using assms(1) by (auto simp: well_placed_def)
    moreover have "is_multiple_of (pl_base p) PAGE" "is_multiple_of (pl_base q) PAGE"
      using assms(1) pq by (auto simp: well_placed_def)
    ultimately show "\<forall>x\<in>set (region_addresses p). \<forall>y\<in>set (region_addresses q). x < y"
      using region_addresses_range assms(2,3) pq proper_region
      by (meson order.strict_trans2 order.trans)
  qed
  then show "sorted_wrt (\<lambda>xs ys. \<forall>x\<in>set xs. \<forall>y\<in>set ys. x < y) (map region_addresses ps)"
    by (simp add: sorted_wrt_map)
qed

text \<open>Sorting a placement by base changes none of the facts about it.\<close>

lemma sort_key_placement:
  "set (sort_key pl_base ps) = set ps"
  "well_placed (sort_key pl_base ps) memory \<longleftrightarrow> well_placed ps memory"
  "proper (sort_key pl_base ps) \<longleftrightarrow> proper ps"
  "sorted (map pl_base (sort_key pl_base ps))"
proof -
  show s: "set (sort_key pl_base ps) = set ps" by simp
  have "distinct (map pl_base (sort_key pl_base ps)) \<longleftrightarrow> distinct (map pl_base ps)"
  proof -
    have "distinct xs \<longleftrightarrow> card (set xs) = length xs" for xs :: "u64 list"
      using card_distinct distinct_card by blast
    then show ?thesis by simp
  qed
  then show "well_placed (sort_key pl_base ps) memory \<longleftrightarrow> well_placed ps memory"
    by (simp add: well_placed_def)
  show "proper (sort_key pl_base ps) \<longleftrightarrow> proper ps" by (simp add: proper_def)
  show "sorted (map pl_base (sort_key pl_base ps))" by simp
qed

end
