(* ===== verification/Shim_Walk.thy ===== *)
theory Shim_Walk
  imports Shim_Data Launch
begin

text \<open>
  The control flow the two shims share (src/src/reset.S and src/src/snp_reset.S): a loop that
  walks one range page by page (\<open>accept_range\<close>, \<open>validate_range\<close>), and the loop around it that
  takes the ranges from the data block (\<open>accept_next\<close>, \<open>validate_next\<close>). What one iteration does
  to a page is a parameter; \<open>range_walk\<close> states what the loops need of it. The ranges come from
  memory, so neither loop need end: both are partial functions, and that they return is proved
  for page-aligned ranges below \<open>MAP_LIMIT\<close>, which is what the builders pack.
\<close>

section \<open>The loops\<close>

text \<open>One iteration moves the cursor (\<open>%r12\<close>) or leaves for the fatal exit.\<close>

datatype 'm step = Advance u64 'm | Die 'm

partial_function (option) walk_range ::
  "(u64 \<Rightarrow> u64 \<Rightarrow> 'm \<Rightarrow> 'm step) \<Rightarrow> u64 \<Rightarrow> u64 \<Rightarrow> 'm \<Rightarrow> ('m + 'm) option" where
  "walk_range step lo hi m =
     (if lo \<ge> hi then Some (Inr m)
      else case step lo hi m of
        Die m' \<Rightarrow> Some (Inl m')
      | Advance lo' m' \<Rightarrow> walk_range step lo' hi m')"

text \<open>How the loop over the data block ends: at the terminator, at the fatal exit, or past the page.\<close>

datatype 'm serve_end = Served 'm | Died 'm | PastPage 'm

partial_function (option) serve_ranges ::
  "(u64 \<Rightarrow> u64 \<Rightarrow> 'm \<Rightarrow> 'm step) \<Rightarrow> bytes \<Rightarrow> nat \<Rightarrow> 'm \<Rightarrow> 'm serve_end option" where
  "serve_ranges step page at m =
     (case next_range page at of
        None \<Rightarrow> Some (PastPage m)
      | Some (lo, hi) \<Rightarrow>
          if lo OR hi = 0 then Some (Served m)
          else Option.bind (walk_range step lo hi m) (\<lambda>r.
            case r of
              Inl m' \<Rightarrow> Some (Died m')
            | Inr m' \<Rightarrow> serve_ranges step page (at + 16) m'))"

section \<open>What an iteration must do\<close>

definition mapped_range :: "u64 \<Rightarrow> u64 \<Rightarrow> bool" where
  "mapped_range lo hi \<longleftrightarrow>
     is_multiple_of lo PAGE \<and> is_multiple_of hi PAGE \<and> lo \<le> hi \<and> hi \<le> MAP_LIMIT"

definition covered_times :: "u64 \<Rightarrow> u64 \<Rightarrow> u64 \<Rightarrow> nat" where
  "covered_times lo hi a = (if lo \<le> a \<and> a < hi then 1 else 0)"

lemma covered_times_empty [simp]: "covered_times lo lo a = 0"
  by (auto simp: covered_times_def)

lemma covered_times_split:
  "lo \<le> mid \<Longrightarrow> mid \<le> hi \<Longrightarrow> covered_times lo mid a + covered_times mid hi a = covered_times lo hi a"
  by (auto simp: covered_times_def)

locale range_walk =
  fixes step :: "u64 \<Rightarrow> u64 \<Rightarrow> 'm \<Rightarrow> 'm step" and touched :: "'m \<Rightarrow> u64 \<Rightarrow> nat"
  assumes advance_cursor: "step lo hi m = Advance lo' m' \<Longrightarrow> mapped_range lo hi \<Longrightarrow> lo < hi \<Longrightarrow>
      lo < lo' \<and> mapped_range lo' hi"
    and advance_touched: "step lo hi m = Advance lo' m' \<Longrightarrow> mapped_range lo hi \<Longrightarrow> lo < hi \<Longrightarrow>
      touched m' a = touched m a + covered_times lo lo' a"
    and die_touched: "step lo hi m = Die m' \<Longrightarrow> mapped_range lo hi \<Longrightarrow> lo < hi \<Longrightarrow>
      touched m' a = touched m a"
begin

lemma walk_range_cases:
  assumes "mapped_range lo hi"
  shows "\<exists>r. walk_range step lo hi m = Some r \<and>
    (case r of
       Inr m' \<Rightarrow> (\<forall>a. touched m' a = touched m a + covered_times lo hi a)
     | Inl m' \<Rightarrow> (\<exists>mid. lo \<le> mid \<and> mid < hi \<and> (\<forall>a. touched m' a = touched m a + covered_times lo mid a)))"
  using assms
proof (induction "unat (hi - lo)" arbitrary: lo m rule: less_induct)
  case less
  show ?case
  proof (cases "lo < hi")
    case False
    with less.prems have "lo = hi" by (simp add: mapped_range_def)
    then show ?thesis by (subst walk_range.simps) simp
  next
    case True
    show ?thesis
    proof (cases "step lo hi m")
      case (Die m')
      then show ?thesis
        using True die_touched [OF Die less.prems True]
        by (subst walk_range.simps) (auto intro!: exI [of _ lo])
    next
      case (Advance lo' m')
      note adv = advance_cursor [OF Advance less.prems True] advance_touched [OF Advance less.prems True]
      then have le: "lo \<le> lo'" "lo' \<le> hi" by (auto simp: mapped_range_def)
      have "unat (hi - lo') < unat (hi - lo)"
        using adv(1) le True by (auto simp: unat_sub word_less_nat_alt word_le_nat_alt)
      from less.hyps [OF this, of m'] adv(1) obtain r where
        r: "walk_range step lo' hi m' = Some r" and
        c: "case r of
           Inr m'' \<Rightarrow> (\<forall>a. touched m'' a = touched m' a + covered_times lo' hi a)
         | Inl m'' \<Rightarrow> (\<exists>mid. lo' \<le> mid \<and> mid < hi \<and>
             (\<forall>a. touched m'' a = touched m' a + covered_times lo' mid a))"
        by blast
      have w: "walk_range step lo hi m = Some r"
        using True Advance r by (subst walk_range.simps) (simp add: not_le [symmetric])
      show ?thesis
      proof (cases r)
        case (Inr m'')
        with c adv(2) show ?thesis
          using w covered_times_split [OF le] by (simp add: add.assoc)
      next
        case (Inl m'')
        with c obtain mid where mid: "lo' \<le> mid" "mid < hi"
          "\<forall>a. touched m'' a = touched m' a + covered_times lo' mid a" by auto
        then have "\<forall>a. touched m'' a = touched m a + covered_times lo mid a"
          using adv(2) covered_times_split [OF le(1) mid(1)] by (simp add: add.assoc)
        moreover have "lo \<le> mid" using le(1) mid(1) by (rule order.trans)
        ultimately show ?thesis using w Inl mid(2) by auto
      qed
    qed
  qed
qed

lemma walk_range_returns: "mapped_range lo hi \<Longrightarrow> \<exists>r. walk_range step lo hi m = Some r"
  using walk_range_cases by blast

lemma walk_range_touched:
  "mapped_range lo hi \<Longrightarrow> walk_range step lo hi m = Some (Inr m') \<Longrightarrow>
     touched m' a = touched m a + covered_times lo hi a"
  using walk_range_cases [of lo hi m] by auto

text \<open>The loop over the data block: it serves every range in turn, or stops at the first fatal one.\<close>

lemma serve_ranges_cases:
  assumes "shim_ranges page at = Some rs" "\<forall>(lo, hi)\<in>set rs. mapped_range lo hi"
  shows "\<exists>r. serve_ranges step page at m = Some r \<and>
    (case r of
       Served m' \<Rightarrow> (\<forall>a. touched m' a = touched m a + (\<Sum>(lo, hi)\<leftarrow>rs. covered_times lo hi a))
     | Died m' \<Rightarrow> (\<forall>a. touched m' a \<le> touched m a + (\<Sum>(lo, hi)\<leftarrow>rs. covered_times lo hi a))
     | PastPage m' \<Rightarrow> False)"
  using assms
proof (induction rs arbitrary: at m)
  case Nil
  then obtain lo hi where "next_range page at = Some (lo, hi)" "lo OR hi = 0"
    by (subst (asm) shim_ranges.simps) (auto split: option.splits if_splits)
  then show ?case by (subst serve_ranges.simps) simp
next
  case (Cons q rs)
  then obtain lo hi where q: "q = (lo, hi)" "next_range page at = Some (lo, hi)" "lo OR hi \<noteq> 0"
    and rest: "shim_ranges page (at + 16) = Some rs"
    by (subst (asm) shim_ranges.simps) (auto split: option.splits if_splits)
  from Cons.prems(2) q(1) have map: "mapped_range lo hi" by simp
  obtain w where w: "walk_range step lo hi m = Some w"
    and wc: "case w of
       Inr m' \<Rightarrow> (\<forall>a. touched m' a = touched m a + covered_times lo hi a)
     | Inl m' \<Rightarrow> (\<exists>mid. lo \<le> mid \<and> mid < hi \<and> (\<forall>a. touched m' a = touched m a + covered_times lo mid a))"
    using walk_range_cases [OF map] by blast
  show ?case
  proof (cases w)
    case (Inl m')
    then have "serve_ranges step page at m = Some (Died m')"
      using q w by (subst serve_ranges.simps) simp
    moreover obtain mid where "mid < hi" "\<forall>a. touched m' a = touched m a + covered_times lo mid a"
      using wc Inl by auto
    then have "touched m' a \<le> touched m a + covered_times lo hi a" for a
      by (auto simp: covered_times_def)
    ultimately show ?thesis using q(1) by (auto intro: trans_le_add1 simp flip: add.assoc)
  next
    case (Inr m')
    then have eq: "serve_ranges step page at m = serve_ranges step page (at + 16) m'"
      using q w by (subst serve_ranges.simps) simp
    have t: "touched m' a = touched m a + covered_times lo hi a" for a
      using wc Inr by simp
    from Cons.IH [OF rest, of m'] Cons.prems(2) obtain r where
      r: "serve_ranges step page (at + 16) m' = Some r" and c: "case r of
         Served m'' \<Rightarrow> (\<forall>a. touched m'' a = touched m' a + (\<Sum>(lo, hi)\<leftarrow>rs. covered_times lo hi a))
       | Died m'' \<Rightarrow> (\<forall>a. touched m'' a \<le> touched m' a + (\<Sum>(lo, hi)\<leftarrow>rs. covered_times lo hi a))
       | PastPage m'' \<Rightarrow> False"
      by auto
    show ?thesis
      using eq r c q(1) by (intro exI [of _ r]) (cases r; simp add: t add.assoc)
  qed
qed

end

text \<open>Where no iteration dies, the loops serve everything.\<close>

locale live_walk = range_walk +
  assumes never_dies: "mapped_range lo hi \<Longrightarrow> lo < hi \<Longrightarrow> step lo hi m \<noteq> Die m'"
begin

lemma walk_range_live:
  assumes "mapped_range lo hi"
  shows "\<exists>m'. walk_range step lo hi m = Some (Inr m')"
  using assms
proof (induction "unat (hi - lo)" arbitrary: lo m rule: less_induct)
  case less
  show ?case
  proof (cases "lo < hi")
    case False
    then show ?thesis by (subst walk_range.simps) (simp add: not_less)
  next
    case True
    then obtain lo' m' where adv: "step lo hi m = Advance lo' m'"
      using never_dies less.prems by (metis step.exhaust)
    note c = advance_cursor [OF adv less.prems True]
    then have "unat (hi - lo') < unat (hi - lo)"
      using True by (auto simp: mapped_range_def unat_sub word_less_nat_alt word_le_nat_alt)
    from less.hyps [OF this, of m'] c show ?thesis
      using True adv by (subst walk_range.simps) (simp add: not_le [symmetric])
  qed
qed

lemma serve_ranges_live:
  assumes "shim_ranges page at = Some rs" "\<forall>(lo, hi)\<in>set rs. mapped_range lo hi"
  shows "\<exists>m'. serve_ranges step page at m = Some (Served m')"
  using assms
proof (induction rs arbitrary: at m)
  case Nil
  then obtain lo hi where "next_range page at = Some (lo, hi)" "lo OR hi = 0"
    by (subst (asm) shim_ranges.simps) (auto split: option.splits if_splits)
  then show ?case by (subst serve_ranges.simps) simp
next
  case (Cons q rs)
  then obtain lo hi where q: "q = (lo, hi)" "next_range page at = Some (lo, hi)" "lo OR hi \<noteq> 0"
    and rest: "shim_ranges page (at + 16) = Some rs"
    by (subst (asm) shim_ranges.simps) (auto split: option.splits if_splits)
  obtain m' where "walk_range step lo hi m = Some (Inr m')"
    using walk_range_live Cons.prems(2) q(1) by fastforce
  then show ?case
    using q Cons.IH [OF rest, of m'] Cons.prems(2) by (subst serve_ranges.simps) simp
qed

end

text \<open>Where every death has a reason, a walk that died has one.\<close>

locale refusing_walk = range_walk +
  fixes refused :: "'a \<Rightarrow> bool"
  assumes death_refused: "step lo hi m = Die m' \<Longrightarrow> refused m'"
begin

lemma walk_range_refused:
  assumes "mapped_range lo hi" "walk_range step lo hi m = Some (Inl m')"
  shows "refused m'"
  using assms
proof (induction "unat (hi - lo)" arbitrary: lo m rule: less_induct)
  case less
  have lt: "lo < hi"
    using less.prems(2) by (subst (asm) walk_range.simps) (auto split: if_splits)
  show ?case
  proof (cases "step lo hi m")
    case (Die m'')
    then show ?thesis
      using less.prems(2) lt death_refused [OF Die]
      by (subst (asm) walk_range.simps) (simp add: not_le [symmetric])
  next
    case (Advance lo' m'')
    note c = advance_cursor [OF Advance less.prems(1) lt]
    then have "unat (hi - lo') < unat (hi - lo)"
      using lt by (auto simp: mapped_range_def unat_sub word_less_nat_alt word_le_nat_alt)
    moreover have "walk_range step lo' hi m'' = Some (Inl m')"
      using less.prems(2) lt Advance by (subst (asm) walk_range.simps) (simp add: not_le [symmetric])
    ultimately show ?thesis using less.hyps c by blast
  qed
qed

lemma serve_ranges_refused:
  assumes "shim_ranges page at = Some rs" "\<forall>(lo, hi)\<in>set rs. mapped_range lo hi"
    "serve_ranges step page at m = Some (Died m')"
  shows "refused m'"
  using assms
proof (induction rs arbitrary: at m)
  case Nil
  then obtain lo hi where "next_range page at = Some (lo, hi)" "lo OR hi = 0"
    by (subst (asm) shim_ranges.simps) (auto split: option.splits if_splits)
  then show ?case using Nil.prems(3) by (subst (asm) serve_ranges.simps) simp
next
  case (Cons q rs)
  then obtain lo hi where q: "q = (lo, hi)" "next_range page at = Some (lo, hi)" "lo OR hi \<noteq> 0"
    and rest: "shim_ranges page (at + 16) = Some rs"
    by (subst (asm) shim_ranges.simps) (auto split: option.splits if_splits)
  have mr: "mapped_range lo hi" "\<forall>(lo, hi)\<in>set rs. mapped_range lo hi"
    using Cons.prems(2) q(1) by auto
  obtain r where r: "walk_range step lo hi m = Some r"
    using walk_range_cases [OF mr(1)] by blast
  show ?case
  proof (cases r)
    case (Inl m'')
    then show ?thesis
      using Cons.prems(3) q(2,3) r walk_range_refused [OF mr(1), of m m'']
      by (subst (asm) serve_ranges.simps) simp
  next
    case (Inr m'')
    then have "serve_ranges step page (at + 16) m'' = Some (Died m')"
      using Cons.prems(3) q(2,3) r by (subst (asm) serve_ranges.simps) simp
    then show ?thesis using Cons.IH [OF rest mr(2)] by blast
  qed
qed

end

text \<open>What every iteration keeps, the loops keep.\<close>

definition step_keeps :: "(u64 \<Rightarrow> u64 \<Rightarrow> 'm \<Rightarrow> 'm step) \<Rightarrow> ('m \<Rightarrow> bool) \<Rightarrow> bool" where
  "step_keeps step kept \<longleftrightarrow>
     (\<forall>lo hi m lo' m'. step lo hi m = Advance lo' m' \<longrightarrow> kept m \<longrightarrow> kept m')"

lemma walk_range_keeps:
  assumes "walk_range step lo hi m = Some r"
  shows "step_keeps step kept \<Longrightarrow> kept m \<Longrightarrow> r = Inr m' \<Longrightarrow> kept m'"
  using assms
proof (induction step lo hi m r rule: walk_range.raw_induct [rotated, consumes 1, case_names step])
  case (step walk f lo hi m r)
  show ?case
  proof (cases "hi \<le> lo")
    case True
    then show ?thesis using step.hyps step.prems by simp
  next
    case False
    then obtain lo' m'' where a: "f lo hi m = Advance lo' m''" "walk f lo' hi m'' = Some r"
      using step.hyps step.prems(3) by (auto split: step.splits)
    then have "kept m''" using step.prems(1,2) unfolding step_keeps_def by blast
    from step.IH [OF a(2) step.prems(1) this step.prems(3)] show ?thesis .
  qed
qed

lemma serve_ranges_keeps:
  assumes "serve_ranges step page at m = Some r"
  shows "step_keeps step kept \<Longrightarrow> kept m \<Longrightarrow> r = Served m' \<Longrightarrow> kept m'"
  using assms
proof (induction step page at m r rule: serve_ranges.raw_induct [rotated, consumes 1, case_names step])
  case (step serve f page at m r)
  from step.hyps step.prems(3) obtain lo hi where n: "next_range page at = Some (lo, hi)"
    by (auto split: option.splits)
  show ?case
  proof (cases "lo OR hi = 0")
    case True
    then show ?thesis using step.hyps step.prems n by simp
  next
    case False
    then obtain w where w: "walk_range f lo hi m = Some w"
      "(case w of Inl m' \<Rightarrow> Some (Died m') | Inr m' \<Rightarrow> serve f page (at + 16) m') = Some r"
      using step.hyps n by (auto simp: bind_eq_Some_conv)
    with step.prems(3) obtain m'' where a: "walk_range f lo hi m = Some (Inr m'')"
      "serve f page (at + 16) m'' = Some r"
      by (cases w) auto
    have "kept m''" by (rule walk_range_keeps [OF a(1) step.prems(1,2) refl])
    from step.IH [OF a(2) step.prems(1) this step.prems(3)] show ?thesis .
  qed
qed

section \<open>The ranges the builders pack\<close>

lemma covered_times_ascending:
  assumes "ascending rs"
  shows "(\<Sum>(lo, hi)\<leftarrow>rs. covered_times lo hi a) = (if accepted rs a then 1 else 0)"
  using assms
proof (induction rs)
  case Nil
  then show ?case by (simp add: accepted_def)
next
  case (Cons r rs)
  obtain lo hi where r: "r = (lo, hi)" by (cases r)
  from Cons.prems have asc: "ascending rs" and above: "\<forall>s\<in>set rs. hi \<le> fst s"
    by (auto simp: ascending_Cons r)
  have "\<not> (in_range a (lo, hi) \<and> accepted rs a)"
    using above by (force simp: accepted_def in_range_def)
  then show ?case
    using Cons.IH [OF asc] by (auto simp: r accepted_def covered_times_def)
qed

lemma accept_ranges_mapped:
  assumes "aligned ps" "is_multiple_of memory PAGE" "memory \<le> MAP_LIMIT"
  shows "\<forall>(lo, hi)\<in>set (accept_ranges ps memory). mapped_range lo hi"
  using accept_ranges_aligned [OF assms(1,2)] accept_ranges_bounds assms(3)
  by (fastforce simp: mapped_range_def)

end
