(* ===== verification/Tdx_Build.thy ===== *)
theory Tdx_Build
  imports Shim_Data Launch
begin

text \<open>
  The TDX builder as a whole (\<open>image::build\<close>): the finished map, what is loaded, what is
  published and what happens to the file system.
\<close>

section \<open>The finished map\<close>

text \<open>The map of \<open>tdx_regions\<close> with the contents of its zero page and shim page.\<close>

definition tdx_finished ::
  "params \<Rightarrow> prepared \<Rightarrow> bytes \<Rightarrow> bytes \<Rightarrow> bytes \<Rightarrow> bytes \<Rightarrow> bytes \<Rightarrow> placed list" where
  "tdx_finished params p acpi tables stack zero shim_page =
     [placed_measured ZERO_PAGE [] RESERVED zero,
      placed_measured CMDLINE (lit ''command_line'') RESERVED (pr_command p),
      placed_measured ACPI_BASE (lit ''acpi'') ACPI acpi,
      placed_measured MAILBOX [] RESERVED (replicate (unat PAGE) 0),
      placed_measured PAGE_TABLES [] RESERVED tables,
      placed_measured BSP_STACK [] RESERVED stack,
      placed_measured KERNEL_SETUP_BASE (lit ''kernel_setup'') RESERVED (pr_setup p),
      placed_measured KERNEL_BASE (lit ''kernel'') RAM (pr_kernel p),
      placed_measured INITRAMFS_BASE (lit ''initramfs'') RAM (pr_initramfs p),
      placed_measured RESET_ALIAS (lit ''shim'') RESERVED shim_page]
     @ map (\<lambda>(b, n). placed_mmio b n) (p_mmio params)"

lemma tdx_regions_finished:
  "tdx_regions params p acpi tables stack =
     tdx_finished params p acpi tables stack (replicate (unat PAGE) 0) (replicate (unat PAGE) 0)"
  by (simp add: tdx_regions_def tdx_finished_def)

lemma one_page_span: "length d = 4096 \<Longrightarrow> fill_span (Measured d) = PAGE"
  by (simp add: fill_span_def align_up_def div_ceil_def PAGE_def)

lemma fill_zero_page:
  assumes "length zero = 4096" "length z = 4096"
  shows "fill_region (tdx_finished params p acpi tables stack z s) ZERO_PAGE zero =
    Inr (tdx_finished params p acpi tables stack zero s)"
  using assms by (simp add: tdx_finished_def placed_measured_def span_def one_page_span Let_def)

lemma fill_shim_page:
  assumes "length shim_page = 4096" "length s = 4096"
  shows "fill_region (tdx_finished params p acpi tables stack z s) RESET_ALIAS shim_page =
    Inr (tdx_finished params p acpi tables stack z shim_page)"
  using assms
  by (simp add: tdx_finished_def placed_measured_def span_def one_page_span Let_def layout_consts)

text \<open>The spans of the fixed regions, all but the payload and the initramfs known in advance.\<close>

lemma fixed_spans:
  "length d = 8192 \<Longrightarrow> fill_span (Measured d) = 0x2000"
  "length d = 65536 \<Longrightarrow> fill_span (Measured d) = 0x10000"
  "length d = 0x2f000 \<Longrightarrow> fill_span (Measured d) = 0x2f000"
  by (simp_all add: fill_span_def align_up_def div_ceil_def PAGE_def)

lemma fixed_lengths:
  "cpus \<le> MAX_VCPUS \<Longrightarrow> acpi_build cpus wakeup = Some acpi \<Longrightarrow> length acpi = 4096"
  "identity_map c_bit shared = Some tables \<Longrightarrow> length tables = (if shared then 12288 else 8192)"
  "gdt_stack = Some stack \<Longrightarrow> length stack = 65536"
proof -
  assume "cpus \<le> MAX_VCPUS" "acpi_build cpus wakeup = Some acpi"
  then show "length acpi = 4096"
    using acpi_build_ok [of cpus wakeup] by (auto simp: acpi_page_ok_def)
next
  assume "identity_map c_bit shared = Some tables"
  then show "length tables = (if shared then 12288 else 8192)"
    using identity_map_entries [of c_bit shared] by auto
next
  assume "gdt_stack = Some stack"
  moreover obtain v where "gdt_stack = Some v" "length v = unat BSP_STACK_SIZE"
    using gdt_stack_contents by blast
  moreover have "unat BSP_STACK_SIZE = 65536" by (simp add: BSP_STACK_SIZE_def)
  ultimately show "length stack = 65536" by (metis option.inject)
qed

definition tdx_measured_parts :: "params \<Rightarrow> bytes \<Rightarrow> bytes \<Rightarrow> bytes \<Rightarrow> bool" where
  "tdx_measured_parts params acpi tables stack \<longleftrightarrow>
     acpi_build (p_vcpus params) True = Some acpi \<and> identity_map 0 False = Some tables \<and>
     gdt_stack = Some stack"

lemma tdx_measured_parts_exist:
  assumes "p_vcpus params \<le> MAX_VCPUS"
  obtains acpi tables stack where "tdx_measured_parts params acpi tables stack"
  using acpi_build_ok [OF assms, of True] identity_map_entries [of 0 False] gdt_stack_contents
  unfolding tdx_measured_parts_def by blast

lemma zero_page_length:
  assumes "length setup = 0x2f000" "zero_page setup info il rsdp emap sd = Inr page"
  shows "length page = 4096"
proof -
  have "0x290 \<le> length setup" using assms(1) by simp
  from zero_page_fields [OF this assms(2)] show ?thesis by blast
qed

lemma shim_length:
  assumes "length blob = 4096" "shim blob entry rs = Inr page"
  shows "length page = 4096"
  using assms(2) unfolding shim_Inr_iff [OF assms(1)] by (simp add: assms(1))

lemma tdx_placeE:
  assumes "tdx_place ex params p = Inr (placed, owned)"
    "p_vcpus params \<le> MAX_VCPUS" "length (pr_setup p) = 0x2f000" "length (ex_reset_shim ex) = 4096"
  obtains acpi tables stack zero shim_page where
    "tdx_measured_parts params acpi tables stack"
    "placed = tdx_finished params p acpi tables stack zero shim_page"
    "length zero = 4096" "length shim_page = 4096"
    "validate placed (p_memory params) = Inr ()"
    "zero_page (pr_setup p) (pr_info p) (length (pr_initramfs p)) ACPI_BASE
       (e820 placed (p_memory params)) 0 = Inr zero"
    "shim (ex_reset_shim ex) (pr_entry p) (accept_ranges placed (p_memory params)) = Inr shim_page"
    "shim_owned placed = Inr owned"
proof -
  obtain acpi tables stack where parts: "tdx_measured_parts params acpi tables stack"
    using tdx_measured_parts_exist [OF assms(2)] .
  let ?z = "replicate (unat PAGE) (0 :: u8)"
  let ?m = "tdx_finished params p acpi tables stack"
  from parts have eqs: "acpi_build (p_vcpus params) True = Some acpi"
    "identity_map 0 False = Some tables" "gdt_stack = Some stack"
    by (simp_all add: tdx_measured_parts_def)
  obtain zero p1 shim_page where
    v: "validate (?m ?z ?z) (p_memory params) = Inr ()"
    and zero: "zero_page (pr_setup p) (pr_info p) (length (pr_initramfs p)) ACPI_BASE
       (e820 (?m ?z ?z) (p_memory params)) 0 = Inr zero"
    and f1: "fill_region (?m ?z ?z) ZERO_PAGE zero = Inr p1"
    and shim: "shim (ex_reset_shim ex) (pr_entry p) (accept_ranges p1 (p_memory params))
       = Inr shim_page"
    and f2: "fill_region p1 RESET_ALIAS shim_page = Inr placed"
    and owned: "shim_owned placed = Inr owned"
    using assms(1) unfolding tdx_place_def eqs tdx_regions_finished Let_def
      or_error.simps bind_result.simps bind_result_Inr_conv sum.inject prod.inject
    by auto
  have lz: "length zero = 4096" by (rule zero_page_length [OF assms(3) zero])
  have ls: "length shim_page = 4096" by (rule shim_length [OF assms(4) shim])
  have p1: "p1 = ?m zero ?z" using f1 fill_zero_page [OF lz, of ?z] by simp
  have placed: "placed = ?m zero shim_page" using f2 fill_shim_page [OF ls, of ?z] by (simp add: p1)
  have same: "map span_of placed = map span_of (?m ?z ?z)"
    using fill_region_spans [OF f1] fill_region_spans [OF f2] by simp
  have views: "e820 placed m = e820 (?m ?z ?z) m" "accept_ranges placed m = accept_ranges p1 m" for m
    using fill_region_views [OF f1] fill_region_views [OF f2] by simp_all
  have "validate placed (p_memory params) = Inr ()"
  proof -
    have "map pl_base placed = map (fst \<circ> span_of) placed" by (simp add: span_of_def comp_def)
    also have "\<dots> = map (fst \<circ> span_of) (?m ?z ?z)"
      using arg_cong [OF same, of "map fst"] by simp
    finally have "map pl_base placed = map pl_base (?m ?z ?z)" by (simp add: span_of_def comp_def)
    then have "set (map pl_base placed) = set (map pl_base (?m ?z ?z))" by metis
    then have "pl_base ` set placed = pl_base ` set (?m ?z ?z)" by simp
    moreover have "spans placed = spans (?m ?z ?z)" using same by (simp add: spans_def)
    ultimately show ?thesis
      using v unfolding validate_Inr_iff by (metis (no_types, lifting) imageE imageI)
  qed
  then show thesis
    using that parts placed lz ls zero shim owned views by metis
qed

section \<open>The map is proper\<close>

definition apertures_ok :: "params \<Rightarrow> bool" where
  "apertures_ok params \<longleftrightarrow> (\<forall>(b, n)\<in>set (p_mmio params). b < b + n)"

lemma measured_proper:
  assumes "vec_len_ok d" "unat b \<le> 2 ^ 62"
  shows "b < b + fill_span (Measured d)"
proof -
  let ?s = "unat (fill_span (Measured d))"
  have s: "0 < ?s \<and> ?s \<le> 2 ^ 63 + 4096"
  proof (cases "d = []")
    case True
    then show ?thesis by (simp add: fill_span_def align_up_def div_ceil_def PAGE_def)
  next
    case False
    have "(length d + 4095) div 4096 * 4096 \<le> length d + 4095"
      by (rule div_times_less_eq_dividend)
    moreover have "1 \<le> page_count d" using False by (cases d) (auto simp: Suc_le_eq div_greater_zero_iff)
    moreover have "?s = page_count d * 4096" by (rule unat_measured_span [OF assms(1) False])
    ultimately show ?thesis using assms(1) by (simp add: vec_len_ok_def)
  qed
  have "unat (b + fill_span (Measured d)) = unat b + ?s"
    using s assms(2) by (subst unat_add_noov) simp_all
  then show ?thesis using s by (simp add: word_less_nat_alt)
qed

text \<open>What the builder knows of its inputs once \<open>prepare\<close> and \<open>Params\<close> accepted them.\<close>

definition sized :: "params \<Rightarrow> prepared \<Rightarrow> bool" where
  "sized params p \<longleftrightarrow>
     p_vcpus params \<le> MAX_VCPUS \<and> length (pr_setup p) = 0x2f000 \<and> length (pr_command p) = 4096 \<and>
     pr_kernel p \<noteq> [] \<and> vec_len_ok (pr_kernel p) \<and> vec_len_ok (pr_initramfs p)"

lemma prepared_sized:
  assumes "prepare_inputs kernel_file initramfs params = Inr p" "p_vcpus params \<le> MAX_VCPUS"
    "vec_len_ok kernel_file" "vec_len_ok initramfs"
  shows "sized params p"
  using prepare_inputs_shape [OF assms(1)] assms(2-4)
  by (simp add: sized_def vec_len_ok_def)

lemma tdx_finished_members:
  "set (tdx_finished params p acpi tables stack zero shim_page) =
     {placed_measured ZERO_PAGE [] RESERVED zero,
      placed_measured CMDLINE (lit ''command_line'') RESERVED (pr_command p),
      placed_measured ACPI_BASE (lit ''acpi'') ACPI acpi,
      placed_measured MAILBOX [] RESERVED (replicate (unat PAGE) 0),
      placed_measured PAGE_TABLES [] RESERVED tables,
      placed_measured BSP_STACK [] RESERVED stack,
      placed_measured KERNEL_SETUP_BASE (lit ''kernel_setup'') RESERVED (pr_setup p),
      placed_measured KERNEL_BASE (lit ''kernel'') RAM (pr_kernel p),
      placed_measured INITRAMFS_BASE (lit ''initramfs'') RAM (pr_initramfs p),
      placed_measured RESET_ALIAS (lit ''shim'') RESERVED shim_page}
     \<union> (\<lambda>(b, n). placed_mmio b n) ` set (p_mmio params)"
  by (simp add: tdx_finished_def)

lemma placed_simps [simp]:
  "pl_base (placed_measured b name k d) = b" "pl_fill (placed_measured b name k d) = Measured d"
  "pl_name (placed_measured b name k d) = name" "pl_e820 (placed_measured b name k d) = k"
  "span (placed_measured b name k d) = fill_span (Measured d)"
  "pl_base (placed_mmio b n) = b" "pl_fill (placed_mmio b n) = Mmio n" "span (placed_mmio b n) = n"
  "pl_name (placed_mmio b n) = []" "pl_e820 (placed_mmio b n) = ABSENT"
  "pl_base (placed_host b) = b" "pl_fill (placed_host b) = Host" "span (placed_host b) = PAGE"
  "pl_name (placed_host b) = []" "pl_e820 (placed_host b) = RESERVED"
  "placed_data (placed_measured b name k d) = d"
  by (simp_all add: placed_measured_def placed_mmio_def placed_host_def span_def fill_span_def
      placed_data_def)

lemma measured_region_proper:
  "vec_len_ok d \<Longrightarrow> unat b \<le> 4611686018427387904 \<Longrightarrow>
     b < region_end (placed_measured b name k d)"
  by (simp add: region_end_def measured_proper)

text \<open>The parts of a finished map that are one page each, or as long as their constants say.\<close>

definition fixed_parts :: "bytes \<Rightarrow> bytes \<Rightarrow> bytes \<Rightarrow> bytes \<Rightarrow> bytes \<Rightarrow> bool" where
  "fixed_parts acpi tables stack zero shim_page \<longleftrightarrow>
     length acpi = 4096 \<and> length tables = 8192 \<and> length stack = 65536 \<and> length zero = 4096 \<and>
     length shim_page = 4096"

lemma tdx_finished_proper:
  assumes "sized params p" "fixed_parts acpi tables stack zero shim_page" "apertures_ok params"
  shows "proper (tdx_finished params p acpi tables stack zero shim_page)"
proof -
  have v: "length d < 100000 * 100000 \<Longrightarrow> vec_len_ok d" for d :: bytes
    by (simp add: vec_len_ok_def)
  have b: "unat ZERO_PAGE \<le> 2 ^ 62" "unat CMDLINE \<le> 2 ^ 62" "unat ACPI_BASE \<le> 2 ^ 62"
    "unat MAILBOX \<le> 2 ^ 62" "unat PAGE_TABLES \<le> 2 ^ 62" "unat BSP_STACK \<le> 2 ^ 62"
    "unat KERNEL_SETUP_BASE \<le> 2 ^ 62" "unat KERNEL_BASE \<le> 2 ^ 62"
    "unat INITRAMFS_BASE \<le> 2 ^ 62" "unat RESET_ALIAS \<le> 2 ^ 62"
    by (simp_all add: layout_consts)
  have "\<forall>q\<in>(\<lambda>(b, n). placed_mmio b n) ` set (p_mmio params). pl_base q < region_end q"
    using assms(3) by (auto simp: apertures_ok_def region_end_def)
  then show ?thesis
    unfolding proper_def tdx_finished_members ball_Un ball_simps
    using assms(1,2) b by (simp add: measured_region_proper v sized_def fixed_parts_def)
qed

lemma tdx_finished_loadable:
  assumes "sized params p" "fixed_parts acpi tables stack zero shim_page" "pr_initramfs p \<noteq> []"
  shows "\<forall>q\<in>set (tdx_finished params p acpi tables stack zero shim_page). loadable q"
proof -
  have l: "length d = Suc n \<Longrightarrow> Suc n < 100000 * 100000 \<Longrightarrow> loadable (placed_measured b name k d)"
    for b name k n and d :: bytes
    by (auto simp: loadable_def vec_len_ok_def)
  have "\<forall>q\<in>(\<lambda>(b, n). placed_mmio b n) ` set (p_mmio params). loadable q"
    by (auto simp: loadable_def)
  then show ?thesis
    unfolding tdx_finished_members ball_Un ball_simps
    using assms by (simp add: sized_def fixed_parts_def loadable_def vec_len_ok_def)
      (auto)
qed

lemma tdx_finished_no_host:
  "\<forall>q\<in>set (tdx_finished params p acpi tables stack zero shim_page). pl_fill q \<noteq> Host"
  by (auto simp: tdx_finished_members)

section \<open>What is loaded\<close>

definition region_pages :: "placed \<Rightarrow> (u64 \<times> bytes) list" where
  "region_pages p = (case pl_fill p of Measured data \<Rightarrow> pages (pl_base p) data | _ \<Rightarrow> [])"

lemma launch_pages_eq:
  "\<forall>q\<in>set ps. pl_fill q \<noteq> Host \<Longrightarrow> launch_pages ps = Inr (concat (map region_pages ps))"
  by (induction ps rule: launch_pages.induct) (auto simp: region_pages_def split: fill.splits)

lemma launch_pages_addresses:
  assumes "launch_pages ps = Inr pgs"
  shows "map fst pgs = loaded_addresses ps \<and> (\<forall>q\<in>set pgs. whole_page q) \<and>
    pgs = concat (map region_pages ps)"
  using assms
proof (induction ps arbitrary: pgs rule: launch_pages.induct)
  case 1
  then show ?case by (simp add: loaded_addresses_def)
next
  case (2 region rest)
  show ?case
  proof (cases "pl_fill region")
    case (Measured data)
    with "2.prems" obtain out where out: "launch_pages rest = Inr out"
      "pgs = pages (pl_base region) data @ out"
      by (auto simp: bind_result_Inr_conv)
    from "2.IH"(1) [OF Measured out(1)] Measured out(2) show ?thesis
      by (auto simp: loaded_addresses_def region_addresses_def region_pages_def whole_page_def
          dest: pages_page_length)
  next
    case Host
    with "2.prems" show ?thesis by simp
  next
    case (Mmio n)
    then have "loaded_addresses (region # rest) = loaded_addresses rest" "region_pages region = []"
      by (simp_all add: loaded_addresses_def region_addresses_def region_pages_def)
    moreover have "launch_pages rest = Inr pgs" using "2.prems" Mmio by simp
    ultimately show ?thesis
      using "2.IH"(2) [OF Mmio] by (metis append.left_neutral concat.simps(2) list.simps(9))
  qed
qed

lemma one_page: "length d = 4096 \<Longrightarrow> pages b d = [(b, d)]"
  by (simp add: pages_def chunks.simps blit_def) (cases d; simp add: chunks.simps blit_def)

text \<open>Exactly one of three.\<close>

definition exactly_one :: "bool \<Rightarrow> bool \<Rightarrow> bool \<Rightarrow> bool" where
  "exactly_one a b c \<longleftrightarrow> (a \<or> b \<or> c) \<and> \<not> (a \<and> b) \<and> \<not> (a \<and> c) \<and> \<not> (b \<and> c)"

definition in_aperture :: "params \<Rightarrow> u64 \<Rightarrow> bool" where
  "in_aperture params a \<longleftrightarrow> (\<exists>(b, n)\<in>set (p_mmio params). b \<le> a \<and> a < b + n)"

lemma tdx_apertures:
  "apertures_cover (tdx_finished params p acpi tables stack zero shim_page) a \<longleftrightarrow>
     in_aperture params a"
proof -
  let ?m = "tdx_finished params p acpi tables stack zero shim_page"
  have "(\<exists>q\<in>set ?m. is_mmio q \<and> covers q a) \<longleftrightarrow>
      (\<exists>q\<in>(\<lambda>(b, n). placed_mmio b n) ` set (p_mmio params). is_mmio q \<and> covers q a)"
    unfolding tdx_finished_members bex_Un by (simp add: is_mmio_def)
  also have "\<dots> \<longleftrightarrow> in_aperture params a"
    by (simp add: in_aperture_def is_mmio_def covers_def split_beta)
  finally show ?thesis by (simp add: apertures_cover_def)
qed

text \<open>Everything later proofs use of a map the builder finished.\<close>

definition tdx_launch_facts :: "('f, 'k) externs \<Rightarrow> params \<Rightarrow> prepared \<Rightarrow> placed list \<Rightarrow> bool" where
  "tdx_launch_facts ex params p placed \<longleftrightarrow>
     validate placed (p_memory params) = Inr () \<and> proper placed \<and>
     (\<forall>a. apertures_cover placed a \<longleftrightarrow> in_aperture params a) \<and>
     (\<forall>q\<in>set placed. pl_fill q \<noteq> Host) \<and>
     (\<exists>q\<in>set placed. pl_base q = INITRAMFS_BASE \<and> pl_fill q = Measured (pr_initramfs p) \<and>
        pl_e820 q = RAM) \<and>
     (pr_initramfs p \<noteq> [] \<longrightarrow> (\<forall>q\<in>set placed. loadable q)) \<and>
     (\<forall>q\<in>set placed. pl_base q \<noteq> INITRAMFS_BASE \<longrightarrow> loadable q) \<and>
     (\<exists>shim_page. placed_measured RESET_ALIAS (lit ''shim'') RESERVED shim_page \<in> set placed \<and>
        length shim_page = 4096 \<and>
        shim (ex_reset_shim ex) (pr_entry p) (accept_ranges placed (p_memory params)) = Inr shim_page)"

lemma tdx_place_facts:
  assumes "tdx_place ex params p = Inr (placed, owned)" "sized params p"
    "length (ex_reset_shim ex) = 4096" "apertures_ok params"
  shows "tdx_launch_facts ex params p placed"
proof -
  have "p_vcpus params \<le> MAX_VCPUS" "length (pr_setup p) = 0x2f000"
    using assms(2) by (simp_all add: sized_def)
  note sizes = this
  obtain acpi tables stack zero shim_page where
    parts: "tdx_measured_parts params acpi tables stack"
    and placed: "placed = tdx_finished params p acpi tables stack zero shim_page"
    and len: "length zero = 4096" "length shim_page = 4096"
    and v: "validate placed (p_memory params) = Inr ()"
    and "zero_page (pr_setup p) (pr_info p) (length (pr_initramfs p)) ACPI_BASE
       (e820 placed (p_memory params)) 0 = Inr zero"
    and shim: "shim (ex_reset_shim ex) (pr_entry p) (accept_ranges placed (p_memory params))
      = Inr shim_page"
    and "shim_owned placed = Inr owned"
    by (rule tdx_placeE [OF assms(1) sizes assms(3)]) (rule that)
  have fixed: "fixed_parts acpi tables stack zero shim_page"
    using len fixed_lengths(1) [OF sizes(1), of True acpi]
      fixed_lengths(2) [of 0 False tables] fixed_lengths(3) [of stack] parts
    by (simp add: fixed_parts_def tdx_measured_parts_def)
  have "\<forall>q\<in>set placed. pl_base q \<noteq> INITRAMFS_BASE \<longrightarrow> loadable q"
  proof -
    have s: "sized params (p\<lparr>pr_initramfs := [0]\<rparr>)" using assms(2) by (simp add: sized_def vec_len_ok_def)
    show ?thesis
    proof (intro ballI impI)
      fix q assume q: "q \<in> set placed" "pl_base q \<noteq> INITRAMFS_BASE"
      then have "q \<in> set (tdx_finished params (p\<lparr>pr_initramfs := [0]\<rparr>) acpi tables stack zero shim_page)"
        by (auto simp: placed tdx_finished_members)
      then show "loadable q" using tdx_finished_loadable [OF s fixed] by simp
    qed
  qed
  moreover have "placed_measured INITRAMFS_BASE (lit ''initramfs'') RAM (pr_initramfs p) \<in> set placed"
    "placed_measured RESET_ALIAS (lit ''shim'') RESERVED shim_page \<in> set placed"
    by (simp_all add: placed tdx_finished_members)
  moreover have "\<exists>q\<in>set placed. pl_base q = INITRAMFS_BASE \<and>
      pl_fill q = Measured (pr_initramfs p) \<and> pl_e820 q = RAM"
    by (rule bexI [OF _ calculation(2)]) simp
  moreover have "\<forall>q\<in>set placed. pl_fill q \<noteq> Host"
    unfolding placed by (rule tdx_finished_no_host)
  moreover have "pr_initramfs p \<noteq> [] \<longrightarrow> (\<forall>q\<in>set placed. loadable q)"
    using tdx_finished_loadable [OF assms(2) fixed] placed by blast
  moreover have "proper placed"
    unfolding placed by (rule tdx_finished_proper [OF assms(2) fixed assms(4)])
  moreover have "\<forall>a. apertures_cover placed a \<longleftrightarrow> in_aperture params a"
    unfolding placed by (simp only: tdx_apertures simp_thms)
  ultimately show ?thesis
    unfolding tdx_launch_facts_def using v shim len(2) by blast
qed

end
