(* ===== verification/Tdx_Properties.thy ===== *)
theory Tdx_Properties
  imports Tdx_Build
begin

text \<open>
  What the TDX builder guarantees: when a map can be built, how the memory of the guest is
  divided between the loaded pages, the accept list and the apertures, what is published, and
  that a refused build leaves the file system alone.
\<close>

section \<open>When the map is accepted\<close>

fun chained :: "placed list \<Rightarrow> bool" where
  "chained [] \<longleftrightarrow> True"
| "chained [p] \<longleftrightarrow> True"
| "chained (p # q # ps) \<longleftrightarrow> region_end p \<le> pl_base q \<and> chained (q # ps)"

lemma chained_after:
  assumes "chained (p # ps)" "proper (p # ps)" "q \<in> set ps"
  shows "region_end p \<le> pl_base q"
  using assms
proof (induction ps arbitrary: p)
  case Nil
  then show ?case by simp
next
  case (Cons r rs)
  show ?case
  proof (cases "q = r")
    case True
    then show ?thesis using Cons.prems by simp
  next
    case False
    then have "region_end r \<le> pl_base q"
      using Cons.prems by (intro Cons.IH) (simp_all add: proper_def)
    moreover have "pl_base r < region_end r" "region_end p \<le> pl_base r"
      using Cons.prems by (simp_all add: proper_def)
    ultimately show ?thesis by simp
  qed
qed

lemma chained_disjoint:
  assumes "chained ps" "proper ps"
  shows "distinct (map pl_base ps) \<and>
    (\<forall>p\<in>set ps. \<forall>q\<in>set ps. pl_base p < pl_base q \<longrightarrow> region_end p \<le> pl_base q)"
  using assms
proof (induction ps)
  case Nil
  then show ?case by simp
next
  case (Cons p ps)
  then have "chained ps" "proper ps" by (cases ps; simp add: proper_def)+
  note IH = Cons.IH [OF this]
  have after: "region_end p \<le> pl_base q" "pl_base p < pl_base q" if "q \<in> set ps" for q
    using chained_after [OF Cons.prems that] Cons.prems(2)
    by (auto simp: proper_def dest: order.strict_trans2)
  have "pl_base p \<notin> pl_base ` set ps" using after(2) by fastforce
  then have "distinct (map pl_base (p # ps))" using IH by simp
  moreover have "region_end x \<le> pl_base y"
    if "x \<in> set (p # ps)" "y \<in> set (p # ps)" "pl_base x < pl_base y" for x y
    using that IH after by (metis less_asym less_irrefl set_ConsD)
  ultimately show ?case by blast
qed

lemma kernel_fits_before_initramfs:
  assumes "0x1000000 + length d \<le> 0x20000000"
  shows "region_end (placed_measured KERNEL_BASE name k d) \<le> 0x20000000"
proof (cases "d = []")
  case True
  then show ?thesis
    by (simp add: region_end_def fill_span_def align_up_def div_ceil_def layout_consts)
next
  case False
  have v: "vec_len_ok d" using assms by (simp add: vec_len_ok_def)
  have "page_count d * 4096 \<le> 0x1f000000"
    unfolding ceil_pages_le using assms by simp
  moreover have "unat (region_end (placed_measured KERNEL_BASE name k d)) =
      0x1000000 + page_count d * 4096"
    using unat_region_end [OF v False, of KERNEL_BASE] measured_proper [OF v, of KERNEL_BASE]
    by (simp add: region_end_def KERNEL_BASE_def)
  ultimately show ?thesis by (simp add: word_le_nat_alt)
qed

lemma initramfs_fits_below:
  assumes "0x20000000 + length d \<le> unat m" "4096 dvd unat m" "0x20000000 < unat m"
    "vec_len_ok d"
  shows "region_end (placed_measured INITRAMFS_BASE name k d) \<le> m"
proof (cases "d = []")
  case True
  have "0x20001000 \<le> unat m" using assms(2,3) by (auto elim!: dvdE)
  then show ?thesis
    using True by (simp add: region_end_def fill_span_def align_up_def div_ceil_def layout_consts
        word_le_nat_alt)
next
  case False
  have "page_count d * 4096 + 0x20000000 \<le> unat m"
  proof -
    have "(unat m - 0x20000000) div 4096 * 4096 = unat m - 0x20000000"
      using assms(2) by (intro dvd_div_mult_self dvd_diff_nat) simp_all
    then have "page_count d * 4096 \<le> unat m - 0x20000000"
      unfolding ceil_pages_le using assms(1) by simp
    then show ?thesis using assms(3) by simp
  qed
  moreover have "unat (region_end (placed_measured INITRAMFS_BASE name k d)) =
      0x20000000 + page_count d * 4096"
    using unat_region_end [OF assms(4) False, of INITRAMFS_BASE]
      measured_proper [OF assms(4), of INITRAMFS_BASE]
    by (simp add: region_end_def INITRAMFS_BASE_def)
  ultimately show ?thesis by (simp add: word_le_nat_alt)
qed

text \<open>Without apertures of the user's own, the fixed map is always accepted.\<close>

definition machine_apertures :: "params \<Rightarrow> bool" where
  "machine_apertures params \<longleftrightarrow>
     p_mmio params = [] \<or>
     p_mmio params = [(Q35_LOWMEM, RESET_ALIAS - Q35_LOWMEM)] \<and> FOUR_GIB \<le> p_memory params"

definition contents_fit :: "params \<Rightarrow> prepared \<Rightarrow> bool" where
  "contents_fit params p \<longleftrightarrow>
     0x1000000 + length (pr_kernel p) \<le> 0x20000000 \<and>
     0x20000000 + length (pr_initramfs p) \<le> unat (p_memory params) \<and>
     0x20000000 + length (pr_initramfs p) \<le> (if p_mmio params = [] then 0xfffff000 else 0x80000000) \<and>
     INITRAMFS_BASE < p_memory params \<and> is_multiple_of (p_memory params) PAGE"

lemma tdx_well_placed:
  assumes "sized params p" "fixed_parts acpi tables stack zero shim_page"
    "machine_apertures params" "contents_fit params p"
  shows "well_placed (tdx_finished params p acpi tables stack zero shim_page) (p_memory params)"
proof -
  let ?m = "tdx_finished params p acpi tables stack zero shim_page"
  let ?rest = "map (\<lambda>(b, n). placed_mmio b n) (p_mmio params)"
  have ap: "apertures_ok params"
    using assms(3) by (auto simp: machine_apertures_def apertures_ok_def layout_consts)
  have pm: "proper ?m" by (rule tdx_finished_proper [OF assms(1,2) ap])
  define fixed where "fixed = butlast (take 10 ?m)"
  define reset where "reset = placed_measured RESET_ALIAS (lit ''shim'') RESERVED shim_page"
  define order where "order = fixed @ ?rest @ [reset]"
  have m: "?m = fixed @ reset # ?rest"
    by (simp add: fixed_def reset_def tdx_finished_def)
  have k: "region_end (placed_measured KERNEL_BASE (lit ''kernel'') RAM (pr_kernel p)) \<le> INITRAMFS_BASE"
    using kernel_fits_before_initramfs assms(4) by (simp add: contents_fit_def INITRAMFS_BASE_def)
  have i: "region_end (placed_measured INITRAMFS_BASE (lit ''initramfs'') RAM (pr_initramfs p)) \<le>
      (if p_mmio params = [] then RESET_ALIAS else Q35_LOWMEM)"
    using assms(1,4) by (intro initramfs_fits_below)
      (auto simp: contents_fit_def sized_def RESET_ALIAS_def Q35_LOWMEM_def GIB_def)
  have lens: "length acpi = 4096" "length tables = 8192" "length stack = 65536" "length zero = 4096"
    "length shim_page = 4096" "length (pr_setup p) = 0x2f000" "length (pr_command p) = 4096"
    using assms(1,2) by (simp_all add: fixed_parts_def sized_def)
  have "chained order"
    using assms(3) k i lens
    by (auto simp: order_def fixed_def reset_def tdx_finished_def machine_apertures_def
        region_end_def one_page_span fixed_spans layout_consts)
  moreover have "proper order" using pm by (auto simp: order_def m proper_def)
  ultimately have c: "distinct (map pl_base order)"
    "\<forall>x\<in>set order. \<forall>y\<in>set order. pl_base x < pl_base y \<longrightarrow> region_end x \<le> pl_base y"
    using chained_disjoint by blast+
  have "set order = set ?m" by (auto simp: order_def m)
  moreover have "distinct (map pl_base ?m)" using c(1) by (auto simp: order_def m)
  moreover have "\<forall>q\<in>set ?m. is_multiple_of (pl_base q) PAGE \<and>
      (pl_base q < p_memory params \<or> pl_base q = RESET_ALIAS)"
  proof -
    have mem: "0x20000000 < p_memory params" using assms(4) by (simp add: contents_fit_def INITRAMFS_BASE_def)
    have "b < p_memory params" if "b \<le> 0x20000000" for b
      using that mem by (rule order.strict_trans1)
    then show ?thesis
      using assms(3) order.strict_trans2 [of "0x80000000" "0x100000000" "p_memory params"]
      unfolding tdx_finished_members ball_Un
      by (auto simp: machine_apertures_def layout_consts is_multiple_of_def)
  qed
  ultimately show ?thesis using c(2) by (simp add: well_placed_def)
qed

section \<open>When the map can be built\<close>

lemma length_accept_ranges: "length (accept_ranges ps memory) \<le> length ps + 1"
proof -
  have "length (accept_loop memory at ss) \<le> length ss + 1" for at ss
    by (induction memory at ss rule: accept_loop.induct) auto
  then have "length (accept_loop memory 0 (spans ps)) \<le> length ps + 1"
    by (metis length_map length_sort spans_def)
  then show ?thesis
    unfolding accept_ranges_def by (rule order.trans [OF length_filter_le])
qed

text \<open>A shim page whose data block is blank, as the assembler leaves it.\<close>

definition blank_shim :: "bytes \<Rightarrow> bool" where
  "blank_shim blob \<longleftrightarrow> length blob = 4096 \<and> (\<forall>b\<in>set (take 0x3f0 (drop 0xc00 blob)). b = 0)"

lemma blank_shim_fits:
  assumes "blank_shim blob" "length rs \<le> 61"
  shows "\<exists>page. shim blob entry rs = Inr page"
proof -
  have "take (24 + 16 * length rs) (drop 0xc00 blob) =
      take (24 + 16 * length rs) (take 0x3f0 (drop 0xc00 blob))"
    using assms(2) by (simp add: min_def)
  then have "set (take (24 + 16 * length rs) (drop 0xc00 blob)) \<subseteq> set (take 0x3f0 (drop 0xc00 blob))"
    by (metis set_take_subset)
  then show ?thesis
    using assms by (auto simp: blank_shim_def shim_Inr_iff)
qed

lemma tdx_owned:
  assumes "sized params p" "fixed_parts acpi tables stack zero shim_page"
  shows "shim_owned (tdx_finished params p acpi tables stack zero shim_page) = Inr 0x17000"
proof -
  let ?own = "\<lambda>ps. filter (\<lambda>p. \<not> (case pl_fill p of Mmio _ \<Rightarrow> True | _ \<Rightarrow> False))
    (filter (\<lambda>p. pl_base p < KERNEL_SETUP_BASE \<or> pl_base p = RESET_ALIAS) ps)"
  have "?own (map (\<lambda>(b, n). placed_mmio b n) (p_mmio params)) = []"
    by (auto simp: filter_empty_conv)
  moreover have "length acpi = 4096" "length tables = 8192" "length stack = 65536"
    "length zero = 4096" "length shim_page = 4096" "length (pr_command p) = 4096"
    using assms by (simp_all add: fixed_parts_def sized_def)
  ultimately show ?thesis
    by (simp add: shim_owned_def tdx_finished_def one_page_span fixed_spans layout_consts
        Let_def del: filter_filter)
qed

lemma tdx_place_succeeds:
  assumes "sized params p" "blank_shim (ex_reset_shim ex)" "apertures_ok params"
    "length (p_mmio params) \<le> 50"
    "\<And>acpi tables stack zero shim_page. fixed_parts acpi tables stack zero shim_page \<Longrightarrow>
       well_placed (tdx_finished params p acpi tables stack zero shim_page) (p_memory params)"
  shows "\<exists>placed. tdx_place ex params p = Inr (placed, 0x17000)"
proof -
  have s: "p_vcpus params \<le> MAX_VCPUS" "length (pr_setup p) = 0x2f000"
    using assms(1) by (simp_all add: sized_def)
  obtain acpi tables stack where parts: "tdx_measured_parts params acpi tables stack"
    using tdx_measured_parts_exist [OF s(1)] .
  then have eqs: "acpi_build (p_vcpus params) True = Some acpi"
    "identity_map 0 False = Some tables" "gdt_stack = Some stack"
    by (simp_all add: tdx_measured_parts_def)
  let ?z = "replicate (unat PAGE) (0 :: u8)"
  let ?m = "tdx_finished params p acpi tables stack"
  have fixed: "fixed_parts acpi tables stack z sp" if "length z = 4096" "length sp = 4096" for z sp
    using that fixed_lengths(1) [OF s(1) eqs(1)] fixed_lengths(2) [OF eqs(2)]
      fixed_lengths(3) [OF eqs(3)]
    by (simp add: fixed_parts_def)
  have lz: "length ?z = 4096" by simp
  have v: "validate (?m ?z ?z) (p_memory params) = Inr ()"
    using validate_well_placed [OF tdx_finished_proper [OF assms(1) fixed [OF lz lz] assms(3)]]
      assms(5) [OF fixed [OF lz lz]] by blast
  have lm: "length (?m z sp) \<le> 60" for z sp
    using assms(4) by (simp add: tdx_finished_def)
  have "length (e820 (?m ?z ?z) (p_memory params)) \<le> 128"
    using length_e820 [of "?m ?z ?z" "p_memory params"] lm [of ?z ?z] by simp
  then obtain zero where zero: "zero_page (pr_setup p) (pr_info p) (length (pr_initramfs p)) ACPI_BASE
      (e820 (?m ?z ?z) (p_memory params)) 0 = Inr zero"
    using zero_page_eq [of "pr_setup p"] s(2) by simp
  have l0: "length zero = 4096" by (rule zero_page_length [OF s(2) zero])
  have "length (accept_ranges (?m zero ?z) (p_memory params)) \<le> 61"
    using length_accept_ranges [of "?m zero ?z" "p_memory params"] lm [of zero ?z] by simp
  then obtain page where page: "shim (ex_reset_shim ex) (pr_entry p)
      (accept_ranges (?m zero ?z) (p_memory params)) = Inr page"
    using blank_shim_fits [OF assms(2)] by blast
  have lp: "length page = 4096"
    by (rule shim_length [OF _ page]) (use assms(2) in \<open>simp add: blank_shim_def\<close>)
  have "tdx_place ex params p = Inr (?m zero page, 0x17000)"
    unfolding tdx_place_def eqs or_error.simps bind_result.simps Let_def tdx_regions_finished v zero
      fill_zero_page [OF l0 lz] page fill_shim_page [OF lp lz] tdx_owned [OF assms(1) fixed [OF l0 lp]]
    by (rule refl)
  then show ?thesis by blast
qed

section \<open>The memory of the guest\<close>

lemma tdx_loaded:
  assumes "tdx_launch_facts ex params p placed"
  obtains pgs where "launch_pages (sort_key pl_base placed) = Inr pgs"
    "map fst pgs = loaded_addresses (sort_key pl_base placed)"
    "set (map fst pgs) = set (loaded_addresses placed)"
    "\<forall>q\<in>set pgs. whole_page q"
proof -
  have "\<forall>q\<in>set (sort_key pl_base placed). pl_fill q \<noteq> Host"
    using assms by (simp add: tdx_launch_facts_def)
  then obtain pgs where pgs: "launch_pages (sort_key pl_base placed) = Inr pgs"
    using launch_pages_eq by blast
  then have a: "map fst pgs = loaded_addresses (sort_key pl_base placed)"
    "\<forall>q\<in>set pgs. whole_page q"
    using launch_pages_addresses by blast+
  moreover have "set (loaded_addresses (sort_key pl_base placed)) = set (loaded_addresses placed)"
    by (simp add: loaded_addresses_def)
  ultimately show thesis using that pgs by metis
qed

lemma shim_page_is_loaded:
  assumes "placed_measured RESET_ALIAS (lit ''shim'') RESERVED page \<in> set placed"
    "length page = 4096" "launch_pages (sort_key pl_base placed) = Inr pgs"
  shows "(RESET_ALIAS, page) \<in> set pgs"
proof -
  have "pgs = concat (map region_pages (sort_key pl_base placed))"
    using launch_pages_addresses [OF assms(3)] by blast
  then have "set pgs = (\<Union>q\<in>set placed. set (region_pages q))" by simp
  moreover have "(RESET_ALIAS, page) \<in> set (region_pages (placed_measured RESET_ALIAS (lit ''shim'') RESERVED page))"
    using assms(2) by (simp add: region_pages_def one_page)
  ultimately show ?thesis using assms(1) by blast
qed

lemma tdx_memory_account:
  assumes "tdx_place ex params p = Inr (placed, owned)" "sized params p"
    "length (ex_reset_shim ex) = 4096" "apertures_ok params" "pr_initramfs p \<noteq> []"
  defines "ranges \<equiv> accept_ranges placed (p_memory params)"
  shows "\<exists>pgs page. launch_pages (sort_key pl_base placed) = Inr pgs \<and>
    sorted_wrt (<) (map fst pgs) \<and> (RESET_ALIAS, page) \<in> set pgs \<and>
    shim_entry page = Some (pr_entry p) \<and> shim_ranges page 0xc08 = Some ranges \<and>
    (\<forall>a. is_multiple_of a PAGE \<longrightarrow> a < p_memory params \<longrightarrow>
       exactly_one (a \<in> set (map fst pgs)) (accepted ranges a) (in_aperture params a))"
proof -
  have facts: "tdx_launch_facts ex params p placed"
    by (rule tdx_place_facts [OF assms(1-4)])
  obtain pgs where pgs: "launch_pages (sort_key pl_base placed) = Inr pgs"
    "map fst pgs = loaded_addresses (sort_key pl_base placed)"
    "set (map fst pgs) = set (loaded_addresses placed)"
    using tdx_loaded [OF facts] .
  from facts assms(5) obtain page where
    v: "validate placed (p_memory params) = Inr ()" and wfp: "proper placed"
    and ap: "\<forall>a. apertures_cover placed a \<longleftrightarrow> in_aperture params a"
    and ld: "\<forall>q\<in>set placed. loadable q"
    and page: "placed_measured RESET_ALIAS (lit ''shim'') RESERVED page \<in> set placed"
      "length page = 4096"
      "shim (ex_reset_shim ex) (pr_entry p) (accept_ranges placed (p_memory params)) = Inr page"
    unfolding tdx_launch_facts_def by blast
  have wp: "well_placed placed (p_memory params)"
    using v validate_well_placed [OF wfp] by blast
  let ?rs = "accept_ranges placed (p_memory params)"
  have "\<forall>r\<in>set ?rs. fst r < snd r" using accept_ranges_bounds by fastforce
  note readback = shim_page_contents [OF assms(3) page(3) this]
  have "sorted_wrt (<) (map fst pgs)"
    unfolding pgs(2) using wp wfp ld
    by (intro loaded_ascending [of _ "p_memory params"]) (simp_all add: sort_key_placement)
  moreover have "exactly_one (a \<in> set (map fst pgs)) (accepted ?rs a) (in_aperture params a)"
    if "is_multiple_of a PAGE" "a < p_memory params" for a
    using memory_partition [OF wp wfp ld that] ap pgs(3) by (simp add: exactly_one_def)
  ultimately show ?thesis
    using pgs(1) shim_page_is_loaded [OF page(1,2) pgs(1)] readback unfolding ranges_def by blast
qed

text \<open>The default guest with the stub kernel and a three-byte initramfs.\<close>

fun demo_bytes :: "directive \<Rightarrow> bytes" where
  "demo_bytes (PageData gpa m f t data) = enc_page (gpa, data)"
| "demo_bytes _ = []"

definition demo_page :: "bytes \<Rightarrow> directive" where
  "demo_page c = page_directive (fst (dec_page c)) NORMAL (snd (dec_page c))"

definition demo_externs :: "(directive list, unit) externs" where
  "demo_externs =
     \<lparr>ex_igvm_new = (\<lambda>platforms inits ds. Inr ds),
      ex_igvm_serialize = (\<lambda>ds. Inr (concat (map demo_bytes ds))),
      ex_igvm_parse = (\<lambda>bs. Inr (map demo_page (chunks 6272 bs))),
      ex_directives = (\<lambda>ds. ds),
      ex_platform_version = 1,
      ex_sha256 = (\<lambda>bs. take 32 (bs @ replicate 32 0)),
      ex_sha384 = (\<lambda>bs. take 48 (bs @ replicate 48 0)),
      ex_hex = (\<lambda>bs. concat (map (\<lambda>b. fmt_hex 2 (unat b)) bs)),
      ex_json_tdx = (\<lambda>m. Inr (utf8 (tm_expected_mrtd m))),
      ex_json_snp = (\<lambda>m. Inr (utf8 (sm_expected_snp_measurement m))),
      ex_with_snp = 1,
      ex_vmsa_bytes = (\<lambda>v. le64 (v_rip v)),
      ex_parse_key = (\<lambda>pem. Inr ()),
      ex_sign = (\<lambda>k block. (take 48 block, drop 48 block)),
      ex_point = (\<lambda>k. (Some (replicate 48 1), Some (replicate 48 2))),
      ex_reset_shim = replicate 4096 0,
      ex_snp_shim = replicate 4096 0\<rparr>"

definition demo_prepared :: prepared where
  "demo_prepared = projr (prepare_inputs test_kernel [1, 2, 3] default_params)"

lemma demo_prepared: "prepare_inputs test_kernel [1, 2, 3] default_params = Inr demo_prepared"
  using prepare_test_kernel by (auto simp: demo_prepared_def)

lemma demo_inputs:
  "sized default_params demo_prepared" "blank_shim (ex_reset_shim demo_externs)"
  "apertures_ok default_params" "pr_initramfs demo_prepared = [1, 2, 3]"
  "machine_apertures default_params" "contents_fit default_params demo_prepared"
proof -
  have v: "p_vcpus default_params \<le> MAX_VCPUS" "vec_len_ok test_kernel" "vec_len_ok [1, 2, 3 :: u8]"
    by (simp_all add: default_params_def layout_consts vec_len_ok_def)
  show "sized default_params demo_prepared"
    by (rule prepared_sized [OF demo_prepared v])
  show ini: "pr_initramfs demo_prepared = [1, 2, 3]"
    by (rule prepare_inputs_shape(3) [OF demo_prepared])
  have ker: "length (pr_kernel demo_prepared) = 5632"
    using prepare_inputs_shape(9) [OF demo_prepared] by (simp add: test_kernel_bootable)
  show "blank_shim (ex_reset_shim demo_externs)"
    by (simp add: blank_shim_def demo_externs_def)
  show "apertures_ok default_params" "machine_apertures default_params"
    by (simp_all add: apertures_ok_def machine_apertures_def default_params_def)
  show "contents_fit default_params demo_prepared"
    unfolding contents_fit_def ker ini
    by (simp add: default_params_def layout_consts is_multiple_of_def)
qed

lemma demo_place: "\<exists>placed. tdx_place demo_externs default_params demo_prepared = Inr (placed, 0x17000)"
  by (rule tdx_place_succeeds [OF demo_inputs(1,2,3)])
    (simp add: default_params_def, rule tdx_well_placed [OF demo_inputs(1) _ demo_inputs(5,6)])

text \<open>The one page an empty region covers is loaded by no region.\<close>

lemma empty_region_hides:
  assumes "well_placed ps memory" "proper ps" "\<forall>r\<in>set ps. pl_base r \<noteq> a \<longrightarrow> loadable r"
    "q \<in> set ps" "pl_base q = a" "pl_fill q = Measured []" "r \<in> set ps"
  shows "a \<notin> set (region_addresses r)"
proof (cases "r = q")
  case True
  then show ?thesis using assms(6) by (simp add: region_addresses_def)
next
  case False
  have "covers q a" using proper_region [OF assms(2,4)] assms(5) by (simp add: covers_def)
  then have "\<not> covers r a" using covers_unique [OF assms(1,7,4)] False by blast
  moreover have "inj_on pl_base (set ps)"
    using assms(1) by (simp add: well_placed_def distinct_map)
  then have "pl_base r \<noteq> a" using assms(4,5,7) False by (metis inj_onD)
  moreover have "is_multiple_of (pl_base r) PAGE" using assms(1,7) by (simp add: well_placed_def)
  ultimately show ?thesis
    using region_addresses_range [of r a] proper_region [OF assms(2,7)] assms(3,7)
    by (auto simp: covers_def region_end_def)
qed

text \<open>C33: an empty initramfs, where no aperture wraps around and the memory reaches its address, leaves a
  hole in the account of C1: its region still reserves one page, which
  the E820 map calls RAM, but no page is loaded for it and the shim is not told to accept it.\<close>

theorem empty_initramfs_page_is_lost:
  assumes "tdx_place ex params p = Inr (placed, owned)" "sized params p"
    "length (ex_reset_shim ex) = 4096" "apertures_ok params" "pr_initramfs p = []"
    "INITRAMFS_BASE < p_memory params"
  shows "\<exists>pgs. launch_pages (sort_key pl_base placed) = Inr pgs \<and>
    INITRAMFS_BASE \<notin> set (map fst pgs) \<and>
    \<not> accepted (accept_ranges placed (p_memory params)) INITRAMFS_BASE \<and>
    e820_type (e820 placed (p_memory params)) INITRAMFS_BASE = Some RAM"
proof -
  let ?a = INITRAMFS_BASE
  have facts: "tdx_launch_facts ex params p placed"
    by (rule tdx_place_facts [OF assms(1-4)])
  obtain pgs where pgs: "launch_pages (sort_key pl_base placed) = Inr pgs"
    "set (map fst pgs) = set (loaded_addresses placed)"
    using tdx_loaded [OF facts] .
  from facts assms(5) obtain q where
    v: "validate placed (p_memory params) = Inr ()" and wfp: "proper placed"
    and ld: "\<forall>r\<in>set placed. pl_base r \<noteq> ?a \<longrightarrow> loadable r"
    and q: "q \<in> set placed" "pl_base q = ?a" "pl_fill q = Measured []" "pl_e820 q = RAM"
    unfolding tdx_launch_facts_def by auto
  have wp: "well_placed placed (p_memory params)"
    using v validate_well_placed [OF wfp] by blast
  have cq: "covers q ?a"
    using proper_region [OF wfp q(1)] q(2) by (simp add: covers_def)
  have "?a \<notin> set (region_addresses r)" if "r \<in> set placed" for r
    by (rule empty_region_hides [OF wp wfp ld q(1-3) that])
  then have "?a \<notin> set (map fst pgs)" unfolding pgs(2) by (auto simp: loaded_addresses_def)
  moreover have "\<not> accepted (accept_ranges placed (p_memory params)) ?a"
    using cq q(1) by (auto simp: accepted_def accept_ranges_mem)
  moreover have "e820_type (e820 placed (p_memory params)) ?a = Some RAM"
  proof -
    obtain r where r: "find (\<lambda>r. covers r ?a) placed = Some r"
      using cq q(1) by (meson find_None_iff not_Some_eq)
    then have "r \<in> set placed" "covers r ?a" by (auto simp: find_Some_iff)
    then have "r = q" by (rule covers_unique [OF wp _ q(1) _ cq])
    then have "region_type placed (p_memory params) ?a = Some RAM"
      using r q(4) assms(6) by (simp add: region_type_def RAM_def ABSENT_def not_le)
    then show ?thesis
      using e820_type_eq [OF validate_disjoint [OF v proper_no_wrap [OF wfp]]] by simp
  qed
  ultimately show ?thesis using pgs(1) by blast
qed

lemma empty_prepared:
  "prepare_inputs test_kernel [] default_params = Inr (demo_prepared\<lparr>pr_initramfs := []\<rparr>)"
proof -
  have "vec_len_ok test_kernel" "vec_len_ok ([] :: bytes)" "vec_len_ok [1, 2, 3 :: u8]"
    by (simp_all add: vec_len_ok_def)
  note iff = prepare_inputs_Inr_iff [OF this(1,2) default_params_facts(1)]
    prepare_inputs_Inr_iff [OF this(1,3) default_params_facts(1)]
  have "p_memory default_params = 0x40000000" by (simp add: default_params_def DEFAULT_RAM_def)
  then have fits: "prepare_fits (info_of test_kernel) 5632 0 default_params"
    by (simp add: prepare_fits_def test_kernel_bootable default_params_facts)
  have d: "demo_prepared = \<lparr>pr_info = info_of test_kernel,
      pr_setup = blit 0 (take 2560 test_kernel) (replicate 0x2f000 0),
      pr_kernel = drop 2560 test_kernel, pr_initramfs = [1, 2, 3],
      pr_command = resize 4096 (utf8 (p_cmdline default_params) @ [0]), pr_entry = 0x1000200\<rparr>"
    using demo_prepared by (simp add: iff default_params_facts Let_def test_kernel_bootable)
  have "demo_prepared\<lparr>pr_initramfs := []\<rparr> = \<lparr>pr_info = info_of test_kernel,
      pr_setup = blit 0 (take 2560 test_kernel) (replicate 0x2f000 0),
      pr_kernel = drop 2560 test_kernel, pr_initramfs = [],
      pr_command = resize 4096 (utf8 (p_cmdline default_params) @ [0]), pr_entry = 0x1000200\<rparr>"
    by (subst d) simp
  with fits show ?thesis
    by (simp add: iff default_params_facts Let_def test_kernel_bootable)
qed

lemma empty_inputs:
  "sized default_params (demo_prepared\<lparr>pr_initramfs := []\<rparr>)"
  "contents_fit default_params (demo_prepared\<lparr>pr_initramfs := []\<rparr>)"
  using demo_inputs by (simp_all add: sized_def contents_fit_def vec_len_ok_def)

theorem empty_initramfs_page_is_lost_witness:
  "\<exists>placed. tdx_place demo_externs default_params (demo_prepared\<lparr>pr_initramfs := []\<rparr>) =
      Inr (placed, 0x17000) \<and>
    prepare_inputs test_kernel [] default_params = Inr (demo_prepared\<lparr>pr_initramfs := []\<rparr>) \<and>
    \<not> accepted (accept_ranges placed 0x40000000) INITRAMFS_BASE \<and>
    e820_type (e820 placed 0x40000000) INITRAMFS_BASE = Some RAM"
proof -
  let ?p = "demo_prepared\<lparr>pr_initramfs := []\<rparr>"
  have "\<exists>placed. tdx_place demo_externs default_params ?p = Inr (placed, 0x17000)"
    by (rule tdx_place_succeeds [OF empty_inputs(1) demo_inputs(2,3)])
      (simp add: default_params_def, rule tdx_well_placed [OF empty_inputs(1) _ demo_inputs(5) empty_inputs(2)])
  then obtain placed where pl: "tdx_place demo_externs default_params ?p = Inr (placed, 0x17000)" by blast
  have h: "length (ex_reset_shim demo_externs) = 4096" "pr_initramfs ?p = []"
    "INITRAMFS_BASE < p_memory default_params"
    by (simp_all add: demo_externs_def default_params_def layout_consts)
  have "p_memory default_params = 0x40000000" by (simp add: default_params_def DEFAULT_RAM_def)
  with empty_initramfs_page_is_lost [OF pl empty_inputs(1) h(1) demo_inputs(3) h(2,3)] pl
    empty_prepared show ?thesis by auto
qed

end
