(* ===== verification/Tdx_Publish.thy ===== *)
theory Tdx_Publish
  imports Tdx_Properties
begin

text \<open>
  The TDX builder against the file system: what a successful run leaves behind, what a failed
  one may leave, and that a valid input does succeed.
\<close>

section \<open>What is published\<close>

definition manifest_path :: "rstr \<Rightarrow> rstr" where
  "manifest_path output = output @ lit ''.manifest.json''"

lemma write_manifest_Inr_conv:
  "write_manifest output r s = (Inr u, s') \<longleftrightarrow>
     (\<exists>json. r = Inr json \<and> fs_write_error s (manifest_path output) = None \<and>
       s' = s\<lparr>fs_files := (fs_files s)(manifest_path output := Inr (json @ [10]))\<rparr>)"
  by (cases r) (auto simp: write_manifest_def io_bind_Inr_conv fs_write_Inr_conv manifest_path_def)

lemma write_manifest_Inl:
  "write_manifest output r s = (Inl e, s') \<Longrightarrow>
     (\<exists>m. r = Inl m \<and> e = Extern (ManifestJson m) \<and> s' = s) \<or>
     (\<exists>json m. r = Inr json \<and> e = io_error ''write manifest'' m \<and>
       write_cut (manifest_path output) (json @ [10]) m s s')"
  by (cases r) (auto simp: write_manifest_def io_bind_Inl_conv fs_write_Inl_conv manifest_path_def)

text \<open>
  How a build may fail once its image is made: the write of the image fails, the manifest does
  not serialize, or the write of the manifest fails; with the files each leaves.
\<close>

definition interrupted ::
  "string \<Rightarrow> rstr \<Rightarrow> bytes \<Rightarrow> string + bytes \<Rightarrow> fs \<Rightarrow> error \<Rightarrow> fs \<Rightarrow> bool" where
  "interrupted action out img json s e s' \<longleftrightarrow>
     (\<exists>m. e = io_error action m \<and> write_cut out img m s s') \<or>
     (let s1 = s\<lparr>fs_files := (fs_files s)(out := Inr img)\<rparr> in fs_write_error s out = None \<and>
       ((\<exists>m. json = Inl m \<and> e = Extern (ManifestJson m) \<and> s' = s1) \<or>
        (\<exists>j m. json = Inr j \<and> e = io_error ''write manifest'' m \<and>
          write_cut (manifest_path out) (j @ [10]) m s1 s')))"

lemma interruptedI:
  "fs_write action out img s = (Inl e, s') \<Longrightarrow> interrupted action out img json s e s'"
  "fs_write action out img s = (Inr u, s1) \<Longrightarrow> write_manifest out json s1 = (Inl e, s') \<Longrightarrow>
     interrupted action out img json s e s'"
  unfolding interrupted_def Let_def fs_write_Inl_conv fs_write_Inr_conv
  by (blast dest: write_manifest_Inl)+

lemma prepare_Inr_conv:
  "prepare kp ip params s = (Inr p, s') \<longleftrightarrow>
     s' = s \<and> (\<exists>kf ir. fs_files s kp = Inr kf \<and> fs_files s ip = Inr ir \<and>
       prepare_inputs kf ir params = Inr p)"
  by (auto simp: prepare_def io_bind_Inr_conv)

lemma prepare_pure: "prepare kp ip params s = (r, s') \<Longrightarrow> s' = s"
  by (auto simp: prepare_def io_bind_def fs_read_def io_lift_def split: sum.splits)

lemma tdx_file_Inr_conv:
  "tdx_file ex placed = Inr (pgs, file, mrtd) \<longleftrightarrow>
     launch_pages placed = Inr pgs \<and> igvm ex pgs = Inr file \<and> igvm_pages ex file = Inr pgs \<and>
     mrtd_calculate (ex_sha384 ex) pgs = Some mrtd"
  by (auto simp: tdx_file_def bind_result_Inr_conv)

lemma io_lift_Inr_conv: "io_lift r s = (Inr x, s') \<longleftrightarrow> r = Inr x \<and> s' = s"
  by auto

definition tdx_manifest_of ::
  "('f, 'k) externs \<Rightarrow> params \<Rightarrow> prepared \<Rightarrow> placed list \<Rightarrow> nat \<Rightarrow> bytes \<Rightarrow> rstr \<Rightarrow> tdx_manifest" where
  "tdx_manifest_of ex params p placed owned mrtd mrconfigid =
     \<lparr>tm_format_version = 2, tm_platform = lit ''tdx'', tm_memory_bytes = p_memory params,
      tm_vcpus = p_vcpus params, tm_command_line = p_cmdline params,
      tm_mmio_holes = mmio_holes params,
      tm_kernel_entry = lit ''0x'' @ fmt_hex 8 (unat (pr_entry p)),
      tm_expected_mrtd = ex_hex ex mrtd, tm_shim_owned_bytes = owned,
      tm_launch = tdx_launch ex mrtd mrconfigid, tm_components = components ex placed\<rparr>"

lemma build_tdx_steps:
  "build_tdx ex kp ip out params h =
     io_bind (io_lift (config_field h 48)) (\<lambda>mrconfigid.
     io_bind (prepare kp ip params) (\<lambda>p.
     io_bind (io_lift (tdx_place ex params p)) (\<lambda>(placed, owned).
     io_bind (io_lift (tdx_file ex (sort_key pl_base placed))) (\<lambda>(pgs, file, mrtd).
     io_bind (fs_write ''write IGVM'' out file) (\<lambda>_.
     write_manifest out (ex_json_tdx ex
       (tdx_manifest_of ex params p (sort_key pl_base placed) owned mrtd mrconfigid)))))))"
  by (simp add: build_tdx_def tdx_manifest_of_def Let_def)

lemma build_tdx_Inr_conv:
  "build_tdx ex kp ip out params h s = (Inr u, s') \<longleftrightarrow>
    (\<exists>mrconfigid kf ir p placed owned pgs file mrtd json.
       config_field h 48 = Inr mrconfigid \<and> fs_files s kp = Inr kf \<and> fs_files s ip = Inr ir \<and>
       prepare_inputs kf ir params = Inr p \<and> tdx_place ex params p = Inr (placed, owned) \<and>
       tdx_file ex (sort_key pl_base placed) = Inr (pgs, file, mrtd) \<and>
       fs_write_error s out = None \<and> fs_write_error s (manifest_path out) = None \<and>
       ex_json_tdx ex (tdx_manifest_of ex params p (sort_key pl_base placed) owned mrtd mrconfigid)
         = Inr json \<and>
       s' = s\<lparr>fs_files := (fs_files s)(out := Inr file, manifest_path out := Inr (json @ [10]))\<rparr>)"
  unfolding build_tdx_steps io_bind_Inr_conv prepare_Inr_conv fs_write_Inr_conv
    write_manifest_Inr_conv io_lift_Inr_conv split_paired_Ex prod.case
  by fastforce

lemma tdx_launch_entries:
  "tdx_launch ex mrtd mrconfigid (lit ''mrtd'') = Some (ex_hex ex mrtd)"
  "tdx_launch ex mrtd mrconfigid (lit ''mrconfigid'') = Some mrconfigid"
  "r \<in> {lit ''rtmr0'', lit ''rtmr1'', lit ''rtmr2'', lit ''rtmr3''} \<Longrightarrow>
     tdx_launch ex mrtd mrconfigid r = Some (zeros 48)"
  by (auto simp: tdx_launch_def)

section \<open>That a build succeeds\<close>

text \<open>
  The documented behaviour of the \<open>igvm\<close> crate the builder checks for itself: a file made of
  measured page directives is constructed, serialized, and read back with the same directives.
\<close>

definition igvm_round_trip :: "('f, 'k) externs \<Rightarrow> bool" where
  "igvm_round_trip ex \<longleftrightarrow>
     (\<forall>pgs. (\<forall>q\<in>set pgs. whole_page q) \<longrightarrow>
       (let ds = map (\<lambda>(gpa, data). page_directive gpa NORMAL data) pgs in
        \<exists>f bs g. ex_igvm_new ex [tdx_platform (ex_platform_version ex)] [] ds = Inr f \<and>
          ex_igvm_serialize ex f = Inr bs \<and> ex_igvm_parse ex bs = Inr g \<and>
          ex_directives ex g = ds))"

lemma map_measured_pages:
  "\<forall>q\<in>set pgs. whole_page q \<Longrightarrow>
     map_result measured_page (map (\<lambda>(gpa, data). page_directive gpa NORMAL data) pgs) = Inr pgs"
  by (induction pgs) (auto simp: page_directive_def whole_page_def COMPAT_def)

lemma tdx_file_succeeds:
  assumes "igvm_round_trip ex" "launch_pages placed = Inr pgs" "\<forall>q\<in>set pgs. whole_page q"
  shows "\<exists>file mrtd. tdx_file ex placed = Inr (pgs, file, mrtd)"
proof -
  let ?ds = "map (\<lambda>(gpa, data). page_directive gpa NORMAL data) pgs"
  obtain f bs g where io: "ex_igvm_new ex [tdx_platform (ex_platform_version ex)] [] ?ds = Inr f"
    "ex_igvm_serialize ex f = Inr bs" "ex_igvm_parse ex bs = Inr g" "ex_directives ex g = ?ds"
    using assms(1,3) unfolding igvm_round_trip_def Let_def by blast
  have "igvm ex pgs = Inr bs" using io by (simp add: igvm_def)
  moreover have "igvm_pages ex bs = Inr pgs"
    using io map_measured_pages [OF assms(3)] by (simp add: igvm_pages_def)
  moreover obtain mrtd where "mrtd_calculate (ex_sha384 ex) pgs = Some mrtd"
    using mrtd_stream_eq [OF assms(3)] by (simp add: mrtd_calculate_def)
  ultimately show ?thesis using assms(2) tdx_file_Inr_conv by blast
qed

lemma params_machine_apertures:
  assumes "tdx_params ram vcpus cmdline [] = Inr params"
  shows "machine_apertures params" "p_vcpus params \<le> MAX_VCPUS" "length (p_mmio params) \<le> 50"
    "apertures_ok params" "INITRAMFS_BASE < p_memory params" "is_multiple_of (p_memory params) PAGE"
    "p_mmio params \<noteq> [] \<longleftrightarrow> Q35_SPLIT \<le> ram"
proof -
  from assms obtain ram: "ram \<le> MAX_RAM" and "vcpus \<le> MAX_VCPUS" and
    p: "p_memory params = (if ram \<ge> Q35_SPLIT then FOUR_GIB + ram - Q35_LOWMEM else ram)"
    "p_vcpus params = vcpus"
    "p_mmio params = (if ram \<ge> Q35_SPLIT then [(Q35_LOWMEM, RESET_ALIAS - Q35_LOWMEM)] else [])"
    unfolding tdx_params_def by (elim new_paramsE) simp
  show "p_vcpus params \<le> MAX_VCPUS" "length (p_mmio params) \<le> 50"
    "p_mmio params \<noteq> [] \<longleftrightarrow> Q35_SPLIT \<le> ram"
    using p \<open>vcpus \<le> MAX_VCPUS\<close> by simp_all
  show "INITRAMFS_BASE < p_memory params" "is_multiple_of (p_memory params) PAGE"
    using new_params_memory assms unfolding tdx_params_def by blast+
  show "apertures_ok params" using p(3) by (simp add: apertures_ok_def layout_consts)
  have "FOUR_GIB \<le> FOUR_GIB + ram - Q35_LOWMEM" if "Q35_SPLIT \<le> ram"
    using split_memory [OF that ram] that by (simp add: word_le_nat_alt layout_consts)
  then show "machine_apertures params" using p by (simp add: machine_apertures_def)
qed

lemma prepared_contents_fit:
  assumes "prepare_inputs kf ir params = Inr p" "vec_len_ok kf" "vec_len_ok ir"
    "INITRAMFS_BASE < p_memory params" "is_multiple_of (p_memory params) PAGE"
    "length (utf8 (p_cmdline params)) < 0xffffffff"
    "p_mmio params \<noteq> [] \<Longrightarrow> length ir \<le> 0x60000000"
  shows "contents_fit params p"
proof -
  note sh = prepare_inputs_shape [OF assms(1)]
  have "vec_len_ok (pr_kernel p)" using sh(9) assms(2) by (simp add: vec_len_ok_def)
  then have "prepare_fits (info_of kf) (length (pr_kernel p)) (length ir) params"
    using sh(10) assms(3,5,6)
    by (subst prepare_checks_Inr_iff [symmetric]) (simp_all add: vec_len_ok_def)
  then show ?thesis
    using assms(4,5,7) sh(3) by (simp add: contents_fit_def prepare_fits_def)
qed

text \<open>Once the map is placed, nothing later can fail.\<close>

lemma tdx_build_from_place:
  assumes "tdx_place ex params p = Inr (placed, owned)" "sized params p" "apertures_ok params"
    and "fs_files s kernel_path = Inr kf" "fs_files s initramfs_path = Inr ir"
    and "prepare_inputs kf ir params = Inr p" "config_field config_hash 48 = Inr field"
    and "length (ex_reset_shim ex) = 4096" "igvm_round_trip ex"
    and "\<And>m. \<exists>json. ex_json_tdx ex m = Inr json"
    and "fs_write_error s out = None" "fs_write_error s (manifest_path out) = None"
  shows "\<exists>s'. build_tdx ex kernel_path initramfs_path out params config_hash s = (Inr (), s')"
proof -
  note facts = tdx_place_facts [OF assms(1,2,8,3)]
  obtain pgs where "launch_pages (sort_key pl_base placed) = Inr pgs" "\<forall>q\<in>set pgs. whole_page q"
    using tdx_loaded [OF facts] .
  then obtain img mrtd where "tdx_file ex (sort_key pl_base placed) = Inr (pgs, img, mrtd)"
    using tdx_file_succeeds [OF assms(9)] by blast
  moreover obtain json where "ex_json_tdx ex
      (tdx_manifest_of ex params p (sort_key pl_base placed) owned mrtd field) = Inr json"
    using assms(10) by blast
  ultimately have "build_tdx ex kernel_path initramfs_path out params config_hash s = (Inr (),
      s\<lparr>fs_files := (fs_files s)(out := Inr img, manifest_path out := Inr (json @ [10]))\<rparr>)"
    unfolding build_tdx_Inr_conv using assms(4-7,11,12) assms(1)
    by (intro exI conjI) (assumption | rule refl)+
  then show ?thesis by blast
qed

lemma tdx_build_ok:
  assumes "tdx_params ram vcpus cmdline [] = Inr params"
    and "fs_files s kernel_path = Inr kf" "fs_files s initramfs_path = Inr ir"
    and "prepare_inputs kf ir params = Inr p"
    and "vec_len_ok kf" "vec_len_ok ir" "length (utf8 (p_cmdline params)) < 0xffffffff"
    and "Q35_SPLIT \<le> ram \<Longrightarrow> length ir \<le> 0x60000000"
    and "config_field config_hash 48 = Inr field"
    and "blank_shim (ex_reset_shim ex)" "igvm_round_trip ex" "\<And>m. \<exists>json. ex_json_tdx ex m = Inr json"
    and "fs_write_error s out = None" "fs_write_error s (manifest_path out) = None"
  shows "\<exists>s'. build_tdx ex kernel_path initramfs_path out params config_hash s = (Inr (), s')"
proof -
  note mp = params_machine_apertures [OF assms(1)]
  have sized: "sized params p" by (rule prepared_sized [OF assms(4) mp(2) assms(5,6)])
  have fit: "contents_fit params p"
    using prepared_contents_fit [OF assms(4-6) mp(5,6) assms(7)] mp(7) assms(8) by blast
  obtain placed where pl: "tdx_place ex params p = Inr (placed, 0x17000)"
    using tdx_place_succeeds [OF sized assms(10) mp(4,3)] tdx_well_placed [OF sized _ mp(1) fit]
    by blast
  have "length (ex_reset_shim ex) = 4096" using assms(10) by (simp add: blank_shim_def)
  then show ?thesis
    using tdx_build_from_place [OF pl sized mp(4) assms(2-4,9) _ assms(11-14)] by blast
qed

text \<open>The demonstration file system: the stub kernel, a three-byte initramfs, all paths writable.\<close>

definition demo_fs :: fs where
  "demo_fs = \<lparr>fs_files = (\<lambda>path. if path = lit ''k'' then Inr test_kernel
      else if path = lit ''i'' then Inr [1, 2, 3] else Inl ''No such file or directory''),
    fs_write_error = (\<lambda>path. None)\<rparr>"

lemma chunks_concat:
  "\<forall>x\<in>set xs. length x = n \<Longrightarrow> 0 < n \<Longrightarrow> chunks n (concat xs) = xs"
proof (induction xs)
  case Nil
  then show ?case by (simp add: chunks.simps)
next
  case (Cons x xs)
  then have "x @ concat xs \<noteq> []" by auto
  with Cons show ?case by (subst chunks.simps) simp
qed

lemma demo_round_trip: "igvm_round_trip demo_externs"
proof -
  have "map demo_page (chunks 6272 (concat (map demo_bytes
      (map (\<lambda>(gpa, data). page_directive gpa NORMAL data) pgs)))) =
    map (\<lambda>(gpa, data). page_directive gpa NORMAL data) pgs"
    if w: "\<forall>q\<in>set pgs. whole_page q" for pgs
  proof -
    have "map demo_bytes (map (\<lambda>(gpa, data). page_directive gpa NORMAL data) pgs) = map enc_page pgs"
      by (simp add: page_directive_def split_def)
    moreover have "chunks 6272 (concat (map enc_page pgs)) = map enc_page pgs"
      using w page_codec.length_enc by (intro chunks_concat) auto
    moreover have "map demo_page (map enc_page pgs) =
        map (\<lambda>(gpa, data). page_directive gpa NORMAL data) pgs"
      using w by (simp add: page_codec.dec_enc demo_page_def split_def)
    ultimately show ?thesis by (simp only:)
  qed
  then show ?thesis
    unfolding igvm_round_trip_def demo_externs_def Let_def externs.simps sum.inject by blast
qed

lemma demo_facts:
  "fs_files demo_fs (lit ''k'') = Inr test_kernel" "fs_files demo_fs (lit ''i'') = Inr [1, 2, 3]"
  "vec_len_ok test_kernel" "vec_len_ok [1, 2, 3 :: u8]"
  "length (utf8 (p_cmdline default_params)) < 0xffffffff"
  "\<not> Q35_SPLIT \<le> DEFAULT_RAM" "fs_write_error demo_fs path = None"
  "\<exists>json. ex_json_tdx demo_externs m = Inr json"
  by (simp_all add: demo_fs_def vec_len_ok_def default_params_facts layout_consts demo_externs_def)

lemma demo_config: "config_field None 48 = Inr (zeros 48)"
  by (simp add: config_field_def)

lemma demo_build:
  "\<exists>s'. build_tdx demo_externs (lit ''k'') (lit ''i'') (lit ''o'') default_params None demo_fs =
     (Inr (), s')"
  using tdx_build_ok [OF default_params demo_facts(1,2) demo_prepared demo_facts(3,4,5) _ demo_config
      demo_inputs(2) demo_round_trip demo_facts(8,7,7)] demo_facts(6)
  by blast

text \<open>A TDX build succeeds whenever its inputs are acceptable: parameters without apertures of the
  user's own, a kernel and an initramfs that the input checks take (below the PCI aperture if the
  guest has one), a well-formed configuration hash, writable output paths and crates that do
  what they document; none of the builder's own later checks can then fail.\<close>

theorem tdx_build_succeeds:
  assumes "tdx_params ram vcpus cmdline [] = Inr params"
    and "fs_files s kernel_path = Inr kf" "fs_files s initramfs_path = Inr ir"
    and "prepare_inputs kf ir params = Inr p"
    and "vec_len_ok kf" "vec_len_ok ir" "length (utf8 (p_cmdline params)) < 0xffffffff"
    and "Q35_SPLIT \<le> ram \<Longrightarrow> length ir \<le> 0x60000000"
    and "config_field config_hash 48 = Inr field"
    and "blank_shim (ex_reset_shim ex)" "igvm_round_trip ex" "\<And>m. \<exists>json. ex_json_tdx ex m = Inr json"
    and "fs_write_error s out = None" "fs_write_error s (manifest_path out) = None"
  shows "\<exists>s'. build_tdx ex kernel_path initramfs_path out params config_hash s = (Inr (), s')"
  by (rule tdx_build_ok [OF assms])

theorem tdx_build_succeeds_witness:
  "\<exists>s'. build_tdx demo_externs (lit ''k'') (lit ''i'') (lit ''o'') default_params None demo_fs =
     (Inr (), s')"
  using tdx_build_succeeds [OF default_params demo_facts(1,2) demo_prepared demo_facts(3,4,5) _
      demo_config demo_inputs(2) demo_round_trip demo_facts(8,7,7)] demo_facts(6)
  by blast

text \<open>C4: a successful TDX build changes two files only: the image, which reads back as the measured
  pages, and its manifest, whose expected MRTD is the digest of exactly those pages, beside
  the configuration value the host must pass and run-time registers still at zero.\<close>

theorem tdx_build_publishes:
  assumes "build_tdx ex kernel_path initramfs_path out params config_hash s = (Inr (), s')"
  shows "\<exists>img pgs mrtd field manifest json.
    s' = s\<lparr>fs_files := (fs_files s)(out := Inr img, manifest_path out := Inr (json @ [10]))\<rparr> \<and>
    igvm_pages ex img = Inr pgs \<and> mrtd_calculate (ex_sha384 ex) pgs = Some mrtd \<and>
    config_field config_hash 48 = Inr field \<and> ex_json_tdx ex manifest = Inr json \<and>
    tm_expected_mrtd manifest = ex_hex ex mrtd \<and>
    tm_launch manifest (lit ''mrtd'') = Some (ex_hex ex mrtd) \<and>
    tm_launch manifest (lit ''mrconfigid'') = Some field \<and>
    tm_launch manifest (lit ''rtmr0'') = Some (zeros 48)"
proof -
  obtain field p placed owned pgs img mrtd json where
    a: "config_field config_hash 48 = Inr field"
    "tdx_file ex (sort_key pl_base placed) = Inr (pgs, img, mrtd)"
    "ex_json_tdx ex (tdx_manifest_of ex params p (sort_key pl_base placed) owned mrtd field) = Inr json"
    "s' = s\<lparr>fs_files := (fs_files s)(out := Inr img, manifest_path out := Inr (json @ [10]))\<rparr>"
    using assms unfolding build_tdx_Inr_conv by blast
  let ?m = "tdx_manifest_of ex params p (sort_key pl_base placed) owned mrtd field"
  have "tm_expected_mrtd ?m = ex_hex ex mrtd" "tm_launch ?m = tdx_launch ex mrtd field"
    by (simp_all add: tdx_manifest_of_def)
  with a show ?thesis
    using tdx_launch_entries unfolding tdx_file_Inr_conv by fastforce
qed

theorem tdx_build_publishes_witness:
  "\<exists>img pgs mrtd s'. build_tdx demo_externs (lit ''k'') (lit ''i'') (lit ''o'') default_params None demo_fs =
     (Inr (), s') \<and> igvm_pages demo_externs img = Inr pgs \<and>
     mrtd_calculate (ex_sha384 demo_externs) pgs = Some mrtd \<and> fs_files s' (lit ''o'') = Inr img"
proof -
  obtain s' where
    b: "build_tdx demo_externs (lit ''k'') (lit ''i'') (lit ''o'') default_params None demo_fs = (Inr (), s')"
    using demo_build by blast
  obtain img pgs mrtd json where r: "igvm_pages demo_externs img = Inr pgs"
    "mrtd_calculate (ex_sha384 demo_externs) pgs = Some mrtd"
    "s' = demo_fs\<lparr>fs_files := (fs_files demo_fs)(lit ''o'' := Inr img,
       manifest_path (lit ''o'') := Inr (json @ [10]))\<rparr>"
    using tdx_build_publishes [OF b] by blast
  have "fs_files s' (lit ''o'') = Inr img" using r(3) by (simp add: manifest_path_def)
  with b r show ?thesis by blast
qed

text \<open>C31: a TDX build that fails leaves the file system as it was until its image is made and read
  back. After that a failure is one of three: the image could not be written (its file is
  untouched, or, when the system fails after opening it, cut to a beginning of the image), or
  the complete image is there and the manifest did not serialize or could not be written (its
  file untouched, or cut to a beginning of the manifest naming that image's MRTD).\<close>

theorem tdx_build_failure:
  assumes "build_tdx ex kernel_path initramfs_path out params config_hash s = (Inl e, s')"
  shows "s' = s \<or>
    (\<exists>img pgs mrtd manifest. igvm_pages ex img = Inr pgs \<and>
       mrtd_calculate (ex_sha384 ex) pgs = Some mrtd \<and>
       tm_expected_mrtd manifest = ex_hex ex mrtd \<and>
       interrupted ''write IGVM'' out img (ex_json_tdx ex manifest) s e s')"
proof (rule ccontr)
  assume no: "\<not> ?thesis"
  then have ne: "s' \<noteq> s" by blast
  from assms obtain field p placed owned pgs img mrtd where
    f: "tdx_file ex (sort_key pl_base placed) = Inr (pgs, img, mrtd)"
    and m: "interrupted ''write IGVM'' out img (ex_json_tdx ex
       (tdx_manifest_of ex params p (sort_key pl_base placed) owned mrtd field)) s e s'"
    unfolding build_tdx_steps io_bind_Inl_conv split_paired_Ex prod.case io_lift_Inr_conv
    using ne by (auto dest!: prepare_pure) (blast intro: interruptedI)+
  from f have "igvm_pages ex img = Inr pgs" "mrtd_calculate (ex_sha384 ex) pgs = Some mrtd"
    by (simp_all add: tdx_file_Inr_conv)
  moreover have "tm_expected_mrtd (tdx_manifest_of ex params p (sort_key pl_base placed) owned mrtd field)
      = ex_hex ex mrtd"
    by (simp add: tdx_manifest_of_def)
  ultimately show False using m no by blast
qed

text \<open>The demonstration build on a disk that fills up after five bytes of the image.\<close>

definition full_fs :: fs where
  "full_fs = demo_fs\<lparr>fs_write_error := (\<lambda>path. Some (''No space left on device'', Some 5))\<rparr>"

lemma full_fs_build:
  "\<exists>img. build_tdx demo_externs (lit ''k'') (lit ''i'') (lit ''o'') default_params None full_fs =
     (Inl (io_error ''write IGVM'' ''No space left on device''),
      full_fs\<lparr>fs_files := (fs_files full_fs)(lit ''o'' := Inr (take 5 img))\<rparr>)"
proof -
  have files: "fs_files full_fs = fs_files demo_fs" by (simp add: full_fs_def)
  obtain s1 where "build_tdx demo_externs (lit ''k'') (lit ''i'') (lit ''o'') default_params None demo_fs
      = (Inr (), s1)"
    using demo_build by blast
  then obtain field kf ir p placed owned pgs img mrtd where
    a: "config_field None 48 = Inr field" "fs_files demo_fs (lit ''k'') = Inr kf"
    "fs_files demo_fs (lit ''i'') = Inr ir" "prepare_inputs kf ir default_params = Inr p"
    "tdx_place demo_externs default_params p = Inr (placed, owned)"
    "tdx_file demo_externs (sort_key pl_base placed) = Inr (pgs, img, mrtd)"
    unfolding build_tdx_Inr_conv by blast
  have "prepare (lit ''k'') (lit ''i'') default_params full_fs = (Inr p, full_fs)"
    unfolding prepare_Inr_conv files using a by blast
  then show ?thesis
    unfolding build_tdx_steps
    by (simp add: io_bind_def io_lift_def a(1,5,6)) (auto simp: fs_write_def full_fs_def)
qed

theorem tdx_build_failure_witness:
  "\<exists>img s' b. build_tdx demo_externs (lit ''k'') (lit ''i'') (lit ''o'') default_params None full_fs =
     (Inl (io_error ''write IGVM'' ''No space left on device''), s') \<and>
     interrupted ''write IGVM'' (lit ''o'') img b full_fs
       (io_error ''write IGVM'' ''No space left on device'') s' \<and>
     fs_files s' (lit ''o'') \<noteq> fs_files full_fs (lit ''o'')"
proof -
  let ?e = "io_error ''write IGVM'' ''No space left on device''"
  obtain img where r: "build_tdx demo_externs (lit ''k'') (lit ''i'') (lit ''o'') default_params None full_fs =
      (Inl ?e, full_fs\<lparr>fs_files := (fs_files full_fs)(lit ''o'' := Inr (take 5 img))\<rparr>)"
    (is "_ = (_, ?s)")
    using full_fs_build by blast
  have ne: "fs_files ?s (lit ''o'') \<noteq> fs_files full_fs (lit ''o'')"
    by (simp add: full_fs_def demo_fs_def)
  then have "?s \<noteq> full_fs" by (metis)
  with tdx_build_failure [OF r] r ne show ?thesis by blast
qed

end
