(* ===== verification/Tdx_Shim.thy ===== *)
theory Tdx_Shim
  imports Shim_Walk Tdx_Publish
begin

text \<open>
  The boot processor's part of the TDX reset shim (src/src/reset.S from \<open>long_mode\<close>): it accepts
  the ranges of its data block with TDG.MEM.PAGE.ACCEPT and enters the kernel. The TDX module is
  the parameter \<open>answer\<close>: the status of a call, which may depend on every call before it. The
  calls and their statuses are the log the shim leaves, so nothing is assumed of the module.
\<close>

section \<open>TDG.MEM.PAGE.ACCEPT\<close>

text \<open>A call: the operand in \<open>%rcx\<close> and the status it returned in \<open>%rax\<close>.\<close>

type_synonym accept_log = "(u64 \<times> u64) list"

definition tdcall_accept ::
  "(accept_log \<Rightarrow> u64 \<Rightarrow> u64) \<Rightarrow> u64 \<Rightarrow> accept_log \<Rightarrow> u64 \<times> accept_log" where
  "tdcall_accept answer rcx log = (answer log rcx, log @ [(rcx, answer log rcx)])"

definition TDX_PAGE_SIZE_MISMATCH :: u32 where
  "TDX_PAGE_SIZE_MISMATCH = 0xc0000b0b"

section \<open>The code\<close>

text \<open>One iteration at \<open>accept_range\<close> with \<open>%r12 < %r13\<close>, up to the jump back or to \<open>die\<close>.\<close>

definition accept_4k :: "(accept_log \<Rightarrow> u64 \<Rightarrow> u64) \<Rightarrow> u64 \<Rightarrow> accept_log \<Rightarrow> accept_log step" where
  "accept_4k answer r12 log =
     (case tdcall_accept answer r12 log of (rax, log) \<Rightarrow>
        if rax \<noteq> 0 then Die log else Advance (r12 + PAGE) log)"

definition accept_step ::
  "(accept_log \<Rightarrow> u64 \<Rightarrow> u64) \<Rightarrow> u64 \<Rightarrow> u64 \<Rightarrow> accept_log \<Rightarrow> accept_log step" where
  "accept_step answer r12 r13 log =
     (if r12 AND 0x1fffff \<noteq> 0 then accept_4k answer r12 log
      else if r12 + 0x200000 > r13 then accept_4k answer r12 log
      else case tdcall_accept answer (r12 OR 1) log of (rax, log) \<Rightarrow>
        if rax = 0 then Advance (r12 + 0x200000) log
        else if (ucast (drop_bit 32 rax) :: u32) \<noteq> TDX_PAGE_SIZE_MISMATCH then Die log
        else accept_4k answer r12 log)"


text \<open>
  \<open>boot_kernel\<close> jumps through the data block with the zero page in \<open>%rsi\<close>; \<open>Entered\<close> holds the
  target, the register and the log.
\<close>

datatype 'm boot_end = Entered u64 u64 'm | Fatal 'm | Crashed

definition accept_next ::
  "(accept_log \<Rightarrow> u64 \<Rightarrow> u64) \<Rightarrow> bytes \<Rightarrow> accept_log serve_end option" where
  "accept_next answer page = serve_ranges (accept_step answer) page (unat SHIM_DATA + 8) []"

definition tdx_boot ::
  "(accept_log \<Rightarrow> u64 \<Rightarrow> u64) \<Rightarrow> bytes \<Rightarrow> accept_log boot_end option" where
  "tdx_boot answer page =
     Option.bind (accept_next answer page) (\<lambda>r. Some (case r of
         Served log \<Rightarrow> (case shim_entry page of
             None \<Rightarrow> Crashed
           | Some rip \<Rightarrow> Entered rip ZERO_PAGE log)
       | Died log \<Rightarrow> Fatal log
       | PastPage log \<Rightarrow> Crashed))"

section \<open>The pages a call accepts\<close>

text \<open>The operand holds the page address in bits 51 to 12 and its level in bits 2 to 0.\<close>

definition operand_covers :: "u64 \<Rightarrow> u64 \<Rightarrow> bool" where
  "operand_covers rcx a \<longleftrightarrow>
     (let base = rcx AND NOT 0xfff; bytes = (if rcx AND 7 = 1 then 0x200000 else PAGE)
      in base \<le> a \<and> a < base + bytes)"

definition accepted_times :: "accept_log \<Rightarrow> u64 \<Rightarrow> nat" where
  "accepted_times log a = length (filter (\<lambda>(rcx, rax). rax = 0 \<and> operand_covers rcx a) log)"

lemma accepted_times_Nil [simp]: "accepted_times [] a = 0"
  by (simp add: accepted_times_def)

lemma accepted_times_snoc [simp]:
  "accepted_times (log @ [(rcx, rax)]) a =
     accepted_times log a + (if rax = 0 \<and> operand_covers rcx a then 1 else 0)"
  by (simp add: accepted_times_def)

lemma PAGE_aligned_bits: "is_multiple_of (a :: u64) PAGE \<longleftrightarrow> (\<forall>n<12. \<not> bit a n)"
proof -
  have "is_multiple_of a PAGE \<longleftrightarrow> take_bit 12 a = 0"
    by (simp add: is_multiple_of_def PAGE_def take_bit_eq_mod)
  also have "\<dots> \<longleftrightarrow> (\<forall>n<12. \<not> bit a n)"
    by (auto simp: bit_eq_iff bit_take_bit_iff)
  finally show ?thesis .
qed

lemma bit_low_mask: "bit (0xfff :: u64) n \<longleftrightarrow> n < 12"
proof -
  have "(0xfff :: u64) = mask 12" by (simp add: mask_eq_exp_minus_1)
  then show ?thesis by (simp only: bit_mask_iff) auto
qed

lemma operand_base:
  assumes "is_multiple_of (a :: u64) PAGE"
  shows "a AND NOT 0xfff = a" "(a OR 1) AND NOT 0xfff = a"
proof -
  have z: "\<not> bit a n" if "n < 12" for n using assms that by (simp add: PAGE_aligned_bits)
  have keep: "x AND NOT 0xfff = a" if "\<And>n. 12 \<le> n \<Longrightarrow> bit x n \<longleftrightarrow> bit a n" for x :: u64
  proof (rule bit_word_eqI)
    fix n assume "n < LENGTH(64)"
    then have "bit (x AND NOT 0xfff) n \<longleftrightarrow> bit x n \<and> \<not> n < 12"
      by (simp only: bit_and_iff bit_not_iff bit_low_mask possible_bit_word) simp
    then show "bit (x AND NOT 0xfff) n \<longleftrightarrow> bit a n" using z that by (cases "n < 12") auto
  qed
  show "a AND NOT 0xfff = a" by (rule keep) (rule refl)
  show "(a OR 1) AND NOT 0xfff = a" by (rule keep) (auto simp: bit_or_iff bit_1_iff)
qed

lemma operand_level:
  assumes "is_multiple_of (a :: u64) PAGE"
  shows "a AND 7 = 0" "(a OR 1) AND 7 = 1"
proof -
  have z: "\<not> bit a n" if "n < 12" for n using assms that by (simp add: PAGE_aligned_bits)
  have seven: "(7 :: u64) = mask 3" by (simp add: mask_eq_exp_minus_1)
  have "a AND mask 3 = 0"
    by (rule bit_word_eqI) (use z in \<open>auto simp: bit_and_iff bit_mask_iff\<close>)
  moreover have "(1 :: u64) AND mask 3 = 1"
    by (rule bit_word_eqI) (auto simp: bit_and_iff bit_mask_iff bit_1_iff)
  ultimately show "a AND 7 = 0" "(a OR 1) AND 7 = 1"
    by (simp_all only: seven and.commute [of _ "mask 3"] bit.conj_disj_distrib or.left_neutral)
qed

lemma operand_covers_4k:
  "is_multiple_of a PAGE \<Longrightarrow> operand_covers a b \<longleftrightarrow> a \<le> b \<and> b < a + PAGE"
  unfolding operand_covers_def by (simp only: operand_base operand_level Let_def) simp

lemma operand_covers_2m:
  "is_multiple_of a PAGE \<Longrightarrow> operand_covers (a OR 1) b \<longleftrightarrow> a \<le> b \<and> b < a + 0x200000"
  unfolding operand_covers_def by (simp only: operand_base operand_level Let_def) simp

section \<open>One iteration meets the contract\<close>

lemma next_page:
  assumes "mapped_range lo hi" "lo < hi"
  shows "lo < lo + PAGE \<and> mapped_range (lo + PAGE) hi"
proof -
  from assms have al: "4096 dvd unat lo" "4096 dvd unat hi" and lt: "unat lo < unat hi"
    by (simp_all add: mapped_range_def PAGE_aligned_iff word_less_nat_alt)
  then have le: "unat lo + 4096 \<le> unat hi" by (auto elim!: dvdE)
  then have u: "unat (lo + PAGE) = unat lo + 4096"
    using unat_u64_less [of hi] by (subst unat_add_noov) simp_all
  have "is_multiple_of PAGE PAGE" by (simp add: PAGE_aligned_iff)
  with assms u le show ?thesis
    by (simp add: mapped_range_def PAGE_aligned_add word_less_nat_alt word_le_nat_alt)
qed

lemma next_2m:
  assumes "mapped_range lo hi" "\<not> lo + 0x200000 > hi"
  shows "lo < lo + 0x200000 \<and> mapped_range (lo + 0x200000) hi"
proof -
  have "unat hi \<le> unat MAP_LIMIT" "unat lo \<le> unat hi"
    using assms(1) by (simp_all add: mapped_range_def word_le_nat_alt)
  then have "unat lo \<le> 0x8000000000" by (simp add: layout_consts)
  then have u: "unat (lo + 0x200000) = unat lo + 0x200000"
    by (subst unat_add_noov) simp_all
  have "is_multiple_of (0x200000 :: u64) PAGE" by (simp add: PAGE_aligned_iff)
  with assms u show ?thesis
    by (simp add: mapped_range_def PAGE_aligned_add word_less_nat_alt word_le_nat_alt)
qed

lemma accept_4k_cases:
  assumes "mapped_range lo hi"
  shows "accept_4k answer lo log = Advance lo' log' \<Longrightarrow> lo' = lo + PAGE \<and>
      accepted_times log' a = accepted_times log a + covered_times lo (lo + PAGE) a"
    and "accept_4k answer lo log = Die log' \<Longrightarrow> accepted_times log' a = accepted_times log a"
  using assms
  by (auto simp: accept_4k_def tdcall_accept_def operand_covers_4k mapped_range_def covered_times_def
      split: if_splits)

lemma accept_step_cases:
  assumes "mapped_range lo hi" "lo < hi"
  shows "accept_step answer lo hi log = Advance lo' log' \<Longrightarrow> lo < lo' \<and> mapped_range lo' hi \<and>
      accepted_times log' a = accepted_times log a + covered_times lo lo' a"
    and "accept_step answer lo hi log = Die log' \<Longrightarrow> accepted_times log' a = accepted_times log a"
proof -
  note k = accept_4k_cases [OF assms(1)] and p = next_page [OF assms] and m = next_2m [OF assms(1)]
  have lo: "is_multiple_of lo PAGE" using assms(1) by (simp add: mapped_range_def)
  show "accept_step answer lo hi log = Advance lo' log' \<Longrightarrow> lo < lo' \<and> mapped_range lo' hi \<and>
      accepted_times log' a = accepted_times log a + covered_times lo lo' a"
    using k p m
    by (auto simp: accept_step_def tdcall_accept_def operand_covers_2m [OF lo] covered_times_def
        Let_def split: if_splits)
  show "accept_step answer lo hi log = Die log' \<Longrightarrow> accepted_times log' a = accepted_times log a"
    using k by (auto simp: accept_step_def tdcall_accept_def split: if_splits)
qed

interpretation tdx_walk: range_walk "accept_step answer" accepted_times for answer
  by unfold_locales (use accept_step_cases in \<open>blast+\<close>)

text \<open>A module that refused: the last call has a status other than success.\<close>

definition module_refused :: "accept_log \<Rightarrow> bool" where
  "module_refused log \<longleftrightarrow> log \<noteq> [] \<and> snd (last log) \<noteq> 0"

interpretation tdx_refusal: refusing_walk "accept_step answer" accepted_times module_refused for answer
  by unfold_locales
    (auto simp: accept_step_def accept_4k_def tdcall_accept_def module_refused_def split: if_splits)

text \<open>
  A module that gives every page it is asked for, refusing only a 2 MiB call where it has no
  2 MiB page; the low half of the status is the page level it wants.
\<close>

definition willing_module :: "(u64 \<Rightarrow> bool) \<Rightarrow> accept_log \<Rightarrow> u64 \<Rightarrow> u64" where
  "willing_module large log rcx =
     (if rcx AND 7 = 1 \<and> \<not> large rcx then push_bit 32 (ucast TDX_PAGE_SIZE_MISMATCH) else 0)"

lemma willing_accepts:
  assumes "mapped_range lo hi" "lo < hi"
  shows "accept_step (willing_module large) lo hi log \<noteq> Die log'"
proof -
  have lo: "is_multiple_of lo PAGE" using assms(1) by (simp add: mapped_range_def)
  have m: "(ucast (drop_bit 32 (push_bit 32 (ucast TDX_PAGE_SIZE_MISMATCH) :: u64)) :: u32) =
      TDX_PAGE_SIZE_MISMATCH"
    by (simp add: TDX_PAGE_SIZE_MISMATCH_def)
  show ?thesis
    by (simp add: accept_step_def accept_4k_def tdcall_accept_def willing_module_def m
        operand_level [OF lo])
qed

interpretation tdx_live: live_walk "accept_step (willing_module large)" accepted_times for large
  by unfold_locales (rule willing_accepts)

section \<open>The shim on the page the builder packed\<close>

lemma tdx_place_aligned:
  assumes "tdx_place ex params p = Inr (placed, owned)"
    "check_holes (p_memory params) (p_mmio params) = Inr ()"
  shows "aligned placed"
proof -
  obtain acpi tables stack zero p1 page where
    v: "validate (tdx_regions params p acpi tables stack) (p_memory params) = Inr ()"
    and f: "fill_region (tdx_regions params p acpi tables stack) ZERO_PAGE zero = Inr p1"
      "fill_region p1 RESET_ALIAS page = Inr placed"
    using assms(1) by (auto simp: tdx_place_def Let_def bind_result_Inr_conv)
  let ?rs = "tdx_regions params p acpi tables stack"
  have "is_multiple_of (span q) PAGE" if "q \<in> set ?rs" for q
    using that assms(2)
    by (auto simp: tdx_regions_def span_def fill_span_def page_aligned_arith check_holes_Inr_iff
        placed_measured_def placed_mmio_def)
  moreover have "is_multiple_of (pl_base q) PAGE" if "q \<in> set ?rs" for q
    using v that unfolding validate_Inr_iff by blast
  ultimately have "aligned ?rs" by (simp add: aligned_def)
  then show ?thesis
    unfolding aligned_span_of using fill_region_spans [OF f(1)] fill_region_spans [OF f(2)] by simp
qed

lemma tdx_boot_cases:
  assumes "shim_ranges page 0xc08 = Some rs" "\<forall>(lo, hi)\<in>set rs. mapped_range lo hi"
    "ascending rs" "shim_entry page = Some rip"
  shows "(\<exists>log. tdx_boot answer page = Some (Entered rip ZERO_PAGE log) \<and>
      (\<forall>a. accepted_times log a = (if accepted rs a then 1 else 0))) \<or>
    (\<exists>log. tdx_boot answer page = Some (Fatal log) \<and> module_refused log \<and>
      (\<forall>a. accepted_times log a \<le> (if accepted rs a then 1 else 0)))"
proof -
  have "unat SHIM_DATA + 8 = 0xc08" by (simp add: layout_consts)
  then have n: "accept_next answer page = serve_ranges (accept_step answer) page 0xc08 []"
    by (simp only: accept_next_def)
  obtain r where r: "accept_next answer page = Some r" and c: "case r of
       Served m' \<Rightarrow> (\<forall>a. accepted_times m' a = accepted_times [] a + (\<Sum>(lo, hi)\<leftarrow>rs. covered_times lo hi a))
     | Died m' \<Rightarrow> (\<forall>a. accepted_times m' a \<le> accepted_times [] a + (\<Sum>(lo, hi)\<leftarrow>rs. covered_times lo hi a))
     | PastPage m' \<Rightarrow> False"
    using tdx_walk.serve_ranges_cases [OF assms(1,2), of answer "[]"] unfolding n by blast
  note c = c [unfolded covered_times_ascending [OF assms(3)] accepted_times_Nil add_0]
  show ?thesis
  proof (cases r)
    case (Served log)
    then show ?thesis using r c assms(4) by (simp add: tdx_boot_def)
  next
    case (Died log)
    moreover from this have "module_refused log"
      using tdx_refusal.serve_ranges_refused [OF assms(1,2)] r n by metis
    ultimately show ?thesis using r c by (simp add: tdx_boot_def)
  next
    case (PastPage log)
    then show ?thesis using c by simp
  qed
qed



text \<open>What a finished TDX image holds: its pages, the shim's page among them, and the ranges packed in it.\<close>

lemma tdx_image_ranges:
  assumes "build_tdx ex kernel_path initramfs_path out params config_hash s = (Inr (), s')"
    and "tdx_params ram vcpus cmdline holes = Inr params" "apertures_ok params"
    and "fs_files s kernel_path = Inr kf" "fs_files s initramfs_path = Inr ir" "ir \<noteq> []"
    and "vec_len_ok kf" "vec_len_ok ir" "length (ex_reset_shim ex) = 4096"
  obtains img pgs page rs where "fs_files s' out = Inr img" "igvm_pages ex img = Inr pgs"
    "sorted_wrt (<) (map fst pgs)" "(RESET_ALIAS, page) \<in> set pgs"
    "shim_entry page = Some (KERNEL_BASE + ENTRY_64_OFFSET)" "shim_ranges page 0xc08 = Some rs"
    "\<forall>(lo, hi)\<in>set rs. mapped_range lo hi" "ascending rs"
    "\<forall>a. is_multiple_of a PAGE \<longrightarrow> a < p_memory params \<longrightarrow>
       exactly_one (a \<in> set (map fst pgs)) (accepted rs a) (in_aperture params a)"
proof -
  have neq: "out \<noteq> manifest_path out" by (simp add: manifest_path_def)
  obtain p placed owned img pgs mrtd json where
    a: "prepare_inputs kf ir params = Inr p" "tdx_place ex params p = Inr (placed, owned)"
    "tdx_file ex (sort_key pl_base placed) = Inr (pgs, img, mrtd)"
    "s' = s\<lparr>fs_files := (fs_files s)(out := Inr img, manifest_path out := Inr (json @ [10]))\<rparr>"
    using assms(1,4,5) unfolding build_tdx_Inr_conv by auto
  have np: "new_params ram vcpus cmdline DEFAULT_CBIT holes RESET_ALIAS = Inr params"
    using assms(2) by (simp add: tdx_params_def)
  have v: "p_vcpus params \<le> MAX_VCPUS"
    and holes: "check_holes (p_memory params) (p_mmio params) = Inr ()"
    using np by (elim new_paramsE; simp)+
  have sized: "sized params p" using prepared_sized v a(1) assms(7,8) by blast
  have ne: "pr_initramfs p \<noteq> []" using prepare_inputs_shape(3) [OF a(1)] assms(6) by simp
  have entry: "pr_entry p = KERNEL_BASE + ENTRY_64_OFFSET"
    using prepare_inputs_shape(4) [OF a(1)] by (simp add: layout_consts)
  let ?rs = "accept_ranges placed (p_memory params)"
  have fl: "igvm_pages ex img = Inr pgs" "launch_pages (sort_key pl_base placed) = Inr pgs"
    using a(3) by (simp_all add: tdx_file_Inr_conv)
  from tdx_memory_account [OF a(2) sized assms(9,3) ne] fl(2) obtain page where
    srt: "sorted_wrt (<) (map fst pgs)" and
    page: "(RESET_ALIAS, page) \<in> set pgs" "shim_entry page = Some (KERNEL_BASE + ENTRY_64_OFFSET)"
      "shim_ranges page 0xc08 = Some ?rs"
    and one: "\<And>a. is_multiple_of a PAGE \<Longrightarrow> a < p_memory params \<Longrightarrow>
       exactly_one (a \<in> set (map fst pgs)) (accepted ?rs a) (in_aperture params a)"
    unfolding entry by auto
  have mem: "p_memory params \<le> MAP_LIMIT" "is_multiple_of (p_memory params) PAGE"
    using new_params_memory [OF np] by blast+
  have mapped: "\<forall>(lo, hi)\<in>set ?rs. mapped_range lo hi"
    by (rule accept_ranges_mapped [OF tdx_place_aligned [OF a(2) holes] mem(2,1)])
  have "no_wrap placed"
    using tdx_place_facts [OF a(2) sized assms(9,3)] proper_no_wrap by (simp add: tdx_launch_facts_def)
  then have asc: "ascending ?rs" by (rule accept_ranges_ascending)
  have "fs_files s' out = Inr img" using a(4) neq by simp
  then show thesis using that fl(1) srt page mapped asc one by blast
qed

text \<open>C1: take a successful TDX build whose initramfs is not empty and whose apertures do not wrap around
  the address space, with the one-page shim the build script makes and files no longer than Rust
  allows. The image and its shim together leave no page of the guest unaccounted for: booted from
  the measured page the builder published, the shim either stops at the fatal exit, its last call
  refused by the module, or enters the kernel's 64-bit entry with the zero page, and then every
  page of the described memory is exactly one of loaded once from the file, accepted exactly
  once, or in an aperture. It never reads past its data block and always ends, whatever the TDX
  module answers. (With an empty initramfs one page is lost, as C33 shows.)\<close>

theorem tdx_shim_completes_the_image:
  assumes "build_tdx ex kernel_path initramfs_path out params config_hash s = (Inr (), s')"
    and "tdx_params ram vcpus cmdline holes = Inr params" "apertures_ok params"
    and "fs_files s kernel_path = Inr kf" "fs_files s initramfs_path = Inr ir" "ir \<noteq> []"
    and "vec_len_ok kf" "vec_len_ok ir" "length (ex_reset_shim ex) = 4096"
  shows "\<exists>img pgs page. fs_files s' out = Inr img \<and> igvm_pages ex img = Inr pgs \<and>
    sorted_wrt (<) (map fst pgs) \<and> (RESET_ALIAS, page) \<in> set pgs \<and>
    (\<forall>answer.
      (\<exists>log. tdx_boot answer page = Some (Fatal log) \<and> module_refused log) \<or>
      (\<exists>log. tdx_boot answer page = Some (Entered (KERNEL_BASE + ENTRY_64_OFFSET) ZERO_PAGE log) \<and>
        (\<forall>a. is_multiple_of a PAGE \<longrightarrow> a < p_memory params \<longrightarrow> accepted_times log a \<le> 1 \<and>
           exactly_one (a \<in> set (map fst pgs)) (accepted_times log a = 1) (in_aperture params a))))"
proof -
  obtain img pgs page rs where img: "fs_files s' out = Inr img" "igvm_pages ex img = Inr pgs"
    "sorted_wrt (<) (map fst pgs)" "(RESET_ALIAS, page) \<in> set pgs"
    and entry: "shim_entry page = Some (KERNEL_BASE + ENTRY_64_OFFSET)"
    and rs: "shim_ranges page 0xc08 = Some rs" "\<forall>(lo, hi)\<in>set rs. mapped_range lo hi" "ascending rs"
    and one: "\<forall>a. is_multiple_of a PAGE \<longrightarrow> a < p_memory params \<longrightarrow>
       exactly_one (a \<in> set (map fst pgs)) (accepted rs a) (in_aperture params a)"
    by (rule tdx_image_ranges [OF assms]) blast
  have "(\<exists>log. tdx_boot answer page = Some (Fatal log) \<and> module_refused log) \<or>
      (\<exists>log. tdx_boot answer page = Some (Entered (KERNEL_BASE + ENTRY_64_OFFSET) ZERO_PAGE log) \<and>
        (\<forall>a. is_multiple_of a PAGE \<longrightarrow> a < p_memory params \<longrightarrow> accepted_times log a \<le> 1 \<and>
           exactly_one (a \<in> set (map fst pgs)) (accepted_times log a = 1) (in_aperture params a)))"
    for answer
    using tdx_boot_cases [OF rs entry, of answer] one by fastforce
  with img show ?thesis by blast
qed

theorem tdx_shim_completes_the_image_witness:
  "\<exists>s' img pgs page. build_tdx demo_externs (lit ''k'') (lit ''i'') (lit ''o'') default_params None demo_fs =
     (Inr (), s') \<and> fs_files s' (lit ''o'') = Inr img \<and> igvm_pages demo_externs img = Inr pgs \<and>
     (RESET_ALIAS, page) \<in> set pgs \<and> (\<exists>r. tdx_boot (\<lambda>log rcx. 0) page = Some r)"
proof -
  obtain s' where
    b: "build_tdx demo_externs (lit ''k'') (lit ''i'') (lit ''o'') default_params None demo_fs = (Inr (), s')"
    using demo_build by blast
  have "[1, 2, 3 :: u8] \<noteq> []" "length (ex_reset_shim demo_externs) = 4096"
    by (simp_all add: demo_externs_def)
  from tdx_shim_completes_the_image [OF b default_params demo_inputs(3) demo_facts(1,2) this(1)
      demo_facts(3,4) this(2)] b
  show ?thesis by blast
qed

text \<open>A shim page with one range, and what the shim reads of it.\<close>

lemma demo_shim_page:
  "\<exists>page. shim (replicate 4096 0) 0x1000200 [(0x200000, 0x3ff000)] = Inr page \<and>
     shim_entry page = Some 0x1000200 \<and> shim_ranges page 0xc08 = Some [(0x200000, 0x3ff000)]"
proof -
  let ?rs = "[(0x200000 :: u64, 0x3ff000 :: u64)]"
  let ?page = "blit 0xc00 (shim_data 0x1000200 ?rs) (replicate 4096 0)"
  have len: "length (replicate 4096 (0 :: u8)) = 4096" by simp
  have sh: "shim (replicate 4096 0) 0x1000200 ?rs = Inr ?page"
    by (simp add: shim_Inr_iff [OF len])
  have ok: "\<forall>r\<in>set ?rs. fst r < snd r" by simp
  from shim_page_contents [OF len sh ok] sh show ?thesis by blast
qed

text \<open>C18: on a module that gives every page it is asked for, at whichever page size it has, and with a
  page whose ranges are page-aligned and below the map limit, as the builder's are, the shim
  always reaches the kernel: it falls back to 4 KiB calls exactly where 2 MiB is refused.\<close>

theorem tdx_shim_reaches_the_kernel:
  assumes "shim_ranges page 0xc08 = Some rs" "\<forall>(lo, hi)\<in>set rs. mapped_range lo hi"
    "shim_entry page = Some rip"
  shows "\<exists>log. tdx_boot (willing_module large) page = Some (Entered rip ZERO_PAGE log)"
proof -
  have "unat SHIM_DATA + 8 = 0xc08" by (simp add: layout_consts)
  then have "accept_next (willing_module large) page =
      serve_ranges (accept_step (willing_module large)) page 0xc08 []"
    by (simp only: accept_next_def)
  with tdx_live.serve_ranges_live [OF assms(1,2), of large "[]"] assms(3)
  show ?thesis by (auto simp: tdx_boot_def)
qed

theorem tdx_shim_reaches_the_kernel_witness:
  "\<exists>page log. shim (replicate 4096 0) 0x1000200 [(0x200000, 0x3ff000)] = Inr page \<and>
     tdx_boot (willing_module (\<lambda>rcx. False)) page = Some (Entered 0x1000200 ZERO_PAGE log)"
proof -
  obtain page where page: "shim (replicate 4096 0) 0x1000200 [(0x200000, 0x3ff000)] = Inr page"
    "shim_entry page = Some 0x1000200" "shim_ranges page 0xc08 = Some [(0x200000, 0x3ff000)]"
    using demo_shim_page by blast
  have m: "\<forall>(lo, hi)\<in>set [(0x200000 :: u64, 0x3ff000 :: u64)]. mapped_range lo hi"
    by (simp add: mapped_range_def layout_consts is_multiple_of_def)
  from tdx_shim_reaches_the_kernel [OF page(3) m page(2)] page(1) show ?thesis by blast
qed

end
