(* ===== verification/Snp.thy ===== *)
theory Snp
  imports Image
begin

text \<open>
  src/src/snp.rs: the SEV-SNP builder. The measured VMSAs, the CC blob, the launch measurement,
  the ID block and \<open>build_snp\<close> (\<open>snp::build\<close>). SHA-384, the bytes of a VMSA and ECDSA are
  parameters (\<open>externs\<close>); fixed-size arrays are lists, and a copy that the source does with
  \<open>copy_from_slice\<close> is \<open>poke\<close>, so a wrong length is a panic here as there.
\<close>

section \<open>Constants\<close>

definition SNP_COMPAT :: u32 where [layout_consts]: "SNP_COMPAT = 1"
definition REQUIRED_MEMORY_MAX :: u64 where [layout_consts]: "REQUIRED_MEMORY_MAX = 0xfffff000"

definition PAGE_INFO_LEN :: u16 where [layout_consts]: "PAGE_INFO_LEN = 112"
definition PAGE_INFO_CONTENTS :: nat where [layout_consts]: "PAGE_INFO_CONTENTS = 48"
definition PAGE_INFO_LENGTH :: nat where [layout_consts]: "PAGE_INFO_LENGTH = 96"
definition PAGE_INFO_TYPE :: nat where [layout_consts]: "PAGE_INFO_TYPE = 98"
definition PAGE_INFO_GPA :: nat where [layout_consts]: "PAGE_INFO_GPA = 104"
definition PAGE_NORMAL :: u8 where [layout_consts]: "PAGE_NORMAL = 1"
definition PAGE_VMSA :: u8 where [layout_consts]: "PAGE_VMSA = 2"
definition PAGE_SECRETS :: u8 where [layout_consts]: "PAGE_SECRETS = 5"
definition PAGE_CPUID :: u8 where [layout_consts]: "PAGE_CPUID = 6"

definition ID_KEY_ECDSA_P384 :: u32 where [layout_consts]: "ID_KEY_ECDSA_P384 = 1"
definition ID_CURVE_P384 :: u32 where [layout_consts]: "ID_CURVE_P384 = 2"
definition ID_BLOCK_VERSION :: u32 where [layout_consts]: "ID_BLOCK_VERSION = 1"
definition ID_BLOCK_LEN :: nat where [layout_consts]: "ID_BLOCK_LEN = 0x60"
definition ID_BLOCK_LD :: nat where [layout_consts]: "ID_BLOCK_LD = 0"
definition ID_BLOCK_VERSION_AT :: nat where [layout_consts]: "ID_BLOCK_VERSION_AT = 0x50"
definition ID_BLOCK_SVN :: nat where [layout_consts]: "ID_BLOCK_SVN = 0x54"
definition ID_BLOCK_POLICY :: nat where [layout_consts]: "ID_BLOCK_POLICY = 0x58"
definition SEV_KEY_LEN :: nat where [layout_consts]: "SEV_KEY_LEN = 0x404"
definition SEV_KEY_CURVE :: nat where [layout_consts]: "SEV_KEY_CURVE = 0"
definition SEV_KEY_QX :: nat where [layout_consts]: "SEV_KEY_QX = 4"
definition SEV_KEY_QY :: nat where [layout_consts]: "SEV_KEY_QY = 76"
definition ECDSA_COMPONENT_LEN :: nat where [layout_consts]: "ECDSA_COMPONENT_LEN = 72"

definition VMSA_CR0 :: u64 where [layout_consts]: "VMSA_CR0 = 0x31"
definition VMSA_CR4 :: u64 where [layout_consts]: "VMSA_CR4 = 0x60"
definition VMSA_EFER :: u64 where [layout_consts]: "VMSA_EFER = 0x1000"
definition VMSA_RFLAGS :: u64 where [layout_consts]: "VMSA_RFLAGS = 2"
definition VMSA_XCR0 :: u64 where [layout_consts]: "VMSA_XCR0 = 1"
definition VMSA_PAT :: u64 where [layout_consts]: "VMSA_PAT = 0x0007040600070406"
definition VMSA_DR6 :: u64 where [layout_consts]: "VMSA_DR6 = 0xffff0ff0"
definition VMSA_DR7 :: u64 where [layout_consts]: "VMSA_DR7 = 0x400"
definition VMSA_MXCSR :: u32 where [layout_consts]: "VMSA_MXCSR = 0x1f80"
definition VMSA_X87_FCW :: u16 where [layout_consts]: "VMSA_X87_FCW = 0x037f"
definition SEG_CODE32_ATTR :: u16 where [layout_consts]: "SEG_CODE32_ATTR = 0x0c9b"
definition SEG_DATA_ATTR :: u16 where [layout_consts]: "SEG_DATA_ATTR = 0x0c93"
definition SEG_LIMIT :: u32 where [layout_consts]: "SEG_LIMIT = 0xffffffff"

definition SETUP_DATA_TYPE :: nat where [layout_consts]: "SETUP_DATA_TYPE = 8"
definition SETUP_DATA_LEN :: nat where [layout_consts]: "SETUP_DATA_LEN = 12"
definition SETUP_DATA_DATA :: nat where [layout_consts]: "SETUP_DATA_DATA = 16"
definition SETUP_DATA_HEADER :: u32 where [layout_consts]: "SETUP_DATA_HEADER = 16"
definition SETUP_CC_BLOB :: u32 where [layout_consts]: "SETUP_CC_BLOB = 7"
definition CC_BLOB_INFO :: nat where [layout_consts]: "CC_BLOB_INFO = 32"
definition CC_MAGIC :: bytes where "CC_MAGIC = [65, 77, 68, 69]"
definition CC_VERSION :: nat where [layout_consts]: "CC_VERSION = 4"
definition CC_SECRETS_PHYS :: nat where [layout_consts]: "CC_SECRETS_PHYS = 8"
definition CC_SECRETS_LEN :: nat where [layout_consts]: "CC_SECRETS_LEN = 16"
definition CC_CPUID_PHYS :: nat where [layout_consts]: "CC_CPUID_PHYS = 24"
definition CC_CPUID_LEN :: nat where [layout_consts]: "CC_CPUID_LEN = 32"

section \<open>The processor state\<close>

definition zero_selector :: sev_selector where
  "zero_selector = \<lparr>sel_selector = 0, sel_attrib = 0, sel_limit = 0, sel_base = 0\<rparr>"

text \<open>\<open>SevVmsa::new_box_zeroed\<close>.\<close>

definition zeroed_vmsa :: sev_vmsa where
  "zeroed_vmsa =
     \<lparr>v_es = zero_selector, v_cs = zero_selector, v_ss = zero_selector, v_ds = zero_selector,
      v_fs = zero_selector, v_gs = zero_selector, v_gdtr = zero_selector, v_ldtr = zero_selector,
      v_idtr = zero_selector, v_tr = zero_selector, v_vmpl = 0, v_efer = 0, v_cr4 = 0, v_cr3 = 0,
      v_cr0 = 0, v_dr7 = 0, v_dr6 = 0, v_rflags = 0, v_rip = 0, v_rsp = 0, v_pat = 0, v_rdx = 0,
      v_rsi = 0, v_sev_features = 0, v_xcr0 = 0, v_mxcsr = 0, v_x87_fcw = 0\<rparr>"

definition bsp_vmsa :: "('f, 'k) externs \<Rightarrow> sev_vmsa" where
  "bsp_vmsa ex =
     (let data = \<lparr>sel_selector = ucast BOOT_DS, sel_attrib = SEG_DATA_ATTR, sel_limit = SEG_LIMIT,
                  sel_base = 0\<rparr>;
          idtr = \<lparr>sel_selector = 0, sel_attrib = 0, sel_limit = 0, sel_base = 0\<rparr>
      in zeroed_vmsa\<lparr>v_es := data, v_ss := data, v_ds := data, v_fs := data, v_gs := data,
        v_cs := \<lparr>sel_selector = ucast BOOT_CS32, sel_attrib = SEG_CODE32_ATTR,
                 sel_limit = SEG_LIMIT, sel_base = 0\<rparr>,
        v_gdtr := \<lparr>sel_selector = 0, sel_attrib = 0, sel_limit = ucast GDT_LIMIT,
                   sel_base = BSP_STACK\<rparr>,
        v_idtr := idtr, v_ldtr := idtr, v_tr := idtr,
        v_efer := VMSA_EFER, v_cr4 := VMSA_CR4, v_cr3 := 0, v_cr0 := VMSA_CR0,
        v_dr6 := VMSA_DR6, v_dr7 := VMSA_DR7, v_rflags := VMSA_RFLAGS, v_rip := SHIM_BASE,
        v_rsp := BSP_STACK_TOP, v_rsi := ZERO_PAGE, v_pat := VMSA_PAT, v_xcr0 := VMSA_XCR0,
        v_mxcsr := VMSA_MXCSR, v_x87_fcw := VMSA_X87_FCW, v_sev_features := ex_with_snp ex\<rparr>)"

definition ap_vmsa :: "('f, 'k) externs \<Rightarrow> sev_vmsa" where
  "ap_vmsa ex = (bsp_vmsa ex)\<lparr>v_rip := SNP_AP_ENTRY, v_rsp := 0, v_rsi := 0\<rparr>"

definition pinned_segment :: "sev_selector \<Rightarrow> u64 \<Rightarrow> u16 \<Rightarrow> bool" where
  "pinned_segment s sel attrib \<longleftrightarrow>
     sel_selector s = ucast sel \<and> sel_attrib s = attrib \<and> sel_limit s = SEG_LIMIT \<and> sel_base s = 0"

definition validate_vmsa :: "sev_vmsa \<Rightarrow> u64 \<Rightarrow> u64 \<Rightarrow> u64 \<Rightarrow> unit result" where
  "validate_vmsa v rip rsp rsi =
     (let pinned = v_cr0 v = VMSA_CR0 \<and> v_cr3 v = 0 \<and> v_cr4 v = VMSA_CR4 \<and> v_efer v = VMSA_EFER
        \<and> v_rdx v = 0 \<and> v_rip v = rip \<and> v_rsp v = rsp \<and> v_rsi v = rsi
        \<and> v_rflags v = VMSA_RFLAGS \<and> v_vmpl v = 0 \<and> v_dr6 v = VMSA_DR6 \<and> v_dr7 v = VMSA_DR7
        \<and> v_pat v = VMSA_PAT \<and> v_xcr0 v = VMSA_XCR0 \<and> v_mxcsr v = VMSA_MXCSR
        \<and> v_x87_fcw v = VMSA_X87_FCW \<and> sel_base (v_gdtr v) = BSP_STACK
        \<and> sel_limit (v_gdtr v) = ucast GDT_LIMIT \<and> sel_limit (v_idtr v) = 0
        \<and> pinned_segment (v_cs v) BOOT_CS32 SEG_CODE32_ATTR
        \<and> pinned_segment (v_ds v) BOOT_DS SEG_DATA_ATTR
        \<and> pinned_segment (v_ss v) BOOT_DS SEG_DATA_ATTR
        \<and> v_sev_features v = SNP_SEV_FEATURES
      in if \<not> pinned then Inl (Snp VmsaInvariant) else Inr ())"

definition vmsa_page :: "('f, 'k) externs \<Rightarrow> sev_vmsa \<Rightarrow> bytes option" where
  "vmsa_page ex v = poke 0 (ex_vmsa_bytes ex v) (replicate (unat PAGE) 0)"

section \<open>The CC blob\<close>

definition cc_blob :: "bytes option" where
  "cc_blob = do {
     let v = replicate (unat PAGE) 0;
     v \<leftarrow> put32 SETUP_DATA_TYPE SETUP_CC_BLOB v;
     v \<leftarrow> put32 SETUP_DATA_LEN (ucast PAGE - SETUP_DATA_HEADER) v;
     v \<leftarrow> put32 SETUP_DATA_DATA (ucast (SNP_CC_BLOB + of_nat CC_BLOB_INFO)) v;
     v \<leftarrow> poke CC_BLOB_INFO CC_MAGIC v;
     v \<leftarrow> poke (CC_BLOB_INFO + CC_VERSION) (le16 1) v;
     v \<leftarrow> put64 (CC_BLOB_INFO + CC_SECRETS_PHYS) SNP_SECRETS v;
     v \<leftarrow> put32 (CC_BLOB_INFO + CC_SECRETS_LEN) (ucast PAGE) v;
     v \<leftarrow> put64 (CC_BLOB_INFO + CC_CPUID_PHYS) SNP_CPUID v;
     put32 (CC_BLOB_INFO + CC_CPUID_LEN) (ucast PAGE) v
   }"

section \<open>Launch pages and their measurement\<close>

record launch_page =
  lp_gpa :: u64
  lp_data :: bytes
  lp_kind :: page_type

definition measure_kind :: "page_type \<Rightarrow> u8" where
  "measure_kind kind = (case kind of
       SECRETS \<Rightarrow> PAGE_SECRETS
     | CPUID_DATA \<Rightarrow> PAGE_CPUID
     | _ \<Rightarrow> PAGE_NORMAL)"

definition page_info :: "bytes \<Rightarrow> bytes \<Rightarrow> u8 \<Rightarrow> u64 \<Rightarrow> bytes option" where
  "page_info old content kind gpa = do {
     info \<leftarrow> poke 0 old (replicate (unat PAGE_INFO_LEN) 0);
     info \<leftarrow> poke PAGE_INFO_CONTENTS content info;
     info \<leftarrow> poke PAGE_INFO_LENGTH (le16 PAGE_INFO_LEN) info;
     info \<leftarrow> put8 PAGE_INFO_TYPE kind info;
     poke PAGE_INFO_GPA (le64 gpa) info
   }"

definition extend_digest :: "(bytes \<Rightarrow> bytes) \<Rightarrow> bytes \<Rightarrow> u64 \<Rightarrow> u8 \<Rightarrow> bytes \<Rightarrow> bytes option" where
  "extend_digest sha384 old gpa kind page =
     (let content = (if kind = PAGE_NORMAL \<or> kind = PAGE_VMSA then sha384 page else replicate 48 0)
      in map_option sha384 (page_info old content kind gpa))"

fun measure_pages :: "(bytes \<Rightarrow> bytes) \<Rightarrow> bytes \<Rightarrow> launch_page list \<Rightarrow> bytes option" where
  "measure_pages sha384 digest [] = Some digest"
| "measure_pages sha384 digest (p # ps) =
     Option.bind (extend_digest sha384 digest (lp_gpa p) (measure_kind (lp_kind p)) (lp_data p))
       (\<lambda>digest. measure_pages sha384 digest ps)"

fun measure_vmsas :: "(bytes \<Rightarrow> bytes) \<Rightarrow> bytes \<Rightarrow> bytes list \<Rightarrow> bytes option" where
  "measure_vmsas sha384 digest [] = Some digest"
| "measure_vmsas sha384 digest (v # vs) =
     Option.bind (extend_digest sha384 digest SNP_VMSA PAGE_VMSA v)
       (\<lambda>digest. measure_vmsas sha384 digest vs)"

definition launch_measurement ::
  "(bytes \<Rightarrow> bytes) \<Rightarrow> launch_page list \<Rightarrow> bytes list \<Rightarrow> bytes option" where
  "launch_measurement sha384 pgs vmsas =
     Option.bind (measure_pages sha384 (replicate 48 0) pgs)
       (\<lambda>digest. measure_vmsas sha384 digest vmsas)"

definition add_normal :: "launch_page list \<Rightarrow> u64 \<Rightarrow> bytes \<Rightarrow> launch_page list" where
  "add_normal out b data =
     out @ map (\<lambda>(gpa, data). \<lparr>lp_gpa = gpa, lp_data = data, lp_kind = NORMAL\<rparr>) (pages b data)"

definition add_special :: "launch_page list \<Rightarrow> u64 \<Rightarrow> page_type \<Rightarrow> launch_page list" where
  "add_special out gpa kind =
     out @ [\<lparr>lp_gpa = gpa, lp_data = replicate (unat PAGE) 0, lp_kind = kind\<rparr>]"

definition add_region :: "launch_page list \<Rightarrow> placed \<Rightarrow> launch_page list" where
  "add_region out region = (case pl_fill region of
       Host \<Rightarrow> if pl_base region = SNP_CPUID then add_special out (pl_base region) CPUID_DATA
               else add_special out (pl_base region) SECRETS
     | Measured data \<Rightarrow> add_normal out (pl_base region) data
     | Mmio _ \<Rightarrow> out)"

definition snp_pages :: "placed list \<Rightarrow> launch_page list" where
  "snp_pages placed = foldl add_region [] placed"

fun check_pages :: "(launch_page \<times> launch_page) list \<Rightarrow> unit result" where
  "check_pages [] = Inr ()"
| "check_pages ((a, b) # rest) =
     (if lp_gpa a + PAGE > lp_gpa b then Inl (Snp (SnpPagesOverlap (lp_gpa b)))
      else check_pages rest)"

definition validate_pages :: "launch_page list \<Rightarrow> unit result" where
  "validate_pages ps = check_pages (windows2 ps)"

section \<open>The ID block\<close>

definition le72 :: "bytes \<Rightarrow> bytes option" where
  "le72 big_endian = poke 0 (rev big_endian) (replicate ECDSA_COMPONENT_LEN 0)"

definition sev_key :: "id_public_key \<Rightarrow> bytes option" where
  "sev_key public = do {
     k \<leftarrow> poke SEV_KEY_CURVE (le32 (pk_curve public)) (replicate SEV_KEY_LEN 0);
     k \<leftarrow> poke SEV_KEY_QX (pk_qx public) k;
     poke SEV_KEY_QY (pk_qy public) k
   }"

definition key_digest :: "(bytes \<Rightarrow> bytes) \<Rightarrow> id_public_key \<Rightarrow> bytes option" where
  "key_digest sha384 public = map_option sha384 (sev_key public)"

text \<open>The bytes the signature covers.\<close>

definition id_block_bytes :: "bytes \<Rightarrow> u32 \<Rightarrow> bytes option" where
  "id_block_bytes ld guest_svn = do {
     b \<leftarrow> poke ID_BLOCK_LD ld (replicate ID_BLOCK_LEN 0);
     b \<leftarrow> poke ID_BLOCK_VERSION_AT (le32 ID_BLOCK_VERSION) b;
     b \<leftarrow> poke ID_BLOCK_SVN (le32 guest_svn) b;
     poke ID_BLOCK_POLICY (le64 SNP_GUEST_POLICY) b
   }"

definition zeroed_signature :: id_signature where
  "zeroed_signature = \<lparr>sg_r = replicate 72 0, sg_s = replicate 72 0\<rparr>"

definition zeroed_public_key :: id_public_key where
  "zeroed_public_key = \<lparr>pk_curve = 0, pk_qx = replicate 72 0, pk_qy = replicate 72 0\<rparr>"

definition id_block ::
  "('f, 'k) externs \<Rightarrow> rstr \<Rightarrow> bytes \<Rightarrow> u32 \<Rightarrow> (directive \<times> bytes) result" where
  "id_block ex pem ld guest_svn =
     bind_result (extern_result ParseIdKey (ex_parse_key ex pem)) (\<lambda>key.
     bind_result (or_panic (id_block_bytes ld guest_svn)) (\<lambda>block.
     let (r, s) = ex_sign ex key block; point = ex_point ex key in
     bind_result (or_error (Snp IdKeyNotAffine) (fst point)) (\<lambda>x.
     bind_result (or_panic (le72 x)) (\<lambda>qx.
     bind_result (or_error (Snp IdKeyNotAffine) (snd point)) (\<lambda>y.
     bind_result (or_panic (le72 y)) (\<lambda>qy.
     let public = \<lparr>pk_curve = ID_CURVE_P384, pk_qx = qx, pk_qy = qy\<rparr> in
     bind_result (or_panic (key_digest (ex_sha384 ex) public)) (\<lambda>key_digest.
     bind_result (or_panic (le72 r)) (\<lambda>r_comp.
     bind_result (or_panic (le72 s)) (\<lambda>s_comp.
     Inr (SnpIdBlock
       \<lparr>ib_mask = SNP_COMPAT, ib_author_key_enabled = 0, ib_ld = ld,
        ib_family_id = replicate 16 0, ib_image_id = replicate 16 0,
        ib_version = ID_BLOCK_VERSION, ib_guest_svn = guest_svn,
        ib_id_key_algorithm = ID_KEY_ECDSA_P384, ib_author_key_algorithm = 0,
        ib_id_key_signature = \<lparr>sg_r = r_comp, sg_s = s_comp\<rparr>, ib_id_public_key = public,
        ib_author_key_signature = zeroed_signature, ib_author_public_key = zeroed_public_key\<rparr>,
       key_digest))))))))))"

definition snp_launch ::
  "('f, 'k) externs \<Rightarrow> bytes \<Rightarrow> rstr \<Rightarrow> u32 \<Rightarrow> bytes option \<Rightarrow> launch" where
  "snp_launch ex measurement host_data guest_svn sealed =
     [lit ''measurement'' \<mapsto> ex_hex ex measurement,
      lit ''policy'' \<mapsto> lit ''0x'' @ fmt_hex 16 (unat SNP_GUEST_POLICY),
      lit ''guest_svn'' \<mapsto> show_radix 10 (unat guest_svn),
      lit ''host_data'' \<mapsto> host_data,
      lit ''id_key_digest'' \<mapsto> (case sealed of None \<Rightarrow> zeros 48 | Some d \<Rightarrow> ex_hex ex d)]"

section \<open>The directives of the file\<close>

text \<open>The runs of memory E820 claims, whatever its type, and the directives that require them.\<close>

definition push_span :: "(u64 \<times> u64) list \<Rightarrow> e820_entry \<Rightarrow> (u64 \<times> u64) list" where
  "push_span out e = (case e of (b, n, _) \<Rightarrow>
     if out \<noteq> [] \<and> snd (last out) = b then butlast out @ [(fst (last out), b + n)]
     else out @ [(b, b + n)])"

definition memory_spans :: "e820_entry list \<Rightarrow> (u64 \<times> u64) list" where
  "memory_spans emap = foldl push_span [] emap"

function require_span :: "u64 \<Rightarrow> u64 \<Rightarrow> directive list" where
  "require_span at stop =
     (if at < stop
      then let n = min (stop - at) REQUIRED_MEMORY_MAX
           in RequiredMemory at SNP_COMPAT (ucast n) False # require_span (at + n) stop
      else [])"
  by pat_completeness auto
termination
proof (relation "measure (\<lambda>(at, stop). unat (stop - at))")
  fix at stop n :: u64
  assume less: "at < stop" and n: "n = min (stop - at) REQUIRED_MEMORY_MAX"
  have "stop - at \<noteq> 0" using less by auto
  then have "0 < n" by (simp add: n REQUIRED_MEMORY_MAX_def word_gt_0 min_def)
  moreover have "n \<le> stop - at" unfolding n by (rule min.cobounded1)
  ultimately have "unat (stop - at - n) < unat (stop - at)"
    by (simp add: unat_sub word_less_nat_alt word_le_nat_alt)
  then show "((at + n, stop), (at, stop)) \<in> measure (\<lambda>(at, stop). unat (stop - at))"
    by (simp add: diff_diff_eq)
qed simp

declare require_span.simps [simp del]

definition required_memory :: "e820_entry list \<Rightarrow> directive list" where
  "required_memory emap = concat (map (\<lambda>(b, e). require_span b e) (memory_spans emap))"

definition page_directives :: "launch_page list \<Rightarrow> directive list" where
  "page_directives pgs = map (\<lambda>p. page_directive (lp_gpa p) (lp_kind p) (lp_data p)) pgs"

definition vp_contexts :: "('f, 'k) externs \<Rightarrow> u32 \<Rightarrow> directive list" where
  "vp_contexts ex vcpus =
     map (\<lambda>vp_index. SnpVpContext SNP_VMSA SNP_COMPAT (of_nat vp_index)
           (if vp_index = 0 then bsp_vmsa ex else ap_vmsa ex))
       [0..<unat (ucast vcpus :: u16)]"

definition snp_platform :: platform_header where
  "snp_platform = \<lparr>ph_mask = SNP_COMPAT, ph_highest_vtl = 0, ph_type = SEV_SNP, ph_version = 1,
     ph_shared_gpa_boundary = 0\<rparr>"

section \<open>The builder\<close>

definition snp_regions ::
  "params \<Rightarrow> prepared \<Rightarrow> bytes \<Rightarrow> bytes \<Rightarrow> bytes \<Rightarrow> bytes \<Rightarrow> placed list" where
  "snp_regions params p acpi blob tables stack =
     [placed_measured ZERO_PAGE [] RESERVED (replicate (unat PAGE) 0),
      placed_measured CMDLINE (lit ''command_line'') RESERVED (pr_command p),
      placed_measured ACPI_BASE (lit ''acpi'') ACPI acpi,
      placed_host SNP_CPUID,
      placed_host SNP_SECRETS,
      placed_measured SNP_CC_BLOB (lit ''cc_blob'') RAM blob,
      placed_measured PAGE_TABLES [] RESERVED tables,
      placed_measured BSP_STACK [] RESERVED stack,
      placed_measured SNP_GHCB [] RESERVED (replicate (unat PAGE) 0),
      placed_measured SHIM_BASE (lit ''shim'') RESERVED (replicate (unat PAGE) 0),
      placed_measured KERNEL_SETUP_BASE (lit ''kernel_setup'') RESERVED (pr_setup p),
      placed_measured KERNEL_BASE (lit ''kernel'') RAM (pr_kernel p),
      placed_measured INITRAMFS_BASE (lit ''initramfs'') RAM (pr_initramfs p)]
     @ map (\<lambda>(b, n). placed_mmio b n) (p_mmio params)"

definition snp_place ::
  "('f, 'k) externs \<Rightarrow> params \<Rightarrow> prepared \<Rightarrow> (placed list \<times> e820_entry list \<times> nat) result" where
  "snp_place ex params p =
     bind_result (or_panic (acpi_build (p_vcpus params) False)) (\<lambda>acpi.
     bind_result (or_panic cc_blob) (\<lambda>blob.
     bind_result (or_panic (identity_map (ucast (p_cbit params)) True)) (\<lambda>tables.
     bind_result (or_panic gdt_stack) (\<lambda>stack.
     let placed = snp_regions params p acpi blob tables stack in
     bind_result (validate placed (p_memory params)) (\<lambda>_.
     let emap = e820 placed (p_memory params) in
     bind_result (zero_page (pr_setup p) (pr_info p) (length (pr_initramfs p)) ACPI_BASE emap
       SNP_CC_BLOB) (\<lambda>zero.
     bind_result (fill_region placed ZERO_PAGE zero) (\<lambda>placed.
     let accept = accept_ranges placed (p_memory params) in
     bind_result (shim (ex_snp_shim ex) (pr_entry p) accept) (\<lambda>shim_page.
     bind_result (fill_region placed SHIM_BASE shim_page) (\<lambda>placed.
     bind_result (shim_owned placed) (\<lambda>owned.
     Inr (placed, emap, owned)))))))))))"

text \<open>The pages and VMSAs of the launch and their measurement.\<close>

definition snp_measured ::
  "('f, 'k) externs \<Rightarrow> params \<Rightarrow> placed list \<Rightarrow> (launch_page list \<times> bytes \<times> bytes \<times> bytes) result" where
  "snp_measured ex params placed =
     (let pgs = snp_pages placed in
      bind_result (validate_pages pgs) (\<lambda>_.
      bind_result (validate_vmsa (bsp_vmsa ex) SHIM_BASE BSP_STACK_TOP ZERO_PAGE) (\<lambda>_.
      bind_result (validate_vmsa (ap_vmsa ex) SNP_AP_ENTRY 0 0) (\<lambda>_.
      bind_result (or_panic (vmsa_page ex (bsp_vmsa ex))) (\<lambda>vmsa.
      bind_result (or_panic (vmsa_page ex (ap_vmsa ex))) (\<lambda>ap_page.
      let vmsa_pages = vmsa # map (\<lambda>_. ap_page) [1..<unat (p_vcpus params)] in
      bind_result (or_panic (launch_measurement (ex_sha384 ex) pgs vmsa_pages)) (\<lambda>measurement.
      Inr (pgs, vmsa, ap_page, measurement))))))))"

definition snp_file ::
  "('f, 'k) externs \<Rightarrow> directive list \<Rightarrow> bytes result" where
  "snp_file ex directives =
     bind_result (extern_result IgvmConstruct (ex_igvm_new ex [snp_platform]
       [GuestPolicy SNP_GUEST_POLICY SNP_COMPAT] directives)) (\<lambda>f.
     bind_result (extern_result IgvmSerialize (ex_igvm_serialize ex f)) (\<lambda>serialized.
     bind_result (extern_result IgvmReadBack (ex_igvm_parse ex serialized)) (\<lambda>_.
     Inr serialized)))"

text \<open>The signature, when a key is given: its directive and the key's digest.\<close>

definition snp_sign ::
  "('f, 'k) externs \<Rightarrow> rstr option \<Rightarrow> bytes \<Rightarrow> u32 \<Rightarrow> (directive list \<times> bytes option) io" where
  "snp_sign ex id_key measurement guest_svn = (case id_key of
       None \<Rightarrow> io_return ([], None)
     | Some path \<Rightarrow>
         io_bind (fs_read_to_string ''read ID key'' path) (\<lambda>pem.
         io_bind (io_lift (id_block ex pem measurement guest_svn)) (\<lambda>(header, digest).
         io_return ([header], Some digest))))"

definition snp_manifest_of ::
  "('f, 'k) externs \<Rightarrow> params \<Rightarrow> prepared \<Rightarrow> placed list \<Rightarrow> nat \<Rightarrow> bytes \<Rightarrow> bytes \<Rightarrow> bytes \<Rightarrow>
   rstr \<Rightarrow> u32 \<Rightarrow> bytes option \<Rightarrow> snp_manifest" where
  "snp_manifest_of ex params p placed owned vmsa ap_page measurement host_data guest_svn sealed =
     (let comps = (components ex placed)(lit ''vmsa'' \<mapsto> component_of ex SNP_VMSA vmsa);
          comps = (if p_vcpus params > 1
                   then comps(lit ''vmsa_ap'' \<mapsto> component_of ex SNP_VMSA ap_page) else comps)
      in \<lparr>sm_format_version = 2, sm_platform = lit ''sev-snp'', sm_memory_bytes = p_memory params,
          sm_topology = \<lparr>tp_sockets = 1, tp_cores = ucast (p_vcpus params),
            tp_threads_per_core = 1, tp_vcpus = p_vcpus params\<rparr>,
          sm_command_line = p_cmdline params, sm_mmio_holes = mmio_holes params,
          sm_kernel_entry = lit ''0x'' @ fmt_hex 8 (unat (pr_entry p)),
          sm_expected_snp_measurement = ex_hex ex measurement,
          sm_guest_policy = lit ''0x'' @ fmt_hex 16 (unat SNP_GUEST_POLICY),
          sm_c_bit_position = p_cbit params,
          sm_sev_features = lit ''0x'' @ fmt_hex 16 (unat SNP_SEV_FEATURES),
          sm_shim_owned_bytes = owned,
          sm_launch = snp_launch ex measurement host_data guest_svn sealed,
          sm_components = comps\<rparr>)"

definition build_snp ::
  "('f, 'k) externs \<Rightarrow> rstr \<Rightarrow> rstr \<Rightarrow> rstr \<Rightarrow> params \<Rightarrow> rstr option \<Rightarrow> rstr option \<Rightarrow> u32 \<Rightarrow> unit io" where
  "build_snp ex kernel_path initramfs_path output params config_hash id_key guest_svn =
     (if guest_svn \<noteq> 0 \<and> id_key = None then io_lift (Inl (Snp SvnNeedsKey))
      else
        io_bind (io_lift (config_field config_hash 32)) (\<lambda>host_data.
        io_bind (prepare kernel_path initramfs_path params) (\<lambda>p.
        io_bind (io_lift (snp_place ex params p)) (\<lambda>(placed, emap, owned).
        let placed = sort_key pl_base placed in
        io_bind (io_lift (snp_measured ex params placed)) (\<lambda>(pgs, vmsa, ap_page, measurement).
        io_bind (snp_sign ex id_key measurement guest_svn) (\<lambda>(headers, sealed).
        let directives = required_memory emap @ page_directives pgs
                         @ vp_contexts ex (p_vcpus params) @ headers in
        io_bind (io_lift (snp_file ex directives)) (\<lambda>serialized.
        io_bind (fs_write ''write SNP IGVM'' output serialized) (\<lambda>_.
        write_manifest output (ex_json_snp ex
          (snp_manifest_of ex params p placed owned vmsa ap_page measurement host_data guest_svn
             sealed))))))))))"

end
