(* ===== verification/Snp_Measure.thy ===== *)
theory Snp_Measure
  imports Snp Launch
begin

text \<open>
  What the SNP launch measurement commits to. \<open>digest_chain\<close> is the contract of a digest that
  grows one block at a time, each block determining the previous digest and one item; its
  lemma reduces two runs with one result to equal items, a collision between two blocks that
  were hashed, or a block that hashes to the start value. The PAGE_INFO structure provides it.
\<close>

section \<open>Digests that grow block by block\<close>

locale digest_chain =
  fixes link :: "bytes \<Rightarrow> 'i \<Rightarrow> bytes" and digest_len :: nat and item_ok :: "'i \<Rightarrow> bool"
  assumes link_inject: "length d = digest_len \<Longrightarrow> length e = digest_len \<Longrightarrow> item_ok i \<Longrightarrow> item_ok j \<Longrightarrow>
    link d i = link e j \<Longrightarrow> d = e \<and> i = j"
begin

fun run :: "(bytes \<Rightarrow> bytes) \<Rightarrow> bytes \<Rightarrow> 'i list \<Rightarrow> bytes" where
  "run h d [] = d"
| "run h d (i # is) = run h (h (link d i)) is"

fun blocks :: "(bytes \<Rightarrow> bytes) \<Rightarrow> bytes \<Rightarrow> 'i list \<Rightarrow> bytes list" where
  "blocks h d [] = []"
| "blocks h d (i # is) = link d i # blocks h (h (link d i)) is"

lemma run_snoc: "run h d (is @ [i]) = h (link (run h d is) i)"
  by (induction "is" arbitrary: d) auto

lemma blocks_snoc: "blocks h d (is @ [i]) = blocks h d is @ [link (run h d is) i]"
  by (induction "is" arbitrary: d) auto

lemma length_run: "\<forall>x. length (h x) = digest_len \<Longrightarrow> length d = digest_len \<Longrightarrow>
    length (run h d is) = digest_len"
  by (induction "is" arbitrary: d) auto

lemma commits:
  assumes "\<forall>x. length (h x) = digest_len" "length d = digest_len"
    "\<forall>i\<in>set is. item_ok i" "\<forall>j\<in>set js. item_ok j" "run h d is = run h d js"
  shows "is = js \<or>
    (\<exists>x\<in>set (blocks h d is). \<exists>y\<in>set (blocks h d js). x \<noteq> y \<and> h x = h y) \<or>
    (\<exists>x\<in>set (blocks h d is) \<union> set (blocks h d js). h x = d)"
  using assms(3-5)
proof (induction "is" arbitrary: js rule: rev_induct)
  case Nil
  show ?case
  proof (cases js rule: rev_cases)
    case Nil
    then show ?thesis by simp
  next
    case (snoc ys y)
    with Nil.prems have "h (link (run h d ys) y) = d" by (simp add: run_snoc)
    then show ?thesis using snoc by (auto simp: blocks_snoc)
  qed
next
  case (snoc i "is")
  show ?case
  proof (cases js rule: rev_cases)
    case Nil
    with snoc.prems have "h (link (run h d is) i) = d" by (simp add: run_snoc)
    then show ?thesis by (auto simp: blocks_snoc)
  next
    case js: (snoc ys y)
    let ?x = "link (run h d is) i" and ?y = "link (run h d ys) y"
    have eq: "h ?x = h ?y" using snoc.prems(3) js by (simp add: run_snoc)
    show ?thesis
    proof (cases "?x = ?y")
      case True
      have "run h d is = run h d ys \<and> i = y"
        by (rule link_inject [OF _ _ _ _ True])
          (use snoc.prems js assms(1,2) in \<open>simp_all add: length_run\<close>)
      then show ?thesis
        using snoc.IH [of ys] snoc.prems js by (auto simp: blocks_snoc)
    next
      case False
      with eq js show ?thesis by (auto simp: blocks_snoc)
    qed
  qed
qed

end

section \<open>The PAGE_INFO structure\<close>

text \<open>A measured item: the content field, the page type and the address.\<close>

definition info_block :: "bytes \<Rightarrow> bytes \<times> u8 \<times> u64 \<Rightarrow> bytes" where
  "info_block old i = (case i of (content, kind, gpa) \<Rightarrow>
     old @ content @ le16 112 @ [kind] @ replicate 5 0 @ le64 gpa)"

definition info_ok :: "bytes \<times> u8 \<times> u64 \<Rightarrow> bool" where
  "info_ok i \<longleftrightarrow> length (fst i) = 48"

lemma page_info_eq:
  assumes "length old = 48" "length content = 48"
  shows "page_info old content kind gpa = Some (info_block old (content, kind, gpa))"
proof -
  have "blit 104 (le64 gpa) (blit 98 [kind] (blit 96 (le16 112) (blit 48 content
      (blit 0 old (replicate 112 0))))) = info_block old (content, kind, gpa)"
    using assms by (simp add: blit_def info_block_def numeral_eq_Suc)
  then show ?thesis
    using assms by (simp add: page_info_def PAGE_INFO_LEN_def PAGE_INFO_CONTENTS_def
        PAGE_INFO_LENGTH_def PAGE_INFO_TYPE_def PAGE_INFO_GPA_def)
qed

interpretation snp_chain: digest_chain info_block 48 info_ok
  by unfold_locales (auto simp: info_block_def info_ok_def)

text \<open>What a launch page contributes: its contents only for the types the firmware hashes.\<close>

definition measured_item :: "(bytes \<Rightarrow> bytes) \<Rightarrow> u64 \<Rightarrow> u8 \<Rightarrow> bytes \<Rightarrow> bytes \<times> u8 \<times> u64" where
  "measured_item h gpa kind page =
     (if kind = PAGE_NORMAL \<or> kind = PAGE_VMSA then h page else replicate 48 0, kind, gpa)"

definition launch_items ::
  "(bytes \<Rightarrow> bytes) \<Rightarrow> launch_page list \<Rightarrow> bytes list \<Rightarrow> (bytes \<times> u8 \<times> u64) list" where
  "launch_items h pgs vmsas =
     map (\<lambda>p. measured_item h (lp_gpa p) (measure_kind (lp_kind p)) (lp_data p)) pgs
     @ map (measured_item h SNP_VMSA PAGE_VMSA) vmsas"

lemma launch_items_ok:
  "\<forall>x. length (h x) = 48 \<Longrightarrow> \<forall>i\<in>set (launch_items h pgs vmsas). info_ok i"
  by (auto simp: launch_items_def measured_item_def info_ok_def)

lemma extend_digest_eq:
  assumes "\<forall>x. length (h x) = 48" "length d = 48"
  shows "extend_digest h d gpa kind page = Some (h (info_block d (measured_item h gpa kind page)))"
  using assms by (simp add: extend_digest_def measured_item_def page_info_eq Let_def)

lemma launch_measurement_run:
  assumes "\<forall>x. length (h x) = 48"
  shows "launch_measurement h pgs vmsas =
    Some (snp_chain.run h (replicate 48 0) (launch_items h pgs vmsas))"
proof -
  have v: "measure_vmsas h d vmsas =
      Some (snp_chain.run h d (map (measured_item h SNP_VMSA PAGE_VMSA) vmsas))"
    if "length d = 48" for d
    using that by (induction vmsas arbitrary: d) (simp_all add: extend_digest_eq assms)
  have "Option.bind (measure_pages h d pgs) (\<lambda>d. measure_vmsas h d vmsas) =
      Some (snp_chain.run h d (launch_items h pgs vmsas))" if "length d = 48" for d
    using that
    by (induction pgs arbitrary: d) (simp_all add: launch_items_def v extend_digest_eq assms)
  then show ?thesis by (simp add: launch_measurement_def)
qed

text \<open>C24: the launch measurement is a commitment to what the loader imports: two launches with the same
  measurement import the same items, in order (each page's address and type, and the digest of
  its contents where the firmware hashes them), or two of the blocks hashed on the way collide,
  or one of them hashes to the all-zero digest the chain starts from.\<close>

theorem snp_measurement_commits:
  assumes "\<forall>x. length (h x) = 48" "launch_measurement h ps vs = launch_measurement h qs ws"
  shows "launch_items h ps vs = launch_items h qs ws \<or>
    (\<exists>x\<in>set (snp_chain.blocks h (replicate 48 0) (launch_items h ps vs)).
     \<exists>y\<in>set (snp_chain.blocks h (replicate 48 0) (launch_items h qs ws)). x \<noteq> y \<and> h x = h y) \<or>
    (\<exists>x\<in>set (snp_chain.blocks h (replicate 48 0) (launch_items h ps vs)) \<union>
          set (snp_chain.blocks h (replicate 48 0) (launch_items h qs ws)). h x = replicate 48 0)"
  using assms(2) unfolding launch_measurement_run [OF assms(1)] option.inject
  by (intro snp_chain.commits assms(1) launch_items_ok) simp_all

theorem snp_measurement_commits_witness:
  "let h = (\<lambda>bs :: bytes. replicate 48 (1 :: u8));
       page = (\<lambda>at. \<lparr>lp_gpa = at, lp_data = [7], lp_kind = NORMAL\<rparr>);
       one = launch_items h [page 0x1000] [[9]]; two = launch_items h [page 0x2000] [[9]]
   in launch_measurement h [page 0x1000] [[9]] = launch_measurement h [page 0x2000] [[9]] \<and>
      one \<noteq> two \<and>
      (\<exists>x\<in>set (snp_chain.blocks h (replicate 48 0) one).
       \<exists>y\<in>set (snp_chain.blocks h (replicate 48 0) two). x \<noteq> y \<and> h x = h y)"
proof -
  let ?h = "\<lambda>bs :: bytes. replicate 48 (1 :: u8)"
  let ?page = "\<lambda>at. \<lparr>lp_gpa = at, lp_data = [7], lp_kind = NORMAL\<rparr>"
  have l: "\<forall>x. length (?h x) = 48" by simp
  have eq: "launch_measurement ?h [?page 0x1000] [[9]] = launch_measurement ?h [?page 0x2000] [[9]]"
    by (simp add: launch_measurement_run [OF l] launch_items_def)
  have ne: "launch_items ?h [?page 0x1000] [[9]] \<noteq> launch_items ?h [?page 0x2000] [[9]]"
    by (simp add: launch_items_def measured_item_def)
  have "?h x \<noteq> replicate 48 0" for x by (simp add: numeral_eq_Suc)
  with snp_measurement_commits [OF l eq] ne eq show ?thesis unfolding Let_def by blast
qed

text \<open>The contents of the two pages the firmware fills never reach the measurement: replacing the
  bytes of a secrets or CPUID page in a launch leaves it as it was.\<close>

theorem special_pages_measured_by_address:
  assumes "lp_kind p = SECRETS \<or> lp_kind p = CPUID_DATA"
  shows "launch_measurement h (pre @ p\<lparr>lp_data := data\<rparr> # post) vmsas =
    launch_measurement h (pre @ p # post) vmsas"
proof -
  have same: "extend_digest h d (lp_gpa p) (measure_kind (lp_kind p)) data =
      extend_digest h d (lp_gpa p) (measure_kind (lp_kind p)) (lp_data p)" for d
    using assms
    by (auto simp: extend_digest_def measure_kind_def PAGE_SECRETS_def PAGE_CPUID_def
        PAGE_NORMAL_def PAGE_VMSA_def Let_def)
  have "measure_pages h d (pre @ p\<lparr>lp_data := data\<rparr> # post) = measure_pages h d (pre @ p # post)" for d
    by (induction pre arbitrary: d) (simp_all add: same cong: Option.bind_cong)
  then show ?thesis by (simp add: launch_measurement_def)
qed

theorem special_pages_measured_by_address_witness:
  "launch_measurement (take 48) [\<lparr>lp_gpa = 0xf1000, lp_data = [1], lp_kind = SECRETS\<rparr>] [] =
   launch_measurement (take 48) [\<lparr>lp_gpa = 0xf1000, lp_data = [], lp_kind = SECRETS\<rparr>] []"
  using special_pages_measured_by_address [of "\<lparr>lp_gpa = 0xf1000, lp_data = [], lp_kind = SECRETS\<rparr>"
      "take 48" "[]" "[1]" "[]" "[]"]
  by simp

section \<open>The processors\<close>

lemma vmsa_pinned:
  "validate_vmsa (bsp_vmsa ex) SHIM_BASE BSP_STACK_TOP ZERO_PAGE = Inr () \<longleftrightarrow>
     ex_with_snp ex = SNP_SEV_FEATURES"
  "validate_vmsa (ap_vmsa ex) SNP_AP_ENTRY 0 0 = Inr () \<longleftrightarrow> ex_with_snp ex = SNP_SEV_FEATURES"
  by (simp_all add: validate_vmsa_def bsp_vmsa_def ap_vmsa_def zeroed_vmsa_def pinned_segment_def
      Let_def)

text \<open>Both measured processor states pass their own check exactly when the SEV features the crate
  encodes are SNPActive alone; a processor other than the first differs only in where it
  starts and in owning neither stack nor zero page.\<close>

theorem vmsas_are_pinned:
  "(validate_vmsa (bsp_vmsa ex) SHIM_BASE BSP_STACK_TOP ZERO_PAGE = Inr () \<longleftrightarrow>
      ex_with_snp ex = SNP_SEV_FEATURES) \<and>
   (validate_vmsa (ap_vmsa ex) SNP_AP_ENTRY 0 0 = Inr () \<longleftrightarrow>
      ex_with_snp ex = SNP_SEV_FEATURES) \<and>
   (ap_vmsa ex)\<lparr>v_rip := v_rip (bsp_vmsa ex), v_rsp := v_rsp (bsp_vmsa ex),
      v_rsi := v_rsi (bsp_vmsa ex)\<rparr> = bsp_vmsa ex"
  by (simp add: vmsa_pinned) (simp add: bsp_vmsa_def ap_vmsa_def zeroed_vmsa_def Let_def)

section \<open>The CC blob\<close>

text \<open>The SETUP_CC_BLOB record ends the setup_data chain, claims its whole page, and points at the
  blob that follows it, whose magic, version and page addresses Linux checks.\<close>

theorem cc_blob_points_at_the_special_pages:
  "\<exists>v. cc_blob = Some v \<and> length v = unat PAGE \<and> get64 0 v = Some 0 \<and>
     get32 SETUP_DATA_TYPE v = Some SETUP_CC_BLOB \<and>
     get32 SETUP_DATA_LEN v = Some (ucast PAGE - SETUP_DATA_HEADER) \<and>
     get32 SETUP_DATA_DATA v = Some (ucast SNP_CC_BLOB + of_nat CC_BLOB_INFO) \<and>
     peek CC_BLOB_INFO 4 v = Some CC_MAGIC \<and> get16 (CC_BLOB_INFO + CC_VERSION) v = Some 1 \<and>
     get64 (CC_BLOB_INFO + CC_SECRETS_PHYS) v = Some SNP_SECRETS \<and>
     get32 (CC_BLOB_INFO + CC_SECRETS_LEN) v = Some (ucast PAGE) \<and>
     get64 (CC_BLOB_INFO + CC_CPUID_PHYS) v = Some SNP_CPUID \<and>
     get32 (CC_BLOB_INFO + CC_CPUID_LEN) v = Some (ucast PAGE)"
proof -
  have len: "length CC_MAGIC = 4" by (simp add: CC_MAGIC_def)
  have "le_word (replicate n 0) = (0 :: u64)" for n by (induction n) auto
  then have z: "get64 0 (replicate 4096 0) = Some 0" by (simp add: get64_def peek_def)
  show ?thesis
    by (simp add: cc_blob_def layout_consts len z peek_blit_same peek_blit_other)
qed

section \<open>The ID block\<close>

text \<open>The signed block states exactly the launch digest, the security version number and the guest
  policy of this build, so a signature over it binds all three.\<close>

theorem id_block_binds:
  assumes "length ld = 48"
  shows "\<exists>b. id_block_bytes ld svn = Some b \<and> length b = ID_BLOCK_LEN \<and>
    peek ID_BLOCK_LD 48 b = Some ld \<and> get32 ID_BLOCK_VERSION_AT b = Some ID_BLOCK_VERSION \<and>
    get32 ID_BLOCK_SVN b = Some svn \<and> get64 ID_BLOCK_POLICY b = Some SNP_GUEST_POLICY"
  using assms by (simp add: id_block_bytes_def layout_consts peek_blit_same peek_blit_other)

theorem id_block_binds_witness:
  "\<exists>b. id_block_bytes (replicate 48 7) 3 = Some b \<and> get32 0x54 b = Some 3"
  using id_block_binds [of "replicate 48 7" 3] by (auto simp: ID_BLOCK_SVN_def)

text \<open>An ECDSA component is stored little-endian and zero-extended; one that is too long is a panic.\<close>

lemma le72_eq:
  "le72 be = (if length be \<le> 72 then Some (rev be @ replicate (72 - length be) 0) else None)"
  by (simp add: le72_def poke_def blit_def ECDSA_COMPONENT_LEN_def)

end
