(* ===== verification/Snp_Memory.thy ===== *)
theory Snp_Memory
  imports Snp_Measure
begin

text \<open>
  The required-memory directives of the SNP file: the runs of memory the E820 map claims, each
  cut into spans whose length fits the 32-bit field of the directive.
\<close>

section \<open>The spans\<close>

text \<open>The memory a directive requires the loader to find.\<close>

fun requires :: "directive \<Rightarrow> u64 \<Rightarrow> bool" where
  "requires (RequiredMemory gpa _ n _) a \<longleftrightarrow> gpa \<le> a \<and> a < gpa + ucast n"
| "requires _ a \<longleftrightarrow> False"

lemma unat_ucast_required:
  assumes "n \<le> REQUIRED_MEMORY_MAX"
  shows "(ucast (ucast n :: u32) :: u64) = n"
proof -
  have "unat n < 2 ^ 32" using assms by (simp add: REQUIRED_MEMORY_MAX_def word_le_nat_alt)
  then have "unat (ucast n :: u32) = unat n"
    by (simp add: unsigned_ucast_eq take_bit_nat_eq_self)
  then have "unat (ucast (ucast n :: u32) :: u64) = unat n" by simp
  then show ?thesis by (simp only: word_unat_eq_iff)
qed

lemma require_span_covers:
  "(\<exists>d\<in>set (require_span at stop). requires d a) \<longleftrightarrow> at \<le> a \<and> a < stop"
proof (induction at stop rule: require_span.induct)
  case (1 at stop)
  show ?case
  proof (cases "at < stop")
    case False
    then show ?thesis by (subst require_span.simps) auto
  next
    case True
    define n where "n = min (stop - at) REQUIRED_MEMORY_MAX"
    have n: "n \<le> stop - at" "n \<le> REQUIRED_MEMORY_MAX" by (simp_all add: n_def)
    have un: "unat (at + n) = unat at + unat n" "unat at + unat n \<le> unat stop"
    proof -
      have "unat n \<le> unat stop - unat at"
        using n(1) True by (simp add: word_le_nat_alt word_less_nat_alt unat_sub)
      then show "unat at + unat n \<le> unat stop"
        using True by (simp add: word_less_nat_alt)
      then show "unat (at + n) = unat at + unat n"
        using unat_u64_less [of stop] by (intro unat_add_noov) simp
    qed
    have eq: "require_span at stop =
        RequiredMemory at SNP_COMPAT (ucast n) False # require_span (at + n) stop"
      using True by (subst require_span.simps) (simp add: n_def Let_def)
    have IH: "(\<exists>d\<in>set (require_span (at + n) stop). requires d a) \<longleftrightarrow> at + n \<le> a \<and> a < stop"
      using "1.IH" [OF True n_def] .
    have "(\<exists>d\<in>set (require_span at stop). requires d a) \<longleftrightarrow>
        at \<le> a \<and> a < at + n \<or> at + n \<le> a \<and> a < stop"
      unfolding eq list.set bex_simps requires.simps unat_ucast_required [OF n(2)] IH ..
    also have "\<dots> \<longleftrightarrow> at \<le> a \<and> a < stop"
      using un by (auto simp: word_le_nat_alt word_less_nat_alt)
    finally show ?thesis .
  qed
qed

lemma push_span_covers:
  assumes "\<forall>r\<in>set out. fst r \<le> snd r" "fst (entry_range e) \<le> snd (entry_range e)"
  shows "(\<exists>r\<in>set (push_span out e). in_range a r) \<longleftrightarrow>
      (\<exists>r\<in>set out. in_range a r) \<or> entry_covers a e"
    and "\<forall>r\<in>set (push_span out e). fst r \<le> snd r"
proof -
  obtain b n k where e: "e = (b, n, k)" by (cases e)
  have cov: "entry_covers a e \<longleftrightarrow> b \<le> a \<and> a < b + n" by (simp add: entry_covers_def e)
  have be: "b \<le> b + n" using assms(2) e by simp
  show "(\<exists>r\<in>set (push_span out e). in_range a r) \<longleftrightarrow>
      (\<exists>r\<in>set out. in_range a r) \<or> entry_covers a e"
  proof (cases "out \<noteq> [] \<and> snd (last out) = b")
    case True
    then obtain xs l where out: "out = xs @ [(l, b)]"
      by (metis append_butlast_last_id prod.collapse)
    then have "l \<le> b" using assms(1) by simp
    then show ?thesis
      using be unfolding cov by (auto simp: push_span_def e out)
  next
    case False
    then show ?thesis unfolding cov by (auto simp: push_span_def e)
  qed
  show "\<forall>r\<in>set (push_span out e). fst r \<le> snd r"
  proof (cases "out \<noteq> [] \<and> snd (last out) = b")
    case True
    then obtain xs l where out: "out = xs @ [(l, b)]"
      by (metis append_butlast_last_id prod.collapse)
    then show ?thesis using assms(1) be by (auto simp: push_span_def e)
  next
    case False
    then show ?thesis using assms(1) be by (auto simp: push_span_def e)
  qed
qed

lemma memory_spans_cover:
  assumes "ascending (map entry_range emap)"
  shows "(\<exists>r\<in>set (memory_spans emap). in_range a r) \<longleftrightarrow> (\<exists>e\<in>set emap. entry_covers a e)"
proof -
  have wf: "\<forall>e\<in>set emap. fst (entry_range e) \<le> snd (entry_range e)"
    using assms by (induction emap) (auto simp: ascending_Cons)
  have "(\<exists>r\<in>set (foldl push_span out emap). in_range a r) \<longleftrightarrow>
      (\<exists>r\<in>set out. in_range a r) \<or> (\<exists>e\<in>set emap. entry_covers a e)"
    if "\<forall>r\<in>set out. fst r \<le> snd r" for out
    using that wf
  proof (induction emap arbitrary: out)
    case Nil
    then show ?case by simp
  next
    case (Cons e es)
    then have e: "fst (entry_range e) \<le> snd (entry_range e)" by simp
    note p = push_span_covers [OF Cons.prems(1) e]
    have "(\<exists>r\<in>set (foldl push_span (push_span out e) es). in_range a r) \<longleftrightarrow>
        (\<exists>r\<in>set (push_span out e). in_range a r) \<or> (\<exists>e\<in>set es. entry_covers a e)"
      using Cons.prems(2) by (intro Cons.IH p(2)) simp
    then show ?case by (simp only: foldl_Cons p(1) list.set bex_simps disj_assoc)
  qed
  from this [of "[]"] show ?thesis by (simp add: memory_spans_def)
qed

lemma required_memory_covers:
  assumes "ascending (map entry_range emap)"
  shows "(\<exists>d\<in>set (required_memory emap). requires d a) \<longleftrightarrow> (\<exists>e\<in>set emap. entry_covers a e)"
proof -
  have "(\<exists>d\<in>set (required_memory emap). requires d a) \<longleftrightarrow>
      (\<exists>r\<in>set (memory_spans emap). \<exists>d\<in>set (require_span (fst r) (snd r)). requires d a)"
    by (auto simp: required_memory_def split_def)
  also have "\<dots> \<longleftrightarrow> (\<exists>r\<in>set (memory_spans emap). in_range a r)"
    by (simp add: require_span_covers in_range_def)
  finally show ?thesis using memory_spans_cover [OF assms] by simp
qed

lemma required_memory_e820:
  assumes "validate ps memory = Inr ()" "proper ps"
  shows "(\<exists>d\<in>set (required_memory (e820 ps memory)). requires d a) \<longleftrightarrow>
    region_type ps memory a \<noteq> None"
proof -
  have dis: "disjoint_spans (spans ps)"
    by (rule validate_disjoint [OF assms(1) proper_no_wrap [OF assms(2)]])
  have "ascending (map entry_range (e820 ps memory))"
    using e820_wf [OF dis, of memory] by (simp add: growing_def)
  then have "(\<exists>d\<in>set (required_memory (e820 ps memory)). requires d a) \<longleftrightarrow>
      (\<exists>e\<in>set (e820 ps memory). entry_covers a e)"
    by (rule required_memory_covers)
  also have "\<dots> \<longleftrightarrow> e820_type (e820 ps memory) a \<noteq> None"
    unfolding e820_type_def by (auto simp: find_None_iff)
  finally show ?thesis by (simp only: e820_type_eq [OF dis])
qed

text \<open>C34: for a placement that passed validation and has no empty or wrapping region, the memory the SNP
  file requires of the loader is exactly the memory its E820 map claims, and nothing in an aperture: splitting a large run into spans
  that fit the directive's 32-bit field loses no byte.\<close>

theorem required_memory_is_the_e820_memory:
  assumes "validate ps memory = Inr ()" "proper ps"
  shows "(\<exists>d\<in>set (required_memory (e820 ps memory)). requires d a) \<longleftrightarrow>
    region_type ps memory a \<noteq> None"
  by (rule required_memory_e820 [OF assms])

theorem required_memory_is_the_e820_memory_witness:
  "(\<exists>d\<in>set (required_memory (e820 sample_map 0x5000)). requires d 0x2fff) \<and>
   \<not> (\<exists>d\<in>set (required_memory (e820 sample_map 0x5000)). requires d 0x3000)"
proof -
  have "region_type sample_map 0x5000 0x2fff \<noteq> None" "region_type sample_map 0x5000 0x3000 = None"
    by (simp_all add: region_type_def sample_map_def covers_def placed_mmio_def placed_measured_def
        span_def fill_span_def align_up_def div_ceil_def layout_consts)
  then show ?thesis
    using required_memory_is_the_e820_memory [OF sample_map_validated(1,2)] by simp
qed

end
