(* ===== verification/Snp_Build.thy ===== *)
theory Snp_Build
  imports Snp_Memory Tdx_Publish
begin

text \<open>
  The SNP builder as a whole (\<open>snp::build\<close>): the finished map, what is loaded, what is
  measured, and what is published.
\<close>

section \<open>The finished map\<close>

definition snp_finished ::
  "params \<Rightarrow> prepared \<Rightarrow> bytes \<Rightarrow> bytes \<Rightarrow> bytes \<Rightarrow> bytes \<Rightarrow> bytes \<Rightarrow> bytes \<Rightarrow> placed list" where
  "snp_finished params p acpi blob tables stack zero shim_page =
     [placed_measured ZERO_PAGE [] RESERVED zero,
      placed_measured CMDLINE (lit ''command_line'') RESERVED (pr_command p),
      placed_measured ACPI_BASE (lit ''acpi'') ACPI acpi,
      placed_host SNP_CPUID,
      placed_host SNP_SECRETS,
      placed_measured SNP_CC_BLOB (lit ''cc_blob'') RAM blob,
      placed_measured PAGE_TABLES [] RESERVED tables,
      placed_measured BSP_STACK [] RESERVED stack,
      placed_measured SNP_GHCB [] RESERVED (replicate (unat PAGE) 0),
      placed_measured SHIM_BASE (lit ''shim'') RESERVED shim_page,
      placed_measured KERNEL_SETUP_BASE (lit ''kernel_setup'') RESERVED (pr_setup p),
      placed_measured KERNEL_BASE (lit ''kernel'') RAM (pr_kernel p),
      placed_measured INITRAMFS_BASE (lit ''initramfs'') RAM (pr_initramfs p)]
     @ map (\<lambda>(b, n). placed_mmio b n) (p_mmio params)"

definition snp_measured_parts :: "params \<Rightarrow> bytes \<Rightarrow> bytes \<Rightarrow> bytes \<Rightarrow> bytes \<Rightarrow> bool" where
  "snp_measured_parts params acpi blob tables stack \<longleftrightarrow>
     acpi_build (p_vcpus params) False = Some acpi \<and> cc_blob = Some blob \<and>
     identity_map (ucast (p_cbit params)) True = Some tables \<and> gdt_stack = Some stack"

definition snp_fixed_parts :: "bytes \<Rightarrow> bytes \<Rightarrow> bytes \<Rightarrow> bytes \<Rightarrow> bytes \<Rightarrow> bytes \<Rightarrow> bool" where
  "snp_fixed_parts acpi blob tables stack zero shim_page \<longleftrightarrow>
     length acpi = 4096 \<and> length blob = 4096 \<and> length tables = 12288 \<and> length stack = 65536 \<and>
     length zero = 4096 \<and> length shim_page = 4096"

lemma cc_blob_length: "\<exists>v. cc_blob = Some v \<and> length v = 4096"
proof -
  have "length CC_MAGIC = 4" by (simp add: CC_MAGIC_def)
  then show ?thesis by (simp add: cc_blob_def layout_consts)
qed

lemma snp_measured_parts_exist:
  assumes "p_vcpus params \<le> MAX_VCPUS"
  obtains acpi blob tables stack where "snp_measured_parts params acpi blob tables stack"
    "length acpi = 4096" "length blob = 4096" "length tables = 12288" "length stack = 65536"
proof -
  obtain acpi where a: "acpi_build (p_vcpus params) False = Some acpi"
    using acpi_build_ok [OF assms, of False] by blast
  obtain blob where b: "cc_blob = Some blob" "length blob = 4096" using cc_blob_length by blast
  obtain tables where t: "identity_map (ucast (p_cbit params)) True = Some tables"
    using identity_map_entries [of "ucast (p_cbit params)" True] by blast
  obtain stack where s: "gdt_stack = Some stack" using gdt_stack_contents by blast
  show thesis
    by (rule that [of acpi blob tables stack])
      (use a b t s fixed_lengths(1) [OF assms a] fixed_lengths(2) [OF t] fixed_lengths(3) [OF s]
       in \<open>simp_all add: snp_measured_parts_def\<close>)
qed

lemma snp_regions_finished:
  "snp_regions params p acpi blob tables stack =
     snp_finished params p acpi blob tables stack (replicate (unat PAGE) 0) (replicate (unat PAGE) 0)"
  by (simp add: snp_regions_def snp_finished_def)

lemma snp_fill_zero_page:
  assumes "length zero = 4096" "length z = 4096"
  shows "fill_region (snp_finished params p acpi blob tables stack z s) ZERO_PAGE zero =
    Inr (snp_finished params p acpi blob tables stack zero s)"
  using assms
  by (simp add: snp_finished_def one_page_span Let_def)
    (simp add: placed_measured_def span_def one_page_span)

lemma snp_fill_shim_page:
  assumes "length shim_page = 4096" "length s = 4096"
  shows "fill_region (snp_finished params p acpi blob tables stack z s) SHIM_BASE shim_page =
    Inr (snp_finished params p acpi blob tables stack z shim_page)"
  using assms
  by (simp add: snp_finished_def one_page_span Let_def layout_consts)
    (simp add: placed_measured_def span_def one_page_span PAGE_def)

lemma snp_finished_members:
  "set (snp_finished params p acpi blob tables stack zero shim_page) =
     {placed_measured ZERO_PAGE [] RESERVED zero,
      placed_measured CMDLINE (lit ''command_line'') RESERVED (pr_command p),
      placed_measured ACPI_BASE (lit ''acpi'') ACPI acpi,
      placed_host SNP_CPUID,
      placed_host SNP_SECRETS,
      placed_measured SNP_CC_BLOB (lit ''cc_blob'') RAM blob,
      placed_measured PAGE_TABLES [] RESERVED tables,
      placed_measured BSP_STACK [] RESERVED stack,
      placed_measured SNP_GHCB [] RESERVED (replicate (unat PAGE) 0),
      placed_measured SHIM_BASE (lit ''shim'') RESERVED shim_page,
      placed_measured KERNEL_SETUP_BASE (lit ''kernel_setup'') RESERVED (pr_setup p),
      placed_measured KERNEL_BASE (lit ''kernel'') RAM (pr_kernel p),
      placed_measured INITRAMFS_BASE (lit ''initramfs'') RAM (pr_initramfs p)}
     \<union> (\<lambda>(b, n). placed_mmio b n) ` set (p_mmio params)"
  by (simp add: snp_finished_def)

lemma snp_finished_proper:
  assumes "sized params p" "snp_fixed_parts acpi blob tables stack zero shim_page"
    "apertures_ok params"
  shows "proper (snp_finished params p acpi blob tables stack zero shim_page)"
proof -
  have v: "length d < 100000 * 100000 \<Longrightarrow> vec_len_ok d" for d :: bytes
    by (simp add: vec_len_ok_def)
  have b: "unat ZERO_PAGE \<le> 2 ^ 62" "unat CMDLINE \<le> 2 ^ 62" "unat ACPI_BASE \<le> 2 ^ 62"
    "unat SNP_CC_BLOB \<le> 2 ^ 62" "unat PAGE_TABLES \<le> 2 ^ 62" "unat BSP_STACK \<le> 2 ^ 62"
    "unat SNP_GHCB \<le> 2 ^ 62" "unat SHIM_BASE \<le> 2 ^ 62" "unat KERNEL_SETUP_BASE \<le> 2 ^ 62"
    "unat KERNEL_BASE \<le> 2 ^ 62" "unat INITRAMFS_BASE \<le> 2 ^ 62"
    by (simp_all add: layout_consts)
  have h: "SNP_CPUID < region_end (placed_host SNP_CPUID)"
    "SNP_SECRETS < region_end (placed_host SNP_SECRETS)"
    by (simp_all add: region_end_def layout_consts)
  have "\<forall>q\<in>(\<lambda>(b, n). placed_mmio b n) ` set (p_mmio params). pl_base q < region_end q"
    using assms(3) by (auto simp: apertures_ok_def region_end_def)
  then show ?thesis
    unfolding proper_def snp_finished_members ball_Un ball_simps
    using assms(1,2) b h by (simp add: measured_region_proper v sized_def snp_fixed_parts_def)
qed

lemma snp_finished_loadable:
  assumes "sized params p" "snp_fixed_parts acpi blob tables stack zero shim_page"
    "pr_initramfs p \<noteq> []"
  shows "\<forall>q\<in>set (snp_finished params p acpi blob tables stack zero shim_page). loadable q"
proof -
  have "\<forall>q\<in>(\<lambda>(b, n). placed_mmio b n) ` set (p_mmio params). loadable q"
    by (auto simp: loadable_def)
  then show ?thesis
    unfolding snp_finished_members ball_Un ball_simps
    using assms by (simp add: sized_def snp_fixed_parts_def loadable_def vec_len_ok_def)
      (auto)
qed

lemma snp_apertures:
  "apertures_cover (snp_finished params p acpi blob tables stack zero shim_page) a \<longleftrightarrow>
     in_aperture params a"
proof -
  let ?m = "snp_finished params p acpi blob tables stack zero shim_page"
  have "(\<exists>q\<in>set ?m. is_mmio q \<and> covers q a) \<longleftrightarrow>
      (\<exists>q\<in>(\<lambda>(b, n). placed_mmio b n) ` set (p_mmio params). is_mmio q \<and> covers q a)"
    unfolding snp_finished_members bex_Un by (simp add: is_mmio_def)
  also have "\<dots> \<longleftrightarrow> in_aperture params a"
    by (simp add: in_aperture_def is_mmio_def covers_def split_beta)
  finally show ?thesis by (simp add: apertures_cover_def)
qed

section \<open>What is loaded\<close>

definition region_launch :: "placed \<Rightarrow> launch_page list" where
  "region_launch q = add_region [] q"

lemma add_region_append: "add_region out q = out @ region_launch q"
  by (simp add: region_launch_def add_region_def add_normal_def add_special_def split: fill.splits)

lemma snp_pages_concat: "snp_pages ps = concat (map region_launch ps)"
proof -
  have "foldl add_region out ps = out @ concat (map region_launch ps)" for out
    by (induction ps arbitrary: out) (simp_all add: add_region_append)
  then show ?thesis by (simp add: snp_pages_def)
qed

lemma region_launch_addresses: "map lp_gpa (region_launch q) = region_addresses q"
  by (simp add: region_launch_def add_region_def add_normal_def add_special_def
      region_addresses_def split_def comp_def split: fill.splits)

lemma snp_pages_addresses: "map lp_gpa (snp_pages ps) = loaded_addresses ps"
proof -
  have "map lp_gpa (concat (map region_launch ps)) = concat (map (map lp_gpa \<circ> region_launch) ps)"
    by (simp add: map_concat)
  also have "map lp_gpa \<circ> region_launch = region_addresses"
    by (rule ext) (simp add: region_launch_addresses)
  finally show ?thesis by (simp add: snp_pages_concat loaded_addresses_def)
qed

text \<open>Strictly ascending page addresses never overlap, so the builder's own check passes.\<close>

lemma validate_pages_ascending:
  assumes "sorted_wrt (<) (map lp_gpa ps)" "\<forall>p\<in>set ps. is_multiple_of (lp_gpa p) PAGE"
  shows "validate_pages ps = Inr ()"
  using assms
proof (induction ps)
  case Nil
  then show ?case by (simp add: validate_pages_def)
next
  case (Cons p ps)
  show ?case
  proof (cases ps)
    case Nil
    then show ?thesis by (simp add: validate_pages_def)
  next
    case (Cons q qs)
    with Cons.prems have "lp_gpa p + PAGE \<le> lp_gpa q" by (intro page_after) simp_all
    moreover have "validate_pages ps = Inr ()" using Cons.IH Cons.prems by simp
    ultimately show ?thesis using Cons by (simp add: validate_pages_def not_less)
  qed
qed

section \<open>When the map can be built\<close>

definition snp_machine_apertures :: "params \<Rightarrow> bool" where
  "snp_machine_apertures params \<longleftrightarrow>
     p_mmio params = [] \<or> p_mmio params = [(Q35_LOWMEM, FOUR_GIB - Q35_LOWMEM)]"

lemma snp_well_placed:
  assumes "sized params p" "snp_fixed_parts acpi blob tables stack zero shim_page"
    "snp_machine_apertures params" "FOUR_GIB \<le> p_memory params \<or> p_mmio params = []"
    "contents_fit params p"
  shows "well_placed (snp_finished params p acpi blob tables stack zero shim_page) (p_memory params)"
proof -
  let ?m = "snp_finished params p acpi blob tables stack zero shim_page"
  have ap: "apertures_ok params"
    using assms(3) by (auto simp: snp_machine_apertures_def apertures_ok_def layout_consts)
  have wfp: "proper ?m" by (rule snp_finished_proper [OF assms(1,2) ap])
  have k: "region_end (placed_measured KERNEL_BASE (lit ''kernel'') RAM (pr_kernel p)) \<le> INITRAMFS_BASE"
    using kernel_fits_before_initramfs assms(5) by (simp add: contents_fit_def INITRAMFS_BASE_def)
  have i: "region_end (placed_measured INITRAMFS_BASE (lit ''initramfs'') RAM (pr_initramfs p)) \<le>
      (if p_mmio params = [] then RESET_ALIAS else Q35_LOWMEM)"
    using assms(1,5) by (intro initramfs_fits_below)
      (auto simp: contents_fit_def sized_def RESET_ALIAS_def Q35_LOWMEM_def GIB_def)
  have lens: "length acpi = 4096" "length blob = 4096" "length tables = 12288" "length stack = 65536"
    "length zero = 4096" "length shim_page = 4096" "length (pr_setup p) = 0x2f000"
    "length (pr_command p) = 4096"
    using assms(1,2) by (simp_all add: snp_fixed_parts_def sized_def)
  have t: "fill_span (Measured tables) = 0x3000"
    using lens(3) by (simp add: fill_span_def align_up_def div_ceil_def PAGE_def)
  have "chained ?m"
    using assms(3) k i lens t
    by (auto simp: snp_finished_def snp_machine_apertures_def region_end_def one_page_span
        fixed_spans layout_consts)
  then have c: "distinct (map pl_base ?m)"
    "\<forall>x\<in>set ?m. \<forall>y\<in>set ?m. pl_base x < pl_base y \<longrightarrow> region_end x \<le> pl_base y"
    using chained_disjoint [OF _ wfp] by blast+
  moreover have "\<forall>q\<in>set ?m. is_multiple_of (pl_base q) PAGE \<and>
      (pl_base q < p_memory params \<or> pl_base q = RESET_ALIAS)"
  proof -
    have mem: "0x20000000 < p_memory params" using assms(5) by (simp add: contents_fit_def INITRAMFS_BASE_def)
    have "b < p_memory params" if "b \<le> 0x20000000" for b
      using that mem by (rule order.strict_trans1)
    then show ?thesis
      using assms(3,4) order.strict_trans2 [of "0x80000000" "0x100000000" "p_memory params"]
      unfolding snp_finished_members ball_Un
      by (auto simp: snp_machine_apertures_def layout_consts is_multiple_of_def)
  qed
  ultimately show ?thesis by (simp add: well_placed_def)
qed

lemma snp_owned:
  assumes "sized params p" "snp_fixed_parts acpi blob tables stack zero shim_page"
  shows "shim_owned (snp_finished params p acpi blob tables stack zero shim_page) = Inr 0x1b000"
proof -
  let ?own = "\<lambda>ps. filter (\<lambda>p. \<not> (case pl_fill p of Mmio _ \<Rightarrow> True | _ \<Rightarrow> False))
    (filter (\<lambda>p. pl_base p < KERNEL_SETUP_BASE \<or> pl_base p = RESET_ALIAS) ps)"
  have "?own (map (\<lambda>(b, n). placed_mmio b n) (p_mmio params)) = []"
    by (auto simp: filter_empty_conv)
  moreover have "length acpi = 4096" "length blob = 4096" "length tables = 12288"
    "length stack = 65536" "length zero = 4096" "length shim_page = 4096" "length (pr_command p) = 4096"
    using assms by (simp_all add: snp_fixed_parts_def sized_def)
  moreover from this have "fill_span (Measured tables) = 0x3000"
    by (simp add: fill_span_def align_up_def div_ceil_def PAGE_def)
  ultimately show ?thesis
    by (simp add: shim_owned_def snp_finished_def one_page_span fixed_spans layout_consts
        Let_def del: filter_filter)
qed

text \<open>An aperture of the map is one of the parameters, and nothing else is absent from E820.\<close>

definition snp_region_kind :: "params \<Rightarrow> placed \<Rightarrow> bool" where
  "snp_region_kind params q \<longleftrightarrow> (is_mmio q \<longleftrightarrow> pl_e820 q = ABSENT) \<and>
     (\<forall>n. pl_fill q = Mmio n \<longrightarrow> n \<in> snd ` set (p_mmio params))"

lemma snp_finished_kinds:
  "\<forall>q\<in>set (snp_finished params p acpi blob tables stack zero shim_page). snp_region_kind params q"
proof -
  have "\<forall>q\<in>(\<lambda>(b, n). placed_mmio b n) ` set (p_mmio params). snp_region_kind params q"
    by (force simp: snp_region_kind_def placed_mmio_def is_mmio_def)
  then show ?thesis
    unfolding snp_finished_members ball_Un ball_simps
    by (simp add: snp_region_kind_def placed_measured_def placed_host_def is_mmio_def layout_consts)
qed

text \<open>Everything later proofs use of a map the SNP builder finished.\<close>

definition snp_launch_facts ::
  "('f, 'k) externs \<Rightarrow> params \<Rightarrow> prepared \<Rightarrow> placed list \<Rightarrow> e820_entry list \<Rightarrow> bool" where
  "snp_launch_facts ex params p placed emap \<longleftrightarrow>
     validate placed (p_memory params) = Inr () \<and> proper placed \<and>
     emap = e820 placed (p_memory params) \<and>
     (\<forall>a. apertures_cover placed a \<longleftrightarrow> in_aperture params a) \<and>
     (\<forall>q\<in>set placed. snp_region_kind params q) \<and>
     (pr_initramfs p \<noteq> [] \<longrightarrow> (\<forall>q\<in>set placed. loadable q)) \<and>
     placed_measured SNP_GHCB [] RESERVED (replicate (unat PAGE) 0) \<in> set placed \<and>
     (\<exists>shim_page. placed_measured SHIM_BASE (lit ''shim'') RESERVED shim_page \<in> set placed \<and>
        length shim_page = 4096 \<and>
        shim (ex_snp_shim ex) (pr_entry p) (accept_ranges placed (p_memory params)) = Inr shim_page)"

lemma validate_same_spans:
  assumes "map span_of ps = map span_of qs" "validate qs memory = Inr ()"
  shows "validate ps memory = Inr ()"
proof -
  have "map pl_base ps = map (fst \<circ> span_of) ps" by (simp add: span_of_def comp_def)
  also have "\<dots> = map (fst \<circ> span_of) qs" using arg_cong [OF assms(1), of "map fst"] by simp
  finally have "map pl_base ps = map pl_base qs" by (simp add: span_of_def comp_def)
  then have "set (map pl_base ps) = set (map pl_base qs)" by metis
  then have "pl_base ` set ps = pl_base ` set qs" by simp
  moreover have "spans ps = spans qs" using assms(1) by (simp add: spans_def)
  ultimately show ?thesis
    using assms(2) unfolding validate_Inr_iff by (metis (no_types, lifting) imageE imageI)
qed

lemma snp_placeE:
  assumes "snp_place ex params p = Inr (placed, emap, owned)" "p_vcpus params \<le> MAX_VCPUS"
    "length (pr_setup p) = 0x2f000" "length (ex_snp_shim ex) = 4096"
  obtains acpi blob tables stack zero shim_page where
    "snp_measured_parts params acpi blob tables stack"
    "placed = snp_finished params p acpi blob tables stack zero shim_page"
    "snp_fixed_parts acpi blob tables stack zero shim_page"
    "validate placed (p_memory params) = Inr ()"
    "zero_page (pr_setup p) (pr_info p) (length (pr_initramfs p)) ACPI_BASE
       (e820 placed (p_memory params)) SNP_CC_BLOB = Inr zero"
    "shim (ex_snp_shim ex) (pr_entry p) (accept_ranges placed (p_memory params)) = Inr shim_page"
    "emap = e820 placed (p_memory params)"
proof -
  obtain acpi blob tables stack where parts: "snp_measured_parts params acpi blob tables stack"
    and lens: "length acpi = 4096" "length blob = 4096" "length tables = 12288" "length stack = 65536"
    using snp_measured_parts_exist [OF assms(2)] .
  let ?z = "replicate (unat PAGE) (0 :: u8)"
  let ?m = "snp_finished params p acpi blob tables stack"
  from parts have eqs: "acpi_build (p_vcpus params) False = Some acpi" "cc_blob = Some blob"
    "identity_map (ucast (p_cbit params)) True = Some tables" "gdt_stack = Some stack"
    by (simp_all add: snp_measured_parts_def)
  obtain zero p1 shim_page where
    v: "validate (?m ?z ?z) (p_memory params) = Inr ()"
    and zero: "zero_page (pr_setup p) (pr_info p) (length (pr_initramfs p)) ACPI_BASE
       (e820 (?m ?z ?z) (p_memory params)) SNP_CC_BLOB = Inr zero"
    and f1: "fill_region (?m ?z ?z) ZERO_PAGE zero = Inr p1"
    and shim: "shim (ex_snp_shim ex) (pr_entry p) (accept_ranges p1 (p_memory params))
       = Inr shim_page"
    and f2: "fill_region p1 SHIM_BASE shim_page = Inr placed"
    and emap: "emap = e820 (?m ?z ?z) (p_memory params)"
    using assms(1) unfolding snp_place_def eqs snp_regions_finished Let_def
      or_error.simps bind_result.simps bind_result_Inr_conv sum.inject prod.inject
    by auto
  have lz: "length zero = 4096" by (rule zero_page_length [OF assms(3) zero])
  have ls: "length shim_page = 4096" by (rule shim_length [OF assms(4) shim])
  have p1: "p1 = ?m zero ?z" using f1 snp_fill_zero_page [OF lz, of ?z] by simp
  have placed: "placed = ?m zero shim_page"
    using f2 snp_fill_shim_page [OF ls, of ?z] by (simp add: p1)
  have same: "map span_of placed = map span_of (?m ?z ?z)"
    using fill_region_spans [OF f1] fill_region_spans [OF f2] by simp
  have views: "e820 placed m = e820 (?m ?z ?z) m" "accept_ranges placed m = accept_ranges p1 m" for m
    using fill_region_views [OF f1] fill_region_views [OF f2] by simp_all
  have "snp_fixed_parts acpi blob tables stack zero shim_page"
    using lens lz ls by (simp add: snp_fixed_parts_def)
  then show thesis
    using that parts placed validate_same_spans [OF same v] zero shim emap views by metis
qed

lemma snp_place_facts:
  assumes "snp_place ex params p = Inr (placed, emap, owned)" "sized params p"
    "length (ex_snp_shim ex) = 4096" "apertures_ok params"
  shows "snp_launch_facts ex params p placed emap"
proof -
  have "p_vcpus params \<le> MAX_VCPUS" "length (pr_setup p) = 0x2f000"
    using assms(2) by (simp_all add: sized_def)
  note sizes = this
  obtain acpi blob tables stack zero shim_page where
    placed: "placed = snp_finished params p acpi blob tables stack zero shim_page"
    and fixed: "snp_fixed_parts acpi blob tables stack zero shim_page"
    and v: "validate placed (p_memory params) = Inr ()"
    and shim: "shim (ex_snp_shim ex) (pr_entry p) (accept_ranges placed (p_memory params))
      = Inr shim_page"
    and emap: "emap = e820 placed (p_memory params)"
    by (rule snp_placeE [OF assms(1) sizes assms(3)]) (rule that)
  have "placed_measured SHIM_BASE (lit ''shim'') RESERVED shim_page \<in> set placed"
    "placed_measured SNP_GHCB [] RESERVED (replicate (unat PAGE) 0) \<in> set placed"
    unfolding placed snp_finished_members by blast+
  moreover have "pr_initramfs p \<noteq> [] \<longrightarrow> (\<forall>q\<in>set placed. loadable q)"
    using snp_finished_loadable [OF assms(2) fixed] placed by blast
  moreover have "proper placed"
    unfolding placed by (rule snp_finished_proper [OF assms(2) fixed assms(4)])
  moreover have "\<forall>a. apertures_cover placed a \<longleftrightarrow> in_aperture params a"
    unfolding placed by (simp only: snp_apertures simp_thms)
  moreover have "\<forall>q\<in>set placed. snp_region_kind params q"
    unfolding placed by (rule snp_finished_kinds)
  moreover have "length shim_page = 4096" using fixed by (simp add: snp_fixed_parts_def)
  ultimately show ?thesis
    unfolding snp_launch_facts_def using v shim emap by blast
qed

lemma snp_place_succeeds:
  assumes "sized params p" "blank_shim (ex_snp_shim ex)" "apertures_ok params"
    "length (p_mmio params) \<le> 47"
    "\<And>acpi blob tables stack zero shim_page. snp_fixed_parts acpi blob tables stack zero shim_page \<Longrightarrow>
       well_placed (snp_finished params p acpi blob tables stack zero shim_page) (p_memory params)"
  shows "\<exists>placed emap. snp_place ex params p = Inr (placed, emap, 0x1b000)"
proof -
  have s: "p_vcpus params \<le> MAX_VCPUS" "length (pr_setup p) = 0x2f000"
    using assms(1) by (simp_all add: sized_def)
  obtain acpi blob tables stack where parts: "snp_measured_parts params acpi blob tables stack"
    and lens: "length acpi = 4096" "length blob = 4096" "length tables = 12288" "length stack = 65536"
    using snp_measured_parts_exist [OF s(1)] .
  from parts have eqs: "acpi_build (p_vcpus params) False = Some acpi" "cc_blob = Some blob"
    "identity_map (ucast (p_cbit params)) True = Some tables" "gdt_stack = Some stack"
    by (simp_all add: snp_measured_parts_def)
  let ?z = "replicate (unat PAGE) (0 :: u8)"
  let ?m = "snp_finished params p acpi blob tables stack"
  have fixed: "snp_fixed_parts acpi blob tables stack z sp" if "length z = 4096" "length sp = 4096" for z sp
    using that lens by (simp add: snp_fixed_parts_def)
  have lz: "length ?z = 4096" by simp
  have v: "validate (?m ?z ?z) (p_memory params) = Inr ()"
    using validate_well_placed [OF snp_finished_proper [OF assms(1) fixed [OF lz lz] assms(3)]]
      assms(5) [OF fixed [OF lz lz]] by blast
  have lm: "length (?m z sp) \<le> 60" for z sp
    using assms(4) by (simp add: snp_finished_def)
  have "length (e820 (?m ?z ?z) (p_memory params)) \<le> 128"
    using length_e820 [of "?m ?z ?z" "p_memory params"] lm [of ?z ?z] by simp
  then obtain zero where zero: "zero_page (pr_setup p) (pr_info p) (length (pr_initramfs p)) ACPI_BASE
      (e820 (?m ?z ?z) (p_memory params)) SNP_CC_BLOB = Inr zero"
    using zero_page_eq [of "pr_setup p"] s(2) by simp
  have l0: "length zero = 4096" by (rule zero_page_length [OF s(2) zero])
  have "length (accept_ranges (?m zero ?z) (p_memory params)) \<le> 61"
    using length_accept_ranges [of "?m zero ?z" "p_memory params"] lm [of zero ?z] by simp
  then obtain page where page: "shim (ex_snp_shim ex) (pr_entry p)
      (accept_ranges (?m zero ?z) (p_memory params)) = Inr page"
    using blank_shim_fits [OF assms(2)] by blast
  have lp: "length page = 4096"
    by (rule shim_length [OF _ page]) (use assms(2) in \<open>simp add: blank_shim_def\<close>)
  have "snp_place ex params p = Inr (?m zero page, e820 (?m ?z ?z) (p_memory params), 0x1b000)"
    unfolding snp_place_def eqs or_error.simps bind_result.simps Let_def snp_regions_finished v zero
      snp_fill_zero_page [OF l0 lz] page snp_fill_shim_page [OF lp lz]
      snp_owned [OF assms(1) fixed [OF l0 lp]]
    by (rule refl)
  then show ?thesis by blast
qed

end
