(* ===== verification/Snp_Directives.thy ===== *)
theory Snp_Directives
  imports Snp_Build
begin

text \<open>
  The directives of the SNP file as a whole: that they are what the \<open>igvm\<close> crate requires of
  a file (page-aligned, each page and each processor once), and which processor states they
  carry.
\<close>

section \<open>Page alignment of the map\<close>

definition entry_aligned :: "e820_entry \<Rightarrow> bool" where
  "entry_aligned e \<longleftrightarrow> is_multiple_of (fst e) PAGE \<and> is_multiple_of (fst (snd e)) PAGE"

lemma e820_push_aligned:
  assumes "\<forall>e\<in>set out. entry_aligned e" "is_multiple_of b PAGE" "is_multiple_of e PAGE"
  shows "\<forall>e\<in>set (e820_push out b e k). entry_aligned e"
proof (cases "out = []")
  case True
  then show ?thesis
    using assms by (simp add: e820_push_def entry_aligned_def page_aligned_arith)
next
  case False
  then obtain xs lb ls lk where out: "out = xs @ [(lb, ls, lk)]"
    by (metis append_butlast_last_id prod.collapse)
  then show ?thesis
    using assms by (auto simp: e820_push_def entry_aligned_def page_aligned_arith)
qed

lemma e820_loop_aligned:
  assumes "\<forall>e\<in>set out. entry_aligned e" "is_multiple_of at PAGE" "is_multiple_of memory PAGE"
    "\<forall>(lo, hi, k)\<in>set ss. is_multiple_of lo PAGE \<and> is_multiple_of hi PAGE"
  shows "\<forall>e\<in>set (e820_loop memory at out ss). entry_aligned e"
  using assms
proof (induction memory at out ss rule: e820_loop.induct)
  case (1 memory at out)
  then show ?case by (simp add: e820_push_aligned)
next
  case (2 memory at out lo hi k rest)
  show ?case
  proof (cases "lo \<ge> memory")
    case True
    with 2 show ?thesis by (simp add: e820_push_aligned)
  next
    case False
    let ?out = "e820_push out at lo RAM"
    let ?out' = "if k \<noteq> ABSENT then e820_push ?out (max lo at) (min hi memory) k else ?out"
    have l: "is_multiple_of lo PAGE" "is_multiple_of hi PAGE" using 2(5) by simp_all
    have o1: "\<forall>e\<in>set ?out. entry_aligned e" using 2(2,3) l by (intro e820_push_aligned)
    have "\<forall>e\<in>set (e820_push ?out (max lo at) (min hi memory) k). entry_aligned e"
      by (intro e820_push_aligned [OF o1] PAGE_aligned_max_min 2(3,4) l)
    with o1 have "\<forall>e\<in>set ?out'. entry_aligned e" by simp
    moreover have "is_multiple_of (max at hi) PAGE" using 2(3) l by (intro page_aligned_arith)
    ultimately have "\<forall>e\<in>set (e820_loop memory (max at hi) ?out' rest). entry_aligned e"
      using 2(4,5) by (intro 2(1) [OF False refl refl]) simp_all
    then show ?thesis using False by (simp add: Let_def)
  qed
qed

lemma e820_aligned:
  assumes "aligned ps" "is_multiple_of memory PAGE"
  shows "\<forall>e\<in>set (e820 ps memory). entry_aligned e"
  unfolding e820_def using assms
  by (intro e820_loop_aligned) (auto simp: aligned_def span_of_def page_aligned_arith)

lemma push_span_aligned:
  assumes "\<forall>r\<in>set out. is_multiple_of (fst r) PAGE \<and> is_multiple_of (snd r) PAGE" "entry_aligned e"
  shows "\<forall>r\<in>set (push_span out e). is_multiple_of (fst r) PAGE \<and> is_multiple_of (snd r) PAGE"
proof -
  obtain b n k where e: "e = (b, n, k)" by (cases e)
  with assms(2) have b: "is_multiple_of b PAGE" "is_multiple_of (b + n) PAGE"
    by (simp_all add: entry_aligned_def PAGE_aligned_add)
  show ?thesis
  proof (cases "out \<noteq> [] \<and> snd (last out) = b")
    case True
    then obtain xs l where "out = xs @ [(l, b)]"
      by (metis append_butlast_last_id prod.collapse)
    then show ?thesis using assms(1) b by (simp add: push_span_def e)
  next
    case False
    then have "push_span out e = out @ [(b, b + n)]" by (auto simp: push_span_def e)
    then show ?thesis using assms(1) b by simp
  qed
qed

lemma memory_spans_aligned:
  assumes "\<forall>e\<in>set emap. entry_aligned e"
  shows "\<forall>r\<in>set (memory_spans emap). is_multiple_of (fst r) PAGE \<and> is_multiple_of (snd r) PAGE"
proof -
  let ?ok = "\<lambda>r. is_multiple_of (fst r) PAGE \<and> is_multiple_of (snd r) PAGE"
  have "\<forall>r\<in>set (foldl push_span out emap). ?ok r" if "\<forall>r\<in>set out. ?ok r" for out
    using that assms
  proof (induction emap arbitrary: out)
    case Nil
    then show ?case by simp
  next
    case (Cons e es)
    have "\<forall>r\<in>set (push_span out e). ?ok r"
      by (rule push_span_aligned [OF Cons.prems(1)]) (simp only: Cons.prems(2) list.set_intros)
    moreover have "\<forall>e\<in>set es. entry_aligned e" using Cons.prems(2) by (meson list.set_intros(2))
    ultimately show ?case unfolding foldl_Cons by (rule Cons.IH)
  qed
  from this [of "[]"] show ?thesis by (simp add: memory_spans_def)
qed

section \<open>What the crate requires of a directive\<close>

fun directive_ok :: "directive \<Rightarrow> bool" where
  "directive_ok (PageData gpa m f t data) \<longleftrightarrow> is_multiple_of gpa PAGE \<and> length data = 4096"
| "directive_ok (RequiredMemory gpa m n v) \<longleftrightarrow>
     is_multiple_of gpa PAGE \<and> is_multiple_of n (ucast PAGE)"
| "directive_ok (SnpVpContext gpa m i v) \<longleftrightarrow> is_multiple_of gpa PAGE"
| "directive_ok (SnpIdBlock b) \<longleftrightarrow> True"
| "directive_ok (OtherDirective n) \<longleftrightarrow> False"

fun page_gpa :: "directive \<Rightarrow> u64 list" where
  "page_gpa (PageData gpa m f t data) = [gpa]"
| "page_gpa _ = []"

fun vp_number :: "directive \<Rightarrow> u16 list" where
  "vp_number (SnpVpContext gpa m i v) = [i]"
| "vp_number _ = []"

fun context_vmsa :: "directive \<Rightarrow> sev_vmsa list" where
  "context_vmsa (SnpVpContext gpa m i v) = [v]"
| "context_vmsa _ = []"

fun is_id_block :: "directive \<Rightarrow> bool" where
  "is_id_block (SnpIdBlock b) \<longleftrightarrow> True"
| "is_id_block _ \<longleftrightarrow> False"

definition directives_ok :: "directive list \<Rightarrow> bool" where
  "directives_ok ds \<longleftrightarrow> (\<forall>d\<in>set ds. directive_ok d) \<and>
     distinct (concat (map page_gpa ds)) \<and> distinct (concat (map vp_number ds)) \<and>
     length (filter is_id_block ds) \<le> 1"

section \<open>What the builder's directives are\<close>

lemma SNP_VMSA_aligned: "is_multiple_of SNP_VMSA PAGE"
  unfolding PAGE_aligned_iff by (simp add: layout_consts)

lemma required_length_aligned:
  assumes "is_multiple_of n PAGE" "n \<le> REQUIRED_MEMORY_MAX"
  shows "is_multiple_of (ucast n :: u32) (ucast PAGE)"
proof -
  have "unat n < 2 ^ 32" using assms(2) by (simp add: REQUIRED_MEMORY_MAX_def word_le_nat_alt)
  then have "unat (ucast n :: u32) = unat n"
    by (simp add: unsigned_ucast_eq take_bit_nat_eq_self)
  moreover have "4096 dvd unat n" using assms(1) by (simp only: PAGE_aligned_iff)
  ultimately have "unat (ucast n mod 4096 :: u32) = 0"
    by (simp add: unat_mod dvd_eq_mod_eq_0)
  then show ?thesis by (simp add: is_multiple_of_def PAGE_def unat_eq_zero)
qed

lemma require_span_ok:
  assumes "is_multiple_of at PAGE" "is_multiple_of stop PAGE"
  shows "\<forall>d\<in>set (require_span at stop). directive_ok d"
  using assms
proof (induction at stop rule: require_span.induct)
  case (1 at stop)
  show ?case
  proof (cases "at < stop")
    case False
    then show ?thesis by (subst require_span.simps) simp
  next
    case True
    define n where "n = min (stop - at) REQUIRED_MEMORY_MAX"
    have "is_multiple_of REQUIRED_MEMORY_MAX PAGE"
      unfolding PAGE_aligned_iff by (simp add: layout_consts)
    then have n: "is_multiple_of n PAGE" "n \<le> REQUIRED_MEMORY_MAX"
      unfolding n_def by (intro page_aligned_arith "1.prems") auto
    have "\<forall>d\<in>set (require_span (at + n) stop). directive_ok d"
      by (rule "1.IH" [OF True n_def]) (intro page_aligned_arith "1.prems" n)+
    moreover have "directive_ok (RequiredMemory at SNP_COMPAT (ucast n) False)"
      using "1.prems"(1) required_length_aligned [OF n] by simp
    moreover have "require_span at stop =
        RequiredMemory at SNP_COMPAT (ucast n) False # require_span (at + n) stop"
      using True by (subst require_span.simps) (simp add: n_def Let_def)
    ultimately show ?thesis by (simp del: directive_ok.simps)
  qed
qed

lemma required_memory_ok:
  assumes "\<forall>e\<in>set emap. entry_aligned e"
  shows "\<forall>d\<in>set (required_memory emap). directive_ok d"
  using memory_spans_aligned [OF assms] require_span_ok
  by (fastforce simp: required_memory_def)

lemma require_span_only:
  "d \<in> set (require_span at stop) \<Longrightarrow> \<exists>gpa n. d = RequiredMemory gpa SNP_COMPAT n False"
proof (induction at stop rule: require_span.induct)
  case (1 at stop)
  then show ?case by (subst (asm) require_span.simps) (auto simp: Let_def split: if_splits)
qed

lemma required_memory_only:
  "d \<in> set (required_memory emap) \<Longrightarrow> \<exists>gpa n. d = RequiredMemory gpa SNP_COMPAT n False"
  by (auto simp: required_memory_def dest: require_span_only)

lemma vp_contexts_eq:
  assumes "0 < unat vcpus" "unat vcpus < 65536"
  shows "concat (map context_vmsa (vp_contexts ex vcpus)) =
      bsp_vmsa ex # replicate (unat vcpus - 1) (ap_vmsa ex)"
    and "concat (map vp_number (vp_contexts ex vcpus)) = map of_nat [0..<unat vcpus]"
proof -
  have u: "unat (ucast vcpus :: u16) = unat vcpus"
    using assms(2) by (simp add: unsigned_ucast_eq take_bit_nat_eq_self)
  have "[0..<unat vcpus] = 0 # [1..<unat vcpus]" using assms(1) by (simp add: upt_conv_Cons)
  moreover have "map (\<lambda>i. if i = 0 then bsp_vmsa ex else ap_vmsa ex) [1..<unat vcpus] =
      map (\<lambda>i. ap_vmsa ex) [1..<unat vcpus]"
    by (intro map_cong) auto
  ultimately have "map (\<lambda>i. if i = 0 then bsp_vmsa ex else ap_vmsa ex) [0..<unat vcpus] =
      bsp_vmsa ex # replicate (unat vcpus - 1) (ap_vmsa ex)"
    by (simp add: map_replicate_const)
  moreover have "concat (map context_vmsa (vp_contexts ex vcpus)) =
      map (\<lambda>i. if i = 0 then bsp_vmsa ex else ap_vmsa ex) [0..<unat vcpus]"
    by (simp add: vp_contexts_def u comp_def)
  ultimately show "concat (map context_vmsa (vp_contexts ex vcpus)) =
      bsp_vmsa ex # replicate (unat vcpus - 1) (ap_vmsa ex)" by simp
  show "concat (map vp_number (vp_contexts ex vcpus)) = map of_nat [0..<unat vcpus]"
    by (simp add: vp_contexts_def u comp_def)
qed

lemma distinct_of_nat_u16:
  assumes "n \<le> 65536"
  shows "distinct (map (of_nat :: nat \<Rightarrow> u16) [0..<n])"
proof (subst distinct_map, intro conjI inj_onI)
  fix i j assume ij: "i \<in> set [0..<n]" "j \<in> set [0..<n]" "(of_nat i :: u16) = of_nat j"
  then have "unat (of_nat i :: u16) = unat (of_nat j :: u16)" by simp
  then show "i = j" using ij(1,2) assms by (simp add: unat_of_nat)
qed simp

section \<open>What the builder loads\<close>

text \<open>The facts of a finished map with contents, as the loader sees them.\<close>

lemma snp_loaded:
  assumes "snp_launch_facts ex params p placed emap" "pr_initramfs p \<noteq> []"
  defines "pgs \<equiv> snp_pages (sort_key pl_base placed)"
  shows "sorted_wrt (<) (map lp_gpa pgs)"
    and "\<forall>q\<in>set pgs. is_multiple_of (lp_gpa q) PAGE \<and> length (lp_data q) = 4096"
    and "set (map lp_gpa pgs) = set (loaded_addresses placed)"
proof -
  from assms(1,2) have v: "validate placed (p_memory params) = Inr ()" and pp: "proper placed"
    and ld: "\<forall>q\<in>set placed. loadable q"
    by (simp_all add: snp_launch_facts_def)
  have wp: "well_placed placed (p_memory params)"
    using v validate_well_placed [OF pp] by blast
  have a: "map lp_gpa pgs = loaded_addresses (sort_key pl_base placed)"
    unfolding pgs_def by (rule snp_pages_addresses)
  show "sorted_wrt (<) (map lp_gpa pgs)"
    unfolding a using wp pp ld
    by (intro loaded_ascending [of _ "p_memory params"]) (simp_all add: sort_key_placement)
  show "set (map lp_gpa pgs) = set (loaded_addresses placed)"
    unfolding a by (simp add: loaded_addresses_def)
  have "is_multiple_of (lp_gpa l) PAGE \<and> length (lp_data l) = 4096"
    if q: "q \<in> set placed" and l: "l \<in> set (region_launch q)" for q l
  proof -
    have b: "is_multiple_of (pl_base q) PAGE" using wp q by (simp add: well_placed_def)
    show ?thesis
    proof (cases "pl_fill q")
      case (Measured data)
      with l obtain gpa page where "(gpa, page) \<in> set (pages (pl_base q) data)"
        "lp_gpa l = gpa" "lp_data l = page"
        by (auto simp: region_launch_def add_region_def add_normal_def)
      then show ?thesis using pages_aligned [OF b] pages_page_length by blast
    next
      case Host
      with l have "lp_gpa l = pl_base q" "lp_data l = replicate (unat PAGE) 0"
        by (auto simp: region_launch_def add_region_def add_special_def split: if_splits)
      then show ?thesis using b by simp
    next
      case (Mmio n)
      with l show ?thesis by (simp add: region_launch_def add_region_def)
    qed
  qed
  then show "\<forall>q\<in>set pgs. is_multiple_of (lp_gpa q) PAGE \<and> length (lp_data q) = 4096"
    by (auto simp: pgs_def snp_pages_concat)
qed

text \<open>The directives of a build, as \<open>build\<close> concatenates them.\<close>

definition snp_directives ::
  "('f, 'k) externs \<Rightarrow> params \<Rightarrow> e820_entry list \<Rightarrow> launch_page list \<Rightarrow> directive list \<Rightarrow> directive list" where
  "snp_directives ex params emap pgs headers =
     required_memory emap @ page_directives pgs @ vp_contexts ex (p_vcpus params) @ headers"

lemma snp_directives_parts:
  assumes "headers = [] \<or> (\<exists>b. headers = [SnpIdBlock b])"
  shows "concat (map page_gpa (snp_directives ex params emap pgs headers)) = map lp_gpa pgs"
    and "concat (map vp_number (snp_directives ex params emap pgs headers)) =
      concat (map vp_number (vp_contexts ex (p_vcpus params)))"
    and "filter is_id_block (snp_directives ex params emap pgs headers) = headers"
proof -
  have r: "concat (map page_gpa (required_memory emap)) = []"
    "concat (map vp_number (required_memory emap)) = []"
    using required_memory_only by fastforce+
  have p: "concat (map page_gpa (vp_contexts ex v)) = []" "concat (map vp_number (page_directives pgs)) = []"
    for v by (auto simp: vp_contexts_def page_directives_def page_directive_def)
  have l: "concat (map page_gpa (page_directives pgs)) = map lp_gpa pgs"
    by (induction pgs) (simp_all add: page_directives_def page_directive_def)
  have id: "filter is_id_block (required_memory emap) = []"
    using required_memory_only by (fastforce simp: filter_empty_conv)
  show "concat (map page_gpa (snp_directives ex params emap pgs headers)) = map lp_gpa pgs"
    using assms by (auto simp: snp_directives_def r p l)
  show "concat (map vp_number (snp_directives ex params emap pgs headers)) =
      concat (map vp_number (vp_contexts ex (p_vcpus params)))"
    using assms by (auto simp: snp_directives_def r p)
  show "filter is_id_block (snp_directives ex params emap pgs headers) = headers"
    using assms by (auto simp: snp_directives_def id page_directives_def vp_contexts_def
        page_directive_def filter_empty_conv)
qed

lemma snp_facts_aligned:
  assumes "snp_launch_facts ex params p placed emap"
    "check_holes (p_memory params) (p_mmio params) = Inr ()"
  shows "aligned placed"
proof -
  from assms(1) have v: "validate placed (p_memory params) = Inr ()" and pp: "proper placed"
    and k: "\<forall>q\<in>set placed. snp_region_kind params q"
    by (simp_all add: snp_launch_facts_def)
  have wp: "well_placed placed (p_memory params)"
    using v validate_well_placed [OF pp] by blast
  have "\<forall>n\<in>snd ` set (p_mmio params). is_multiple_of n PAGE"
    using assms(2) by (auto simp: check_holes_Inr_iff)
  then show ?thesis
    using k by (intro span_aligned [OF pp wp]) (auto simp: snp_region_kind_def)
qed

lemma snp_directives_ok:
  assumes "snp_launch_facts ex params p placed emap" "pr_initramfs p \<noteq> []"
    "is_multiple_of (p_memory params) PAGE" "check_holes (p_memory params) (p_mmio params) = Inr ()"
    "0 < unat (p_vcpus params)" "p_vcpus params \<le> MAX_VCPUS"
    "headers = [] \<or> (\<exists>b. headers = [SnpIdBlock b])"
  shows "directives_ok (snp_directives ex params emap (snp_pages (sort_key pl_base placed)) headers)"
proof -
  let ?pgs = "snp_pages (sort_key pl_base placed)"
  note ld = snp_loaded [OF assms(1,2)]
  from assms(1) have v: "validate placed (p_memory params) = Inr ()" and pp: "proper placed"
    and em: "emap = e820 placed (p_memory params)"
    by (simp_all add: snp_launch_facts_def)
  have "aligned placed" by (rule snp_facts_aligned [OF assms(1,4)])
  then have req: "\<forall>d\<in>set (required_memory emap). directive_ok d"
    unfolding em using e820_aligned assms(3) by (intro required_memory_ok) blast
  have pg: "\<forall>d\<in>set (page_directives ?pgs). directive_ok d"
    using ld(2) by (auto simp: page_directives_def page_directive_def)
  have vp: "\<forall>d\<in>set (vp_contexts ex (p_vcpus params)). directive_ok d"
    using SNP_VMSA_aligned by (auto simp: vp_contexts_def)
  have all: "\<forall>d\<in>set (snp_directives ex params emap ?pgs headers). directive_ok d"
    unfolding snp_directives_def set_append ball_Un using req pg vp assms(7) by auto
  have n: "unat (p_vcpus params) < 65536"
    using assms(6) by (simp add: word_le_nat_alt layout_consts)
  have d: "distinct (map lp_gpa ?pgs)" using ld(1) by (simp add: strict_sorted_iff)
  show ?thesis
    unfolding directives_ok_def snp_directives_parts [OF assms(7)] vp_contexts_eq(2) [OF assms(5) n]
    using all d distinct_of_nat_u16 [of "unat (p_vcpus params)"] n assms(7) by auto
qed

end
