(* ===== verification/Snp_Publish.thy ===== *)
theory Snp_Publish
  imports Snp_Directives
begin

text \<open>
  The SNP builder against the file system (\<open>snp::build\<close>): what a successful run publishes, that
  the image accounts for the guest's memory, and that a valid input does succeed.
\<close>

section \<open>The builder as steps\<close>

lemma snp_sign_Inr_conv:
  "snp_sign ex id_key ld svn s = (Inr (headers, sealed), s') \<longleftrightarrow> s' = s \<and>
     (id_key = None \<and> headers = [] \<and> sealed = None \<or>
      (\<exists>path bs pem header digest. id_key = Some path \<and> fs_files s path = Inr bs \<and>
         utf8_decode bs = Some pem \<and> id_block ex pem ld svn = Inr (header, digest) \<and>
         headers = [header] \<and> sealed = Some digest))"
proof (cases id_key)
  case None
  then show ?thesis by (auto simp: snp_sign_def)
next
  case (Some path)
  have "fs_read_to_string action path s = (Inr pem, s') \<longleftrightarrow>
      s' = s \<and> (\<exists>bs. fs_files s path = Inr bs \<and> utf8_decode bs = Some pem)" for action pem s s'
    by (auto simp: fs_read_to_string_def io_bind_Inr_conv io_lift_Inr_conv simp del: io_lift_conv)
  then show ?thesis
    using Some by (auto simp: snp_sign_def io_bind_Inr_conv io_lift_Inr_conv simp del: io_lift_conv)
qed

lemma fs_read_to_string_keeps: "fs_read_to_string action path s = (r, s') \<Longrightarrow> s' = s"
  using fs_read_to_string_pure [of action path s] by simp

lemma snp_sign_pure: "snp_sign ex id_key ld svn s = (r, s') \<Longrightarrow> s' = s"
  by (cases id_key)
    (auto simp: snp_sign_def io_bind_def io_return_def io_lift_def
      split: prod.splits sum.splits dest: fs_read_to_string_keeps)

lemma build_snp_steps:
  "svn = 0 \<or> key \<noteq> None \<Longrightarrow> build_snp ex kp ip out params h key svn =
     io_bind (io_lift (config_field h 32)) (\<lambda>host_data.
     io_bind (prepare kp ip params) (\<lambda>p.
     io_bind (io_lift (snp_place ex params p)) (\<lambda>(placed, emap, owned).
     io_bind (io_lift (snp_measured ex params (sort_key pl_base placed)))
       (\<lambda>(pgs, vmsa, ap_page, ld).
     io_bind (snp_sign ex key ld svn) (\<lambda>(headers, sealed).
     io_bind (io_lift (snp_file ex (snp_directives ex params emap pgs headers))) (\<lambda>img.
     io_bind (fs_write ''write SNP IGVM'' out img) (\<lambda>_.
     write_manifest out (ex_json_snp ex (snp_manifest_of ex params p (sort_key pl_base placed)
       owned vmsa ap_page ld host_data svn sealed)))))))))"
  by (auto simp: build_snp_def snp_directives_def Let_def)

lemma build_snp_unsigned:
  "svn \<noteq> 0 \<Longrightarrow> build_snp ex kp ip out params h None svn s = (Inl (Snp SvnNeedsKey), s)"
  by (simp add: build_snp_def io_lift_def)

text \<open>The steps of a successful run, named.\<close>

definition snp_run ::
  "('f, 'k) externs \<Rightarrow> rstr \<Rightarrow> rstr \<Rightarrow> params \<Rightarrow> rstr option \<Rightarrow> rstr option \<Rightarrow> u32 \<Rightarrow> fs \<Rightarrow>
   prepared \<Rightarrow> placed list \<Rightarrow> e820_entry list \<Rightarrow> directive list \<Rightarrow> bytes \<Rightarrow> bytes \<Rightarrow> snp_manifest \<Rightarrow> bool" where
  "snp_run ex kp ip params h key svn s p placed emap headers ld img manifest \<longleftrightarrow>
     (svn = 0 \<or> key \<noteq> None) \<and>
     (\<exists>host_data kf ir owned vmsa ap_page sealed.
       config_field h 32 = Inr host_data \<and> fs_files s kp = Inr kf \<and> fs_files s ip = Inr ir \<and>
       prepare_inputs kf ir params = Inr p \<and> snp_place ex params p = Inr (placed, emap, owned) \<and>
       snp_measured ex params (sort_key pl_base placed) =
         Inr (snp_pages (sort_key pl_base placed), vmsa, ap_page, ld) \<and>
       snp_sign ex key ld svn s = (Inr (headers, sealed), s) \<and>
       snp_file ex (snp_directives ex params emap (snp_pages (sort_key pl_base placed)) headers)
         = Inr img \<and>
       manifest = snp_manifest_of ex params p (sort_key pl_base placed) owned vmsa ap_page ld
         host_data svn sealed)"

lemma snp_measured_pages: "snp_measured ex params ps = Inr (pgs, vmsa, ap, ld) \<Longrightarrow> pgs = snp_pages ps"
  by (auto simp: snp_measured_def Let_def bind_result_Inr_conv)

lemma build_snp_Inr_conv:
  "build_snp ex kp ip out params h key svn s = (Inr u, s') \<longleftrightarrow>
    (\<exists>p placed emap headers ld img manifest json.
       snp_run ex kp ip params h key svn s p placed emap headers ld img manifest \<and>
       ex_json_snp ex manifest = Inr json \<and>
       fs_write_error s out = None \<and> fs_write_error s (manifest_path out) = None \<and>
       s' = s\<lparr>fs_files := (fs_files s)(out := Inr img, manifest_path out := Inr (json @ [10]))\<rparr>)"
  (is "?l = ?r")
proof
  assume ?l
  then have k: "svn = 0 \<or> key \<noteq> None"
    by (cases "svn = 0"; cases key) (auto simp: build_snp_unsigned)
  with \<open>?l\<close> obtain host_data kf ir p placed emap owned pgs vmsa ap ld headers sealed img json s1 where
    a: "config_field h 32 = Inr host_data" "fs_files s kp = Inr kf" "fs_files s ip = Inr ir"
      "prepare_inputs kf ir params = Inr p" "snp_place ex params p = Inr (placed, emap, owned)"
    and m: "snp_measured ex params (sort_key pl_base placed) = Inr (pgs, vmsa, ap, ld)"
    and b: "snp_sign ex key ld svn s = (Inr (headers, sealed), s1)"
      "snp_file ex (snp_directives ex params emap pgs headers) = Inr img"
    and w: "fs_write_error s1 out = None" "fs_write_error s1 (manifest_path out) = None"
      "ex_json_snp ex (snp_manifest_of ex params p (sort_key pl_base placed) owned vmsa ap ld
         host_data svn sealed) = Inr json"
      "s' = s1\<lparr>fs_files := (fs_files s1)(out := Inr img, manifest_path out := Inr (json @ [10]))\<rparr>"
    unfolding build_snp_steps [OF k]
    by (auto simp: io_bind_Inr_conv prepare_Inr_conv fs_write_Inr_conv write_manifest_Inr_conv
        io_lift_Inr_conv simp del: io_lift_conv)
  have "s1 = s" by (rule snp_sign_pure [OF b(1)])
  have "snp_run ex kp ip params h key svn s p placed emap headers ld img
      (snp_manifest_of ex params p (sort_key pl_base placed) owned vmsa ap ld host_data svn sealed)"
    using k a m b snp_measured_pages [OF m] \<open>s1 = s\<close> unfolding snp_run_def by blast
  with w \<open>s1 = s\<close> show ?r by blast
next
  assume ?r
  then obtain p placed emap headers ld img manifest json where
    r: "snp_run ex kp ip params h key svn s p placed emap headers ld img manifest"
      "ex_json_snp ex manifest = Inr json"
      "fs_write_error s out = None" "fs_write_error s (manifest_path out) = None"
      "s' = s\<lparr>fs_files := (fs_files s)(out := Inr img, manifest_path out := Inr (json @ [10]))\<rparr>"
    by blast
  from r(1) have k: "svn = 0 \<or> key \<noteq> None" by (simp add: snp_run_def)
  with r show ?l
    unfolding build_snp_steps [OF k] snp_run_def
      io_bind_Inr_conv prepare_Inr_conv fs_write_Inr_conv write_manifest_Inr_conv io_lift_Inr_conv
      split_paired_Ex prod.case
    by fastforce
qed

section \<open>What a run fixes\<close>

lemma snp_measured_Inr:
  assumes "snp_measured ex params ps = Inr (pgs, vmsa, ap, ld)"
  shows "vmsa_page ex (bsp_vmsa ex) = Some vmsa" "vmsa_page ex (ap_vmsa ex) = Some ap"
    "launch_measurement (ex_sha384 ex) pgs (vmsa # replicate (unat (p_vcpus params) - 1) ap) = Some ld"
  using assms
  by (auto simp: snp_measured_def Let_def bind_result_Inr_conv map_replicate_const)

lemma snp_measured_succeeds:
  assumes "validate_pages (snp_pages ps) = Inr ()" "ex_with_snp ex = SNP_SEV_FEATURES"
    "\<forall>v. length (ex_vmsa_bytes ex v) \<le> 4096" "\<forall>x. length (ex_sha384 ex x) = 48"
  shows "\<exists>vmsa ap ld. snp_measured ex params ps = Inr (snp_pages ps, vmsa, ap, ld)"
proof -
  have v: "\<exists>page. vmsa_page ex v = Some page" for v
    using assms(3) by (simp add: vmsa_page_def poke_def)
  obtain vmsa ap where vm: "vmsa_page ex (bsp_vmsa ex) = Some vmsa" "vmsa_page ex (ap_vmsa ex) = Some ap"
    using v by blast
  have "validate_vmsa (bsp_vmsa ex) SHIM_BASE BSP_STACK_TOP ZERO_PAGE = Inr ()"
    "validate_vmsa (ap_vmsa ex) SNP_AP_ENTRY 0 0 = Inr ()"
    using assms(2) by (simp_all add: vmsa_pinned)
  then show ?thesis
    using assms(1) vm by (simp add: snp_measured_def launch_measurement_run [OF assms(4)] Let_def)
qed

text \<open>The manifest counts the cores in eight bits, fewer than the processors the parameters allow.\<close>

lemma manifest_topology:
  "tp_cores (sm_topology (snp_manifest_of ex params p placed owned vmsa ap_page ld host_data svn sealed)) =
     ucast (p_vcpus params)"
  "unat (ucast (p_vcpus params) :: u8) = unat (p_vcpus params) \<longleftrightarrow> unat (p_vcpus params) < 256"
  by (simp_all add: snp_manifest_of_def Let_def unsigned_ucast_eq take_bit_nat_eq_self_iff)

lemma snp_params_facts:
  assumes "snp_params ram vcpus cbit cmdline holes = Inr params"
  shows "0 < unat (p_vcpus params)" "p_vcpus params \<le> MAX_VCPUS" "unat (p_vcpus params) < 65536"
    "INITRAMFS_BASE < p_memory params" "is_multiple_of (p_memory params) PAGE"
    "check_holes (p_memory params) (p_mmio params) = Inr ()"
proof -
  show v: "p_vcpus params \<le> MAX_VCPUS" and "0 < unat (p_vcpus params)"
    and "check_holes (p_memory params) (p_mmio params) = Inr ()"
    using assms unfolding snp_params_def by (elim new_paramsE; simp add: word_less_nat_alt)+
  show "unat (p_vcpus params) < 65536" using v by (simp add: word_le_nat_alt layout_consts)
  show "INITRAMFS_BASE < p_memory params" "is_multiple_of (p_memory params) PAGE"
    using new_params_memory assms unfolding snp_params_def by blast+
qed

lemma snp_params_apertures:
  assumes "snp_params ram vcpus cbit cmdline [] = Inr params"
  shows "snp_machine_apertures params" "length (p_mmio params) \<le> 47" "apertures_ok params"
    "FOUR_GIB \<le> p_memory params \<or> p_mmio params = []" "p_mmio params \<noteq> [] \<longleftrightarrow> Q35_SPLIT \<le> ram"
proof -
  from assms obtain ram: "ram \<le> MAX_RAM" and
    p: "p_memory params = (if ram \<ge> Q35_SPLIT then FOUR_GIB + ram - Q35_LOWMEM else ram)"
    "p_mmio params = (if ram \<ge> Q35_SPLIT then [(Q35_LOWMEM, FOUR_GIB - Q35_LOWMEM)] else [])"
    unfolding snp_params_def by (elim new_paramsE) simp
  show "snp_machine_apertures params" "length (p_mmio params) \<le> 47"
    "p_mmio params \<noteq> [] \<longleftrightarrow> Q35_SPLIT \<le> ram"
    using p by (simp_all add: snp_machine_apertures_def)
  show "apertures_ok params" using p(2) by (simp add: apertures_ok_def layout_consts)
  have "FOUR_GIB \<le> FOUR_GIB + ram - Q35_LOWMEM" if "Q35_SPLIT \<le> ram"
    using split_memory [OF that ram] that by (simp add: word_le_nat_alt layout_consts)
  then show "FOUR_GIB \<le> p_memory params \<or> p_mmio params = []" using p by simp
qed

lemma extern_result_Inr_conv: "extern_result wrap r = Inr x \<longleftrightarrow> r = Inr x"
  by (cases r) auto

text \<open>
  A signed block: it states the digest and the version, holds the public key of \<open>key\<close> and its
  signature over the bytes of the block; \<open>digest\<close> is the digest of that public key.
\<close>

definition signed_block ::
  "('f, 'k) externs \<Rightarrow> 'k \<Rightarrow> bytes \<Rightarrow> u32 \<Rightarrow> id_block_fields \<Rightarrow> bytes \<Rightarrow> bool" where
  "signed_block ex key ld svn b digest \<longleftrightarrow>
     ib_ld b = ld \<and> ib_guest_svn b = svn \<and>
     (\<exists>block x y. id_block_bytes ld svn = Some block \<and>
        le72 (fst (ex_sign ex key block)) = Some (sg_r (ib_id_key_signature b)) \<and>
        le72 (snd (ex_sign ex key block)) = Some (sg_s (ib_id_key_signature b)) \<and>
        ex_point ex key = (Some x, Some y) \<and>
        le72 x = Some (pk_qx (ib_id_public_key b)) \<and> le72 y = Some (pk_qy (ib_id_public_key b)) \<and>
        key_digest (ex_sha384 ex) (ib_id_public_key b) = Some digest)"

lemma id_block_Inr:
  assumes "id_block ex pem ld svn = Inr (header, digest)"
  obtains b k where "header = SnpIdBlock b" "ex_parse_key ex pem = Inr k"
    "signed_block ex k ld svn b digest"
  using assms
  by (auto simp: id_block_def Let_def split_def bind_result_Inr_conv extern_result_Inr_conv
      signed_block_def prod_eq_iff intro!: that)

lemma snp_sign_headers:
  "snp_sign ex key ld svn s = (Inr (headers, sealed), s') \<Longrightarrow>
     headers = [] \<or> (\<exists>b. headers = [SnpIdBlock b])"
  by (auto simp: snp_sign_Inr_conv elim: id_block_Inr)

section \<open>The memory of the guest\<close>

lemma snp_required_iff:
  assumes "snp_launch_facts ex params p placed emap" "a < p_memory params"
  shows "(\<exists>d\<in>set (required_memory emap). requires d a) \<longleftrightarrow> \<not> in_aperture params a"
proof -
  from assms(1) have v: "validate placed (p_memory params) = Inr ()" and pp: "proper placed"
    and em: "emap = e820 placed (p_memory params)"
    and k: "\<forall>q\<in>set placed. snp_region_kind params q"
    and ap: "apertures_cover placed a \<longleftrightarrow> in_aperture params a"
    by (simp_all add: snp_launch_facts_def)
  have wp: "well_placed placed (p_memory params)"
    using v validate_well_placed [OF pp] by blast
  have "\<forall>q\<in>set placed. is_mmio q \<longleftrightarrow> pl_e820 q = ABSENT"
    using k by (simp add: snp_region_kind_def)
  from region_type_None_iff [OF wp this assms(2)]
  have "region_type placed (p_memory params) a = None \<longleftrightarrow> apertures_cover placed a" .
  then show ?thesis
    using required_memory_e820 [OF v pp] ap em by (simp only: not_not)
qed

lemma snp_shim_page_is_loaded:
  assumes "placed_measured SHIM_BASE (lit ''shim'') RESERVED page \<in> set placed" "length page = 4096"
  shows "\<lparr>lp_gpa = SHIM_BASE, lp_data = page, lp_kind = NORMAL\<rparr> \<in> set (snp_pages (sort_key pl_base placed))"
proof -
  have "\<lparr>lp_gpa = SHIM_BASE, lp_data = page, lp_kind = NORMAL\<rparr>
      \<in> set (region_launch (placed_measured SHIM_BASE (lit ''shim'') RESERVED page))"
    using assms(2) by (simp add: region_launch_def add_region_def add_normal_def one_page)
  then show ?thesis using assms(1) unfolding snp_pages_concat by auto
qed

lemma snp_memory_account:
  assumes "snp_launch_facts ex params p placed emap" "pr_initramfs p \<noteq> []"
    "length (ex_snp_shim ex) = 4096"
  defines "pgs \<equiv> snp_pages (sort_key pl_base placed)"
    and "ranges \<equiv> accept_ranges placed (p_memory params)"
  shows "\<exists>page.
    \<lparr>lp_gpa = SHIM_BASE, lp_data = page, lp_kind = NORMAL\<rparr> \<in> set pgs \<and>
    shim_entry page = Some (pr_entry p) \<and> shim_ranges page 0xc08 = Some ranges \<and>
    (\<forall>a. is_multiple_of a PAGE \<longrightarrow> a < p_memory params \<longrightarrow>
       exactly_one (a \<in> set (map lp_gpa pgs)) (accepted ranges a) (in_aperture params a))"
proof -
  from assms(1,2) obtain page where
    v: "validate placed (p_memory params) = Inr ()" and wfp: "proper placed"
    and ap: "\<forall>a. apertures_cover placed a \<longleftrightarrow> in_aperture params a"
    and ld: "\<forall>q\<in>set placed. loadable q"
    and page: "placed_measured SHIM_BASE (lit ''shim'') RESERVED page \<in> set placed"
      "length page = 4096"
      "shim (ex_snp_shim ex) (pr_entry p) (accept_ranges placed (p_memory params)) = Inr page"
    unfolding snp_launch_facts_def by blast
  have wp: "well_placed placed (p_memory params)"
    using v validate_well_placed [OF wfp] by blast
  let ?rs = "accept_ranges placed (p_memory params)"
  have "\<forall>r\<in>set ?rs. fst r < snd r" using accept_ranges_bounds by fastforce
  note readback = shim_page_contents [OF assms(3) page(3) this]
  have "exactly_one (a \<in> set (map lp_gpa pgs)) (accepted ?rs a) (in_aperture params a)"
    if "is_multiple_of a PAGE" "a < p_memory params" for a
    using memory_partition [OF wp wfp ld that] ap snp_loaded(3) [OF assms(1,2)]
    by (simp add: exactly_one_def pgs_def)
  then show ?thesis
    using snp_shim_page_is_loaded [OF page(1,2)] readback unfolding pgs_def ranges_def by blast
qed

section \<open>When a build succeeds\<close>

text \<open>
  The documented behaviour of the crates: SNPActive is the one feature set, the VMSA fits a
  page, the digest has 48 bytes, the manifest serialises, and \<open>igvm\<close> constructs, serialises
  and reads back a file whose directives meet its requirements.
\<close>

definition snp_crates_ok :: "('f, 'k) externs \<Rightarrow> bool" where
  "snp_crates_ok ex \<longleftrightarrow> ex_with_snp ex = SNP_SEV_FEATURES \<and>
     (\<forall>v. length (ex_vmsa_bytes ex v) \<le> 4096) \<and> (\<forall>x. length (ex_sha384 ex x) = 48) \<and>
     (\<forall>m. \<exists>json. ex_json_snp ex m = Inr json) \<and>
     (\<forall>ds. directives_ok ds \<longrightarrow>
        (\<exists>f bs g. ex_igvm_new ex [snp_platform] [GuestPolicy SNP_GUEST_POLICY SNP_COMPAT] ds = Inr f \<and>
           ex_igvm_serialize ex f = Inr bs \<and> ex_igvm_parse ex bs = Inr g))"

text \<open>A signing key that can be read, parses, and signs with components of at most 72 bytes.\<close>

definition key_usable :: "('f, 'k) externs \<Rightarrow> fs \<Rightarrow> rstr option \<Rightarrow> bool" where
  "key_usable ex s key \<longleftrightarrow> (case key of
       None \<Rightarrow> True
     | Some path \<Rightarrow> (\<exists>bs pem k x y. fs_files s path = Inr bs \<and> utf8_decode bs = Some pem \<and>
         ex_parse_key ex pem = Inr k \<and> ex_point ex k = (Some x, Some y) \<and>
         length x \<le> 72 \<and> length y \<le> 72 \<and>
         (\<forall>block. length block = ID_BLOCK_LEN \<longrightarrow>
            length (fst (ex_sign ex k block)) \<le> 72 \<and> length (snd (ex_sign ex k block)) \<le> 72)))"

lemma le72_Some: "length be \<le> 72 \<Longrightarrow> \<exists>v. le72 be = Some v \<and> length v = 72"
  by (simp add: le72_eq)

lemma key_digest_Some:
  assumes "length (pk_qx k) = 72" "length (pk_qy k) = 72"
  shows "\<exists>d. key_digest h k = Some d"
  using assms by (simp add: key_digest_def sev_key_def layout_consts)

lemma id_block_succeeds:
  assumes "ex_parse_key ex pem = Inr k" "ex_point ex k = (Some x, Some y)" "length x \<le> 72"
    "length y \<le> 72" "\<forall>block. length block = ID_BLOCK_LEN \<longrightarrow>
       length (fst (ex_sign ex k block)) \<le> 72 \<and> length (snd (ex_sign ex k block)) \<le> 72"
    "length ld = 48"
  shows "\<exists>header digest. id_block ex pem ld svn = Inr (header, digest)"
proof -
  obtain block where block: "id_block_bytes ld svn = Some block" "length block = ID_BLOCK_LEN"
    using assms(6) by (simp add: id_block_bytes_def layout_consts)
  obtain qx qy where q: "le72 x = Some qx" "le72 y = Some qy" "length qx = 72" "length qy = 72"
    using le72_Some assms(3,4) by blast
  obtain r sg where rs: "ex_sign ex k block = (r, sg)" by (cases "ex_sign ex k block")
  then obtain rc sc where c: "le72 r = Some rc" "le72 sg = Some sc"
    using le72_Some assms(5) block(2) by (metis fst_conv snd_conv)
  obtain d where "key_digest (ex_sha384 ex) \<lparr>pk_curve = ID_CURVE_P384, pk_qx = qx, pk_qy = qy\<rparr> = Some d"
    using key_digest_Some q(3,4) by fastforce
  then show ?thesis
    using assms(1,2) block(1) q(1,2) rs c by (simp add: id_block_def Let_def)
qed

lemma snp_sign_succeeds:
  assumes "key_usable ex s key" "length ld = 48"
  shows "\<exists>headers sealed. snp_sign ex key ld svn s = (Inr (headers, sealed), s)"
proof (cases key)
  case None
  then show ?thesis by (simp add: snp_sign_Inr_conv)
next
  case (Some path)
  with assms(1) obtain bs pem k x y where key: "fs_files s path = Inr bs" "utf8_decode bs = Some pem"
    "ex_parse_key ex pem = Inr k" "ex_point ex k = (Some x, Some y)" "length x \<le> 72" "length y \<le> 72"
    "\<forall>block. length block = ID_BLOCK_LEN \<longrightarrow>
       length (fst (ex_sign ex k block)) \<le> 72 \<and> length (snd (ex_sign ex k block)) \<le> 72"
    unfolding key_usable_def by auto
  obtain header digest where "id_block ex pem ld svn = Inr (header, digest)"
    using id_block_succeeds [OF key(3-7) assms(2)] by blast
  then show ?thesis using Some key(1,2) by (fastforce simp: snp_sign_Inr_conv)
qed

lemma snp_chain_length:
  "\<forall>x. length (h x) = 48 \<Longrightarrow> launch_measurement h pgs vs = Some ld \<Longrightarrow> length ld = 48"
  using snp_chain.length_run [of h "replicate 48 0"] by (auto simp: launch_measurement_run)

end
