(* ===== verification/Snp_Properties.thy ===== *)
theory Snp_Properties
  imports Snp_Publish
begin

text \<open>
  The properties of an SNP build: success on acceptable inputs, what is published and signed,
  the account of the guest's memory, and what a failure leaves.
\<close>

section \<open>Success\<close>

text \<open>Once the map is placed, only the file system can refuse.\<close>

lemma snp_run_from_place:
  assumes "snp_params ram vcpus cbit cmdline holes = Inr params" "apertures_ok params"
    and "snp_place ex params p = Inr (placed, emap, owned)" "sized params p"
    and "fs_files s kernel_path = Inr kf" "fs_files s initramfs_path = Inr ir" "ir \<noteq> []"
    and "prepare_inputs kf ir params = Inr p" "config_field config_hash 32 = Inr field"
    and "guest_svn = 0 \<or> id_key \<noteq> None" "key_usable ex s id_key"
    and "length (ex_snp_shim ex) = 4096" "snp_crates_ok ex"
  shows "\<exists>headers ld img manifest.
    snp_run ex kernel_path initramfs_path params config_hash id_key guest_svn s p placed emap
      headers ld img manifest"
proof -
  note pf = snp_params_facts [OF assms(1)]
  note cr = assms(13) [unfolded snp_crates_ok_def]
  have ne: "pr_initramfs p \<noteq> []" using prepare_inputs_shape(3) [OF assms(8)] assms(7) by simp
  note facts = snp_place_facts [OF assms(3,4,12,2)]
  let ?ps = "sort_key pl_base placed"
  have "validate_pages (snp_pages ?ps) = Inr ()"
    using snp_loaded(1,2) [OF facts ne] by (intro validate_pages_ascending) simp_all
  then obtain vmsa ap ld where m: "snp_measured ex params ?ps = Inr (snp_pages ?ps, vmsa, ap, ld)"
    using snp_measured_succeeds cr by blast
  have "length ld = 48" using snp_chain_length snp_measured_Inr(3) [OF m] cr by blast
  then obtain headers sealed where sg: "snp_sign ex id_key ld guest_svn s = (Inr (headers, sealed), s)"
    using snp_sign_succeeds [OF assms(11)] by blast
  have ok: "directives_ok (snp_directives ex params emap (snp_pages ?ps) headers)"
    by (rule snp_directives_ok [OF facts ne pf(5,6,1,2) snp_sign_headers [OF sg]])
  then obtain img where "snp_file ex (snp_directives ex params emap (snp_pages ?ps) headers) = Inr img"
    using cr by (fastforce simp: snp_file_def)
  then show ?thesis
    unfolding snp_run_def using assms(3,5,6,8-10) m sg by blast
qed

lemma snp_run_exists:
  assumes "snp_params ram vcpus cbit cmdline [] = Inr params"
    and "fs_files s kernel_path = Inr kf" "fs_files s initramfs_path = Inr ir" "ir \<noteq> []"
    and "prepare_inputs kf ir params = Inr p"
    and "vec_len_ok kf" "vec_len_ok ir" "length (utf8 (p_cmdline params)) < 0xffffffff"
    and "Q35_SPLIT \<le> ram \<Longrightarrow> length ir \<le> 0x60000000"
    and "config_field config_hash 32 = Inr field"
    and "guest_svn = 0 \<or> id_key \<noteq> None" "key_usable ex s id_key"
    and "blank_shim (ex_snp_shim ex)" "snp_crates_ok ex"
  shows "\<exists>placed emap headers ld img manifest.
    snp_run ex kernel_path initramfs_path params config_hash id_key guest_svn s p placed emap
      headers ld img manifest"
proof -
  note pf = snp_params_facts [OF assms(1)] and pa = snp_params_apertures [OF assms(1)]
  have sized: "sized params p" by (rule prepared_sized [OF assms(5) pf(2) assms(6,7)])
  have fit: "contents_fit params p"
    using prepared_contents_fit [OF assms(5-7) pf(4,5) assms(8)] pa(5) assms(9) by blast
  obtain placed emap where pl: "snp_place ex params p = Inr (placed, emap, 0x1b000)"
    using snp_place_succeeds [OF sized assms(13) pa(3,2)] snp_well_placed [OF sized _ pa(1,4) fit]
    by blast
  have "length (ex_snp_shim ex) = 4096" using assms(13) by (simp add: blank_shim_def)
  then show ?thesis
    using snp_run_from_place [OF assms(1) pa(3) pl sized assms(2-5,10-12) _ assms(14)] by blast
qed

section \<open>The demonstration guest\<close>

definition snp_demo_fs :: fs where
  "snp_demo_fs = \<lparr>fs_files = (\<lambda>path. if path = lit ''k'' then Inr test_kernel
      else if path = lit ''i'' then Inr [1, 2, 3] else if path = lit ''p'' then Inr [75]
      else Inl ''No such file or directory''), fs_write_error = (\<lambda>path. None)\<rparr>"

lemma snp_default_params: "snp_params DEFAULT_RAM DEFAULT_VCPUS DEFAULT_CBIT [] [] = Inr default_params"
  by (simp add: snp_params_def new_params_def full_cmdline_def trim_def trim_start_def
      DEFAULT_CMDLINE_def REQUIRED_CMDLINE_def utf8_def utf8_char_def layout_consts
      is_multiple_of_def default_params_def)

lemma snp_demo_facts:
  "fs_files snp_demo_fs (lit ''k'') = Inr test_kernel" "fs_files snp_demo_fs (lit ''i'') = Inr [1, 2, 3]"
  "[1, 2, 3 :: u8] \<noteq> []" "fs_write_error snp_demo_fs path = None"
  "blank_shim (ex_snp_shim demo_externs)" "length (ex_snp_shim demo_externs) = 4096"
  "config_field None 32 = Inr (zeros 32)"
  by (simp_all add: snp_demo_fs_def demo_externs_def blank_shim_def config_field_def)

lemma snp_demo_crates: "snp_crates_ok demo_externs"
  by (simp add: snp_crates_ok_def demo_externs_def layout_consts min_def)

lemma snp_demo_key: "key_usable demo_externs snp_demo_fs (Some (lit ''p''))"
proof -
  have "utf8_decode [75] = Some [75]"
    using utf8_decode_utf8_ascii [of "[75]"] by (simp add: utf8_def utf8_char_def)
  then show ?thesis by (simp add: key_usable_def snp_demo_fs_def demo_externs_def ID_BLOCK_LEN_def)
qed

lemma snp_build_ok:
  assumes "snp_params ram vcpus cbit cmdline [] = Inr params"
    and "fs_files s kernel_path = Inr kf" "fs_files s initramfs_path = Inr ir" "ir \<noteq> []"
    and "prepare_inputs kf ir params = Inr p"
    and "vec_len_ok kf" "vec_len_ok ir" "length (utf8 (p_cmdline params)) < 0xffffffff"
    and "Q35_SPLIT \<le> ram \<Longrightarrow> length ir \<le> 0x60000000"
    and "config_field config_hash 32 = Inr field"
    and "guest_svn = 0 \<or> id_key \<noteq> None" "key_usable ex s id_key"
    and "blank_shim (ex_snp_shim ex)" "snp_crates_ok ex"
    and "fs_write_error s out = None" "fs_write_error s (manifest_path out) = None"
  shows "\<exists>s'. build_snp ex kernel_path initramfs_path out params config_hash id_key guest_svn s =
    (Inr (), s')"
proof -
  obtain placed emap headers ld img manifest where
    r: "snp_run ex kernel_path initramfs_path params config_hash id_key guest_svn s p placed emap
      headers ld img manifest"
    using snp_run_exists [OF assms(1-14)] by blast
  obtain json where "ex_json_snp ex manifest = Inr json"
    using assms(14) unfolding snp_crates_ok_def by blast
  with r assms(15,16) show ?thesis unfolding build_snp_Inr_conv by blast
qed

lemma snp_demo_build:
  "key_usable demo_externs snp_demo_fs key \<Longrightarrow> svn = 0 \<or> key \<noteq> None \<Longrightarrow>
   \<exists>s'. build_snp demo_externs (lit ''k'') (lit ''i'') (lit ''o'') default_params None key svn
     snp_demo_fs = (Inr (), s')"
  using snp_build_ok [OF snp_default_params snp_demo_facts(1,2,3) demo_prepared demo_facts(3,4,5) _
      snp_demo_facts(7) _ _ snp_demo_facts(5) snp_demo_crates snp_demo_facts(4,4)] demo_facts(6)
  by blast

text \<open>An SNP build succeeds whenever its inputs are acceptable: parameters without apertures of the
  user's own, a kernel and a non-empty initramfs that the input checks take, a well-formed
  configuration hash, a readable key whenever a security version number is asked for, writable
  output paths and crates that do what they document; no later check of the builder can fail.\<close>

theorem snp_build_succeeds:
  assumes "snp_params ram vcpus cbit cmdline [] = Inr params"
    and "fs_files s kernel_path = Inr kf" "fs_files s initramfs_path = Inr ir" "ir \<noteq> []"
    and "prepare_inputs kf ir params = Inr p"
    and "vec_len_ok kf" "vec_len_ok ir" "length (utf8 (p_cmdline params)) < 0xffffffff"
    and "Q35_SPLIT \<le> ram \<Longrightarrow> length ir \<le> 0x60000000"
    and "config_field config_hash 32 = Inr field"
    and "guest_svn = 0 \<or> id_key \<noteq> None" "key_usable ex s id_key"
    and "blank_shim (ex_snp_shim ex)" "snp_crates_ok ex"
    and "fs_write_error s out = None" "fs_write_error s (manifest_path out) = None"
  shows "\<exists>s'. build_snp ex kernel_path initramfs_path out params config_hash id_key guest_svn s =
    (Inr (), s')"
  by (rule snp_build_ok [OF assms])

theorem snp_build_succeeds_witness:
  "\<exists>s'. build_snp demo_externs (lit ''k'') (lit ''i'') (lit ''o'') default_params None
     (Some (lit ''p'')) 7 snp_demo_fs = (Inr (), s')"
  using snp_build_succeeds [OF snp_default_params snp_demo_facts(1,2,3) demo_prepared demo_facts(3,4,5)
      _ snp_demo_facts(7) _ snp_demo_key snp_demo_facts(5) snp_demo_crates snp_demo_facts(4,4)]
    demo_facts(6)
  by blast

section \<open>What is published\<close>

text \<open>The run whose directives, measurement and manifest the file system ends up with.\<close>

definition snp_published ::
  "('f, 'k) externs \<Rightarrow> rstr \<Rightarrow> fs \<Rightarrow> fs \<Rightarrow> directive list \<Rightarrow> snp_manifest \<Rightarrow> bool" where
  "snp_published ex out s s' ds manifest \<longleftrightarrow>
     (\<exists>img json. snp_file ex ds = Inr img \<and> ex_json_snp ex manifest = Inr json \<and>
        s' = s\<lparr>fs_files := (fs_files s)(out := Inr img, manifest_path out := Inr (json @ [10]))\<rparr>)"

lemma snp_launch_entries:
  "snp_launch ex ld host_data svn sealed (lit ''measurement'') = Some (ex_hex ex ld)"
  "snp_launch ex ld host_data svn sealed (lit ''guest_svn'') = Some (show_radix 10 (unat svn))"
  "snp_launch ex ld host_data svn sealed (lit ''host_data'') = Some host_data"
  "snp_launch ex ld host_data svn sealed (lit ''id_key_digest'') =
     Some (case sealed of None \<Rightarrow> zeros 48 | Some d \<Rightarrow> ex_hex ex d)"
  by (simp_all add: snp_launch_def)

lemma directives_vmsas:
  assumes "headers = [] \<or> (\<exists>b. headers = [SnpIdBlock b])" "0 < unat (p_vcpus params)"
    "unat (p_vcpus params) < 65536"
  shows "concat (map context_vmsa (snp_directives ex params emap pgs headers)) =
      bsp_vmsa ex # replicate (unat (p_vcpus params) - 1) (ap_vmsa ex)"
proof -
  have "concat (map context_vmsa (required_memory emap)) = []"
    using required_memory_only by fastforce
  moreover have "concat (map context_vmsa (page_directives pgs)) = []"
    by (auto simp: page_directives_def page_directive_def)
  moreover have "concat (map context_vmsa headers) = []" using assms(1) by auto
  ultimately show ?thesis
    by (simp only: snp_directives_def map_append concat_append vp_contexts_eq(1) [OF assms(2,3)]
        append_Nil append_Nil2)
qed

lemma snp_directives_pages:
  assumes "headers = [] \<or> (\<exists>b. headers = [SnpIdBlock b])"
  shows "filter (\<lambda>d. page_gpa d \<noteq> []) (snp_directives ex params emap pgs headers) = page_directives pgs"
proof -
  have "filter (\<lambda>d. page_gpa d \<noteq> []) (required_memory emap) = []"
    using required_memory_only by (fastforce simp: filter_empty_conv)
  then show ?thesis
    using assms by (auto simp: snp_directives_def page_directives_def page_directive_def
        vp_contexts_def filter_empty_conv)
qed

lemma snp_directives_requires:
  assumes "headers = [] \<or> (\<exists>b. headers = [SnpIdBlock b])"
  shows "(\<exists>d\<in>set (snp_directives ex params emap pgs headers). requires d a) \<longleftrightarrow>
    (\<exists>d\<in>set (required_memory emap). requires d a)"
  using assms
  by (auto simp: snp_directives_def page_directives_def page_directive_def vp_contexts_def)

text \<open>C3: what an SNP build publishes: two files change, the image and its manifest; the manifest's
  expected measurement is the launch digest over exactly the pages the image's directives
  import, in their order, and one VMSA page per processor context of the image, in context
  order; the manifest states the host data the host must pass and the asked-for version.\<close>

theorem snp_build_publishes:
  assumes "build_snp ex kernel_path initramfs_path out params config_hash id_key guest_svn s = (Inr (), s')"
    and "snp_params ram vcpus cbit cmdline holes = Inr params"
  shows "\<exists>ds pgs vmsas ld field manifest.
    snp_published ex out s s' ds manifest \<and>
    filter (\<lambda>d. page_gpa d \<noteq> []) ds = page_directives pgs \<and>
    map (vmsa_page ex) (concat (map context_vmsa ds)) = map Some vmsas \<and>
    length vmsas = unat (p_vcpus params) \<and>
    launch_measurement (ex_sha384 ex) pgs vmsas = Some ld \<and>
    sm_expected_snp_measurement manifest = ex_hex ex ld \<and>
    sm_launch manifest (lit ''measurement'') = Some (ex_hex ex ld) \<and>
    config_field config_hash 32 = Inr field \<and> sm_launch manifest (lit ''host_data'') = Some field \<and>
    sm_launch manifest (lit ''guest_svn'') = Some (show_radix 10 (unat guest_svn))"
proof -
  note pf = snp_params_facts [OF assms(2)]
  obtain p placed emap headers ld img manifest json where
    r: "snp_run ex kernel_path initramfs_path params config_hash id_key guest_svn s p placed emap
      headers ld img manifest"
    and w: "ex_json_snp ex manifest = Inr json"
      "s' = s\<lparr>fs_files := (fs_files s)(out := Inr img, manifest_path out := Inr (json @ [10]))\<rparr>"
    using assms(1) unfolding build_snp_Inr_conv by blast
  let ?pgs = "snp_pages (sort_key pl_base placed)"
  let ?ds = "snp_directives ex params emap ?pgs headers"
  from r obtain field owned vmsa ap sealed where f: "config_field config_hash 32 = Inr field"
    and m: "snp_measured ex params (sort_key pl_base placed) = Inr (?pgs, vmsa, ap, ld)"
    and sg: "snp_sign ex id_key ld guest_svn s = (Inr (headers, sealed), s)"
    and sf: "snp_file ex ?ds = Inr img"
    and mf: "manifest = snp_manifest_of ex params p (sort_key pl_base placed) owned vmsa ap ld
      field guest_svn sealed"
    unfolding snp_run_def by blast
  note h = snp_sign_headers [OF sg]
  have "filter (\<lambda>d. page_gpa d \<noteq> []) ?ds = page_directives ?pgs"
    by (rule snp_directives_pages [OF h])
  moreover have "map (vmsa_page ex) (concat (map context_vmsa ?ds)) =
      map Some (vmsa # replicate (unat (p_vcpus params) - 1) ap)"
    unfolding directives_vmsas [OF h pf(1,3)] using snp_measured_Inr(1,2) [OF m] by simp
  moreover have "length (vmsa # replicate (unat (p_vcpus params) - 1) ap) = unat (p_vcpus params)"
    using pf(1) by simp
  moreover have "sm_launch manifest = snp_launch ex ld field guest_svn sealed"
    "sm_expected_snp_measurement manifest = ex_hex ex ld"
    by (simp_all add: mf snp_manifest_of_def Let_def)
  moreover have "snp_published ex out s s' ?ds manifest"
    unfolding snp_published_def using sf w by blast
  ultimately show ?thesis
    using snp_measured_Inr(3) [OF m] f snp_launch_entries(1-3)
    by (intro exI [of _ ?ds] exI [of _ ?pgs] exI [of _ "vmsa # replicate (unat (p_vcpus params) - 1) ap"]
        exI [of _ ld] exI [of _ field] exI [of _ manifest] conjI) simp_all
qed

theorem snp_build_publishes_witness:
  "\<exists>s' ds manifest. build_snp demo_externs (lit ''k'') (lit ''i'') (lit ''o'') default_params None None 0
     snp_demo_fs = (Inr (), s') \<and> snp_published demo_externs (lit ''o'') snp_demo_fs s' ds manifest \<and>
     sm_launch manifest (lit ''host_data'') = Some (zeros 32)"
proof -
  have "key_usable demo_externs snp_demo_fs None" by (simp add: key_usable_def)
  then obtain s' where b: "build_snp demo_externs (lit ''k'') (lit ''i'') (lit ''o'') default_params None
      None 0 snp_demo_fs = (Inr (), s')"
    using snp_demo_build by blast
  from snp_build_publishes [OF b snp_default_params] snp_demo_facts(7) b show ?thesis by fastforce
qed

text \<open>C12: an SNP build without a key puts no ID block in the image and claims version zero and no key
  digest; with one, the image carries exactly one ID block, which states the digest of this
  launch and the asked-for version, holds the public key of the key in that file and its
  signature over those very values, and the manifest names the digest of that public key.\<close>

theorem snp_signature_binds_the_build:
  assumes "build_snp ex kernel_path initramfs_path out params config_hash id_key guest_svn s = (Inr (), s')"
  shows "\<exists>ds ld manifest. snp_published ex out s s' ds manifest \<and>
    sm_expected_snp_measurement manifest = ex_hex ex ld \<and>
    (case id_key of
       None \<Rightarrow> filter is_id_block ds = [] \<and> guest_svn = 0 \<and>
         sm_launch manifest (lit ''id_key_digest'') = Some (zeros 48)
     | Some path \<Rightarrow> \<exists>bs pem key b digest.
         fs_files s path = Inr bs \<and> utf8_decode bs = Some pem \<and> ex_parse_key ex pem = Inr key \<and>
         filter is_id_block ds = [SnpIdBlock b] \<and> signed_block ex key ld guest_svn b digest \<and>
         sm_launch manifest (lit ''id_key_digest'') = Some (ex_hex ex digest))"
proof -
  obtain p placed emap headers ld img manifest json where
    r: "snp_run ex kernel_path initramfs_path params config_hash id_key guest_svn s p placed emap
      headers ld img manifest"
    and w: "ex_json_snp ex manifest = Inr json"
      "s' = s\<lparr>fs_files := (fs_files s)(out := Inr img, manifest_path out := Inr (json @ [10]))\<rparr>"
    using assms unfolding build_snp_Inr_conv by blast
  let ?ds = "snp_directives ex params emap (snp_pages (sort_key pl_base placed)) headers"
  from r obtain field owned vmsa ap sealed where k: "guest_svn = 0 \<or> id_key \<noteq> None"
    and sg: "snp_sign ex id_key ld guest_svn s = (Inr (headers, sealed), s)"
    and sf: "snp_file ex ?ds = Inr img"
    and mf: "manifest = snp_manifest_of ex params p (sort_key pl_base placed) owned vmsa ap ld
      field guest_svn sealed"
    unfolding snp_run_def by blast
  have pub: "snp_published ex out s s' ?ds manifest"
    unfolding snp_published_def using sf w by blast
  have sm: "sm_launch manifest = snp_launch ex ld field guest_svn sealed"
    "sm_expected_snp_measurement manifest = ex_hex ex ld"
    by (simp_all add: mf snp_manifest_of_def Let_def)
  note id = snp_directives_parts(3) [OF snp_sign_headers [OF sg]]
  show ?thesis
  proof (cases id_key)
    case None
    with sg have hd: "headers = []" "sealed = None" by (auto simp: snp_sign_Inr_conv)
    have "sm_launch manifest (lit ''id_key_digest'') = Some (zeros 48)"
      by (simp only: sm hd snp_launch_entries(4) option.case)
    moreover have "filter is_id_block ?ds = []" using id hd(1) by blast
    moreover have "guest_svn = 0" using k None by blast
    ultimately show ?thesis using pub sm(2) unfolding None option.case by blast
  next
    case (Some path)
    with sg obtain bs pem header digest where hd: "headers = [header]" "sealed = Some digest"
      and pem: "fs_files s path = Inr bs" "utf8_decode bs = Some pem"
      and ib: "id_block ex pem ld guest_svn = Inr (header, digest)"
      by (auto simp: snp_sign_Inr_conv)
    from ib obtain b key where "header = SnpIdBlock b" "ex_parse_key ex pem = Inr key"
      "signed_block ex key ld guest_svn b digest"
      by (rule id_block_Inr)
    moreover have "sm_launch manifest (lit ''id_key_digest'') = Some (ex_hex ex digest)"
      by (simp only: sm hd(2) snp_launch_entries(4) option.case)
    moreover have "filter is_id_block ?ds = [header]" using id hd(1) by blast
    ultimately show ?thesis using pub sm(2) pem unfolding Some option.case by blast
  qed
qed

theorem snp_signature_binds_the_build_witness:
  "\<exists>s' ds manifest b. build_snp demo_externs (lit ''k'') (lit ''i'') (lit ''o'') default_params None
     (Some (lit ''p'')) 7 snp_demo_fs = (Inr (), s') \<and>
     snp_published demo_externs (lit ''o'') snp_demo_fs s' ds manifest \<and>
     filter is_id_block ds = [SnpIdBlock b] \<and> ib_guest_svn b = 7"
proof -
  obtain s' where b: "build_snp demo_externs (lit ''k'') (lit ''i'') (lit ''o'') default_params None
      (Some (lit ''p'')) 7 snp_demo_fs = (Inr (), s')"
    using snp_demo_build [OF snp_demo_key] by blast
  from snp_signature_binds_the_build [OF b, unfolded option.case] obtain ds manifest ib key ld digest where
    "snp_published demo_externs (lit ''o'') snp_demo_fs s' ds manifest"
    "filter is_id_block ds = [SnpIdBlock ib]" "signed_block demo_externs key ld 7 ib digest"
    by blast
  with b show ?thesis unfolding signed_block_def by blast
qed

section \<open>Failure\<close>

lemma snp_interrupted:
  assumes k: "guest_svn = 0 \<or> id_key \<noteq> None"
    and "build_snp ex kernel_path initramfs_path out params config_hash id_key guest_svn s = (Inl e, s')"
  shows "s' = s \<or>
    (\<exists>pgs vmsa ap ld emap headers img manifest ps. snp_measured ex params ps = Inr (pgs, vmsa, ap, ld) \<and>
       snp_file ex (snp_directives ex params emap pgs headers) = Inr img \<and>
       sm_expected_snp_measurement manifest = ex_hex ex ld \<and>
       interrupted ''write SNP IGVM'' out img (ex_json_snp ex manifest) s e s')"
proof (rule ccontr)
  assume no: "\<not> ?thesis"
  then have ne: "s' \<noteq> s" by blast
  from assms(2) obtain host_data p placed emap owned pgs vmsa ap ld headers sealed img where
    f: "snp_measured ex params (sort_key pl_base placed) = Inr (pgs, vmsa, ap, ld)"
    "snp_file ex (snp_directives ex params emap pgs headers) = Inr img"
    and m: "interrupted ''write SNP IGVM'' out img (ex_json_snp ex (snp_manifest_of ex params p
       (sort_key pl_base placed) owned vmsa ap ld host_data guest_svn sealed)) s e s'"
    unfolding build_snp_steps [OF k] io_bind_Inl_conv split_paired_Ex prod.case io_lift_Inr_conv
    using ne by (auto dest!: prepare_pure snp_sign_pure) (blast intro: interruptedI)+
  moreover have "sm_expected_snp_measurement (snp_manifest_of ex params p (sort_key pl_base placed)
      owned vmsa ap ld host_data guest_svn sealed) = ex_hex ex ld"
    by (simp add: snp_manifest_of_def Let_def)
  ultimately show False using no by blast
qed

text \<open>C32: an SNP build that fails leaves the file system as it was until its image is made. After
  that a failure is one of three: the image could not be written (its file is untouched, or,
  when the system fails after opening it, cut to a beginning of the image), or the complete
  image is there and the manifest did not serialize or could not be written (its file
  untouched, or cut to a beginning of the manifest naming the digest of that image). A version
  without a key is always a failure, before anything is read.\<close>

theorem snp_build_failure:
  assumes "build_snp ex kernel_path initramfs_path out params config_hash id_key guest_svn s = (Inl e, s')"
  shows "(s' = s \<or>
    (\<exists>pgs vmsa ap ld emap headers img manifest ps. snp_measured ex params ps = Inr (pgs, vmsa, ap, ld) \<and>
       snp_file ex (snp_directives ex params emap pgs headers) = Inr img \<and>
       sm_expected_snp_measurement manifest = ex_hex ex ld \<and>
       interrupted ''write SNP IGVM'' out img (ex_json_snp ex manifest) s e s')) \<and>
    (guest_svn \<noteq> 0 \<and> id_key = None \<longrightarrow> e = Snp SvnNeedsKey \<and> s' = s)"
proof (cases "guest_svn = 0 \<or> id_key \<noteq> None")
  case False
  then have n: "guest_svn \<noteq> 0" "id_key = None" by auto
  have "(Inl e, s') = (Inl (Snp SvnNeedsKey), s)"
    using assms unfolding n(2) build_snp_unsigned [OF n(1)] by simp
  then show ?thesis by simp
next
  case k: True
  show ?thesis using snp_interrupted [OF k assms] k by blast
qed

theorem snp_build_failure_witness:
  "build_snp demo_externs (lit ''k'') (lit ''i'') (lit ''o'') default_params None None 7 snp_demo_fs =
     (Inl (Snp SvnNeedsKey), snp_demo_fs)"
proof -
  let ?r = "build_snp demo_externs (lit ''k'') (lit ''i'') (lit ''o'') default_params None None 7 snp_demo_fs"
  obtain e s' where r: "?r = (Inl e, s')" by (simp add: build_snp_unsigned)
  from snp_build_failure [OF r] r show ?thesis by simp
qed

end
