(* ===== verification/Snp_Shim.thy ===== *)
theory Snp_Shim
  imports Tdx_Shim Snp_Properties
begin

text \<open>
  The boot processor's part of the SNP shim (src/src/snp_reset.S from \<open>snp_long_mode\<close>): it
  validates and zeroes the ranges of its data block, wakes the other processors through the
  GHCB, and enters the kernel. What the processor and the host answer is the parameter
  \<open>snp_host\<close>; an answer may depend on everything that happened before. The events are the log
  the shim leaves, so nothing is assumed of either.
\<close>

section \<open>What the shim asks and what is answered\<close>

text \<open>
  PVALIDATE with its address, 2 MiB flag, validate-or-rescind flag, status and carry; a
  \<open>rep stosq\<close> of zero with its address and quadwords; a GHCB MSR request and its response; the
  shared page at a VMGEXIT and after it; a GHCB MSR termination request.
\<close>

datatype snp_event =
  Pvalidate u64 bool bool u32 bool
| StoreZero u64 nat
| MsrProtocol u64 u64
| GhcbExit bytes bytes
| Terminate u32

type_synonym snp_log = "snp_event list"

record snp_host =
  h_pvalidate :: "snp_log \<Rightarrow> u64 \<Rightarrow> bool \<Rightarrow> bool \<Rightarrow> u32 \<times> bool"
  h_msr :: "snp_log \<Rightarrow> u64 \<Rightarrow> u64"
  h_ghcb :: "snp_log \<Rightarrow> bytes \<Rightarrow> bytes"

definition pvalidate :: "snp_host \<Rightarrow> u64 \<Rightarrow> bool \<Rightarrow> bool \<Rightarrow> snp_log \<Rightarrow> u32 \<times> bool \<times> snp_log" where
  "pvalidate host gpa large set_valid log =
     (case h_pvalidate host log gpa large set_valid of
        (eax, cf) \<Rightarrow> (eax, cf, log @ [Pvalidate gpa large set_valid eax cf]))"

section \<open>\<open>validate_range\<close>\<close>

definition FAIL_SIZEMISMATCH :: u32 where
  "FAIL_SIZEMISMATCH = 6"

text \<open>\<open>die\<close>: the termination code tells the page (\<open>%r12\<close>), the status (\<open>%r15\<close>) and the carry (\<open>%bl\<close>).\<close>

definition die_code :: "u64 \<Rightarrow> u32 \<Rightarrow> bool \<Rightarrow> u32" where
  "die_code r12 r15d bl =
     (let eax = push_bit 16 (ucast (drop_bit 21 r12) AND 0xff);
          ebx = (push_bit 3 (of_bool bl) OR (r15d AND 7)) AND 0xf
      in eax OR push_bit 12 ebx OR 0x100)"

definition die :: "u64 \<Rightarrow> u32 \<Rightarrow> bool \<Rightarrow> snp_log \<Rightarrow> snp_log step" where
  "die r12 r15d bl log = Die (log @ [Terminate (die_code r12 r15d bl)])"

definition validate_4k :: "snp_host \<Rightarrow> u64 \<Rightarrow> snp_log \<Rightarrow> snp_log step" where
  "validate_4k host r12 log =
     (case pvalidate host r12 False True log of (eax, cf, log) \<Rightarrow>
        if eax \<noteq> 0 then die r12 eax cf log
        else if cf then die r12 eax cf log
        else Advance (r12 + PAGE) (log @ [StoreZero r12 512]))"

definition validate_step :: "snp_host \<Rightarrow> u64 \<Rightarrow> u64 \<Rightarrow> snp_log \<Rightarrow> snp_log step" where
  "validate_step host r12 r13 log =
     (if r12 AND 0x1fffff \<noteq> 0 then validate_4k host r12 log
      else if r12 + 0x200000 > r13 then validate_4k host r12 log
      else case pvalidate host r12 True True log of (eax, cf, log) \<Rightarrow>
        if eax \<noteq> 0
        then if eax \<noteq> FAIL_SIZEMISMATCH then die r12 eax cf log else validate_4k host r12 log
        else if cf then die r12 eax cf log
        else Advance (r12 + 0x200000) (log @ [StoreZero r12 0x40000]))"

definition validate_range :: "snp_host \<Rightarrow> u64 \<Rightarrow> u64 \<Rightarrow> snp_log \<Rightarrow> (snp_log + snp_log) option" where
  "validate_range host = walk_range (validate_step host)"

section \<open>\<open>wake_aps\<close>\<close>

text \<open>A step of the wake: it goes on, or \<open>die_wake\<close> terminates with the step's number.\<close>

definition die_wake :: "u32 \<Rightarrow> snp_log \<Rightarrow> snp_log + 'a" where
  "die_wake r15d log = Inl (log @ [Terminate (push_bit 16 r15d OR 0xf100)])"

definition wake_pvalidate :: "snp_host \<Rightarrow> u32 \<Rightarrow> bool \<Rightarrow> snp_log \<Rightarrow> snp_log + snp_log" where
  "wake_pvalidate host r15d set_valid log =
     (case pvalidate host SNP_GHCB False set_valid log of (eax, cf, log) \<Rightarrow>
        if eax \<noteq> 0 then die_wake r15d log else Inr log)"

definition ghcb_msr :: "snp_host \<Rightarrow> u64 \<Rightarrow> snp_log \<Rightarrow> u64 \<times> snp_log" where
  "ghcb_msr host rax log = (h_msr host log rax, log @ [MsrProtocol rax (h_msr host log rax)])"

text \<open>A page state change: the response code is 0x15 and its high half, the error, is zero.\<close>

definition page_state_change :: "snp_host \<Rightarrow> u32 \<Rightarrow> u64 \<Rightarrow> snp_log \<Rightarrow> snp_log + snp_log" where
  "page_state_change host r15d operation log =
     (case ghcb_msr host (SNP_GHCB OR push_bit 52 operation OR 0x14) log of (rax, log) \<Rightarrow>
        if drop_bit 32 rax \<noteq> 0 then die_wake r15d log
        else if (ucast rax :: u32) AND 0xfff \<noteq> 0x15 then die_wake r15d log
        else Inr log)"

definition register_ghcb :: "snp_host \<Rightarrow> u32 \<Rightarrow> snp_log \<Rightarrow> snp_log + snp_log" where
  "register_ghcb host r15d log =
     (case ghcb_msr host (SNP_GHCB OR 0x12) log of (rax, log) \<Rightarrow>
        if rax \<noteq> SNP_GHCB OR 0x13 then die_wake r15d log else Inr log)"

text \<open>The stores of \<open>send_ipi\<close> to the shared page: an MMIO write of \<open>%esi\<close> to the local APIC's ICR.\<close>

definition ghcb_request :: "u32 \<Rightarrow> bytes \<Rightarrow> bytes option" where
  "ghcb_request esi ghcb = do {
     g \<leftarrow> put32 0x800 esi ghcb;
     g \<leftarrow> put64 0x390 0x80000002 g;
     g \<leftarrow> put64 0x398 0xfee00300 g;
     g \<leftarrow> put64 0x3a0 4 g;
     g \<leftarrow> put64 0x3a8 (SNP_GHCB + 0x800) g;
     g \<leftarrow> put64 0x3f0 0 g;
     g \<leftarrow> put64 0x3f8 0 g;
     g \<leftarrow> put8 0x3fe 0x3c g;
     g \<leftarrow> poke 0xffa (le16 2) g;
     put32 0xffc 0 g
   }"

text \<open>The exchange and the check of exit information 1; a page stays a page whatever the host stores.\<close>

definition as_page :: "bytes \<Rightarrow> bytes" where
  "as_page bs = take 4096 (bs @ replicate 4096 0)"

definition send_ipi ::
  "snp_host \<Rightarrow> u32 \<Rightarrow> u32 \<Rightarrow> bytes \<times> snp_log \<Rightarrow> snp_log + bytes \<times> snp_log" where
  "send_ipi host r15d esi s = (case s of (ghcb, log) \<Rightarrow>
     (case ghcb_request esi ghcb of
        None \<Rightarrow> Inl log
      | Some request \<Rightarrow>
          let reply = as_page (h_ghcb host log request); log = log @ [GhcbExit request reply] in
          case get32 0x398 reply of
            None \<Rightarrow> Inl log
          | Some eax \<Rightarrow> if eax \<noteq> 0 then die_wake r15d log else Inr (reply, log)))"

definition INIT_ALL :: u32 where "INIT_ALL = 0xc4500"
definition SIPI_ALL :: u32 where "SIPI_ALL = 0xc4600"

text \<open>The second half of the wake, from the registered GHCB on.\<close>

definition wake_tail :: "snp_host \<Rightarrow> snp_log \<Rightarrow> snp_log + snp_log" where
  "wake_tail host log =
     (let ghcb = replicate 4096 0; log = log @ [StoreZero (SHARED_ALIAS + SNP_GHCB) 512] in
      bind_result (send_ipi host 4 INIT_ALL (ghcb, log)) (\<lambda>s.
      bind_result (send_ipi host 5 SIPI_ALL s) (\<lambda>s.
      bind_result (send_ipi host 6 SIPI_ALL s) (\<lambda>(ghcb, log).
      bind_result (page_state_change host 7 1 log) (\<lambda>log.
      wake_pvalidate host 8 True log)))))"

definition wake_aps :: "snp_host \<Rightarrow> snp_log \<Rightarrow> snp_log + snp_log" where
  "wake_aps host log =
     bind_result (wake_pvalidate host 1 False log) (\<lambda>log.
     bind_result (page_state_change host 2 2 log) (\<lambda>log.
     bind_result (register_ghcb host 3 log) (wake_tail host)))"

section \<open>The boot processor\<close>

definition validate_next :: "snp_host \<Rightarrow> bytes \<Rightarrow> snp_log serve_end option" where
  "validate_next host page = serve_ranges (validate_step host) page (unat SHIM_DATA + 8) []"

definition snp_boot :: "snp_host \<Rightarrow> bytes \<Rightarrow> snp_log boot_end option" where
  "snp_boot host page =
     Option.bind (validate_next host page) (\<lambda>r. Some (case r of
         Served log \<Rightarrow> (case wake_aps host log of
             Inl log \<Rightarrow> Fatal log
           | Inr log \<Rightarrow> (case shim_entry page of
                 None \<Rightarrow> Crashed
               | Some rip \<Rightarrow> Entered rip ZERO_PAGE log))
       | Died log \<Rightarrow> Fatal log
       | PastPage log \<Rightarrow> Crashed))"

section \<open>The pages that become private\<close>

fun validates :: "snp_event \<Rightarrow> u64 \<Rightarrow> bool" where
  "validates (Pvalidate gpa large set_valid eax cf) a \<longleftrightarrow>
     set_valid \<and> eax = 0 \<and> \<not> cf \<and> gpa \<le> a \<and> a < gpa + (if large then 0x200000 else PAGE)"
| "validates _ a \<longleftrightarrow> False"

fun zeroes :: "snp_event \<Rightarrow> u64 \<Rightarrow> bool" where
  "zeroes (StoreZero base quads) a \<longleftrightarrow> base \<le> a \<and> a < base + of_nat (8 * quads)"
| "zeroes _ a \<longleftrightarrow> False"

definition validated_times :: "snp_log \<Rightarrow> u64 \<Rightarrow> nat" where
  "validated_times log a = length (filter (\<lambda>e. validates e a) log)"

definition zeroed_times :: "snp_log \<Rightarrow> u64 \<Rightarrow> nat" where
  "zeroed_times log a = length (filter (\<lambda>e. zeroes e a) log)"

lemma validated_times_simps:
  "validated_times [] a = 0"
  "validated_times (e # es) a = (if validates e a then 1 else 0) + validated_times es a"
  "validated_times (es @ fs) a = validated_times es a + validated_times fs a"
  by (simp_all add: validated_times_def)

lemma zeroed_times_simps:
  "zeroed_times [] a = 0"
  "zeroed_times (e # es) a = (if zeroes e a then 1 else 0) + zeroed_times es a"
  "zeroed_times (es @ fs) a = zeroed_times es a + zeroed_times fs a"
  by (simp_all add: zeroed_times_def)

lemmas times_simps = validated_times_simps zeroed_times_simps

lemma validate_4k_cases:
  assumes "mapped_range lo hi"
  shows "validate_4k host lo log = Advance lo' log' \<Longrightarrow> lo' = lo + PAGE \<and>
      validated_times log' a = validated_times log a + covered_times lo (lo + PAGE) a \<and>
      zeroed_times log' a = zeroed_times log a + covered_times lo (lo + PAGE) a"
    and "validate_4k host lo log = Die log' \<Longrightarrow>
      validated_times log' a = validated_times log a \<and> zeroed_times log' a = zeroed_times log a"
  by (auto simp: validate_4k_def die_def pvalidate_def times_simps covered_times_def PAGE_def
      split: prod.splits if_splits)

lemma validate_step_cases:
  assumes "mapped_range lo hi" "lo < hi"
  shows "validate_step host lo hi log = Advance lo' log' \<Longrightarrow> lo < lo' \<and> mapped_range lo' hi \<and>
      validated_times log' a = validated_times log a + covered_times lo lo' a \<and>
      zeroed_times log' a = zeroed_times log a + covered_times lo lo' a"
    and "validate_step host lo hi log = Die log' \<Longrightarrow>
      validated_times log' a = validated_times log a \<and> zeroed_times log' a = zeroed_times log a"
proof -
  note k = validate_4k_cases [OF assms(1)] and p = next_page [OF assms] and m = next_2m [OF assms(1)]
  show "validate_step host lo hi log = Advance lo' log' \<Longrightarrow> lo < lo' \<and> mapped_range lo' hi \<and>
      validated_times log' a = validated_times log a + covered_times lo lo' a \<and>
      zeroed_times log' a = zeroed_times log a + covered_times lo lo' a"
    using k(1) p m
    by (auto simp: validate_step_def die_def pvalidate_def times_simps covered_times_def
        split: prod.splits if_splits)
  show "validate_step host lo hi log = Die log' \<Longrightarrow>
      validated_times log' a = validated_times log a \<and> zeroed_times log' a = zeroed_times log a"
    using k(2)
    by (auto simp: validate_step_def die_def pvalidate_def times_simps split: prod.splits if_splits)
qed

text \<open>
  The state the processor keeps of a page: private to the guest, and validated. A PVALIDATE that
  reports success leaves the page private and validated or rescinded, as it asked. A page state
  change the host acknowledges (request 0x14, operation 1 private, 2 shared in bits 52 to 55;
  response 0x15 with no error) leaves it not validated.
\<close>

record page_state =
  ps_private :: bool
  ps_valid :: bool

fun page_event :: "u64 \<Rightarrow> snp_event \<Rightarrow> page_state \<Rightarrow> page_state" where
  "page_event a (Pvalidate gpa large set_valid eax cf) st =
     (if eax = 0 \<and> gpa \<le> a \<and> a < gpa + (if large then 0x200000 else PAGE)
      then \<lparr>ps_private = True, ps_valid = set_valid\<rparr> else st)"
| "page_event a (MsrProtocol request response) st =
     (if request AND 0xfff = 0x14 \<and> request AND 0xffffffffff000 = a \<and>
         (ucast response :: u32) AND 0xfff = 0x15 \<and> drop_bit 32 response = 0
      then \<lparr>ps_private = (drop_bit 52 request AND 0xf = 1), ps_valid = False\<rparr> else st)"
| "page_event a (StoreZero base quads) st = st"
| "page_event a (GhcbExit request reply) st = st"
| "page_event a (Terminate code) st = st"

text \<open>The state of a page after the shim: one the image imports starts private and validated.\<close>

definition page_after :: "snp_log \<Rightarrow> bool \<Rightarrow> u64 \<Rightarrow> page_state" where
  "page_after log imported a = fold (page_event a) log \<lparr>ps_private = imported, ps_valid = imported\<rparr>"

text \<open>An event that asks to take a page away from the guest, acknowledged or not.\<close>

fun gives_up :: "snp_event \<Rightarrow> u64 \<Rightarrow> bool" where
  "gives_up (Pvalidate gpa large set_valid eax cf) a \<longleftrightarrow>
     \<not> set_valid \<and> gpa \<le> a \<and> a < gpa + (if large then 0x200000 else PAGE)"
| "gives_up (MsrProtocol request response) a \<longleftrightarrow>
     request AND 0xfff = 0x14 \<and> request AND 0xffffffffff000 = a"
| "gives_up _ a \<longleftrightarrow> False"

text \<open>The events of the walk over the ranges: nothing but validations, none of a page already valid.\<close>

fun validating :: "snp_event \<Rightarrow> bool" where
  "validating (Pvalidate gpa large set_valid eax cf) \<longleftrightarrow> set_valid \<and> (eax = 0 \<longrightarrow> \<not> cf)"
| "validating (StoreZero base quads) \<longleftrightarrow> True"
| "validating _ \<longleftrightarrow> False"

lemma validate_step_validating: "step_keeps (validate_step host) (list_all validating)"
  by (auto simp: step_keeps_def validate_step_def validate_4k_def pvalidate_def die_def
      split: prod.splits if_splits)

lemma page_event_validating:
  "validating e \<Longrightarrow> page_event a e st =
     (if validates e a then \<lparr>ps_private = True, ps_valid = True\<rparr> else st)"
  by (cases e) auto

lemma page_after_validating:
  assumes "list_all validating log"
  shows "fold (page_event a) log st =
    (if validated_times log a = 0 then st else \<lparr>ps_private = True, ps_valid = True\<rparr>)"
  using assms by (induction log arbitrary: st) (simp_all add: times_simps page_event_validating)

interpretation snp_walk: range_walk "validate_step host" validated_times for host
  by unfold_locales (use validate_step_cases in \<open>blast+\<close>)

interpretation snp_zero: range_walk "validate_step host" zeroed_times for host
  by unfold_locales (use validate_step_cases in \<open>blast+\<close>)

text \<open>A processor that refused: the status or the carry of the last PVALIDATE; then the termination.\<close>

definition validation_refused :: "snp_log \<Rightarrow> bool" where
  "validation_refused log \<longleftrightarrow>
     (\<exists>es gpa large eax cf code.
        log = es @ [Pvalidate gpa large True eax cf, Terminate code] \<and> (eax \<noteq> 0 \<or> cf))"

interpretation snp_refusal: refusing_walk "validate_step host" validated_times validation_refused for host
  by unfold_locales
    (auto simp: validate_step_def validate_4k_def pvalidate_def die_def validation_refused_def
      split: prod.splits if_splits)

section \<open>The request page\<close>

lemma le64_zero: "le64 0 = replicate 8 0"
  by (simp add: le_bytes_def numeral_eq_Suc)

lemma valid_bitmap:
  assumes "length v = 4096"
  shows "peek 0x3f0 16 (blit 0x3fe [0x3c] (blit 0x3f8 (le64 0) (blit 0x3f0 (le64 0) v))) =
    Some (replicate 14 0 @ [0x3c, 0])"
  using assms by (simp add: peek_def blit_def le64_zero min_def) (simp add: numeral_eq_Suc)

lemma ghcb_request_page:
  assumes "length ghcb = 4096"
  shows "\<exists>g. ghcb_request esi ghcb = Some g \<and> length g = 4096 \<and> get32 0x800 g = Some esi \<and>
    get64 0x390 g = Some 0x80000002 \<and> get64 0x398 g = Some 0xfee00300 \<and> get64 0x3a0 g = Some 4 \<and>
    get64 0x3a8 g = Some (SNP_GHCB + 0x800) \<and> peek 0x3f0 16 g = Some (replicate 14 0 @ [0x3c, 0]) \<and>
    get16 0xffa g = Some 2 \<and> get32 0xffc g = Some 0"
  using assms by (simp add: ghcb_request_def peek_blit_other valid_bitmap)

section \<open>The wake\<close>

lemma length_as_page [simp]: "length (as_page bs) = 4096"
  by (simp add: as_page_def)

definition wake_death :: "u32 \<Rightarrow> snp_log \<Rightarrow> snp_log \<Rightarrow> bool" where
  "wake_death r15d log log' \<longleftrightarrow> (\<exists>es. log' = log @ es @ [Terminate (push_bit 16 r15d OR 0xf100)])"

lemma wake_death_later: "wake_death n (log @ es) log' \<Longrightarrow> wake_death n log log'"
  unfolding wake_death_def by (metis append.assoc)

lemma wake_pvalidate_cases:
  "wake_pvalidate host n v log = Inr log' \<Longrightarrow> \<exists>cf. log' = log @ [Pvalidate SNP_GHCB False v 0 cf]"
  "wake_pvalidate host n v log = Inl log' \<Longrightarrow> wake_death n log log'"
  by (auto simp: wake_pvalidate_def pvalidate_def die_wake_def wake_death_def
      split: prod.splits if_splits)

lemma page_state_change_cases:
  "page_state_change host n op log = Inr log' \<Longrightarrow>
     \<exists>rax. log' = log @ [MsrProtocol (SNP_GHCB OR push_bit 52 op OR 0x14) rax] \<and>
       drop_bit 32 rax = 0 \<and> (ucast rax :: u32) AND 0xfff = 0x15"
  "page_state_change host n op log = Inl log' \<Longrightarrow> wake_death n log log'"
  by (auto simp: page_state_change_def ghcb_msr_def die_wake_def wake_death_def
      split: prod.splits if_splits)

lemma register_ghcb_cases:
  "register_ghcb host n log = Inr log' \<Longrightarrow>
     log' = log @ [MsrProtocol (SNP_GHCB OR 0x12) (SNP_GHCB OR 0x13)]"
  "register_ghcb host n log = Inl log' \<Longrightarrow> wake_death n log log'"
  by (auto simp: register_ghcb_def ghcb_msr_def die_wake_def wake_death_def split: if_splits)

lemma send_ipi_cases:
  assumes "length ghcb = 4096"
  shows "send_ipi host n esi (ghcb, log) = Inr (ghcb', log') \<Longrightarrow>
      length ghcb' = 4096 \<and> get32 0x398 ghcb' = Some 0 \<and>
      (\<exists>q. ghcb_request esi ghcb = Some q \<and> log' = log @ [GhcbExit q ghcb'])"
    and "send_ipi host n esi (ghcb, log) = Inl log' \<Longrightarrow> wake_death n log log'"
proof -
  obtain q where q: "ghcb_request esi ghcb = Some q"
    using ghcb_request_page [OF assms] by blast
  obtain eax where e: "get32 0x398 (as_page (h_ghcb host log q)) = Some eax"
    by (simp add: get_in_bounds)
  show "send_ipi host n esi (ghcb, log) = Inr (ghcb', log') \<Longrightarrow>
      length ghcb' = 4096 \<and> get32 0x398 ghcb' = Some 0 \<and>
      (\<exists>q. ghcb_request esi ghcb = Some q \<and> log' = log @ [GhcbExit q ghcb'])"
    using q e by (auto simp: send_ipi_def die_wake_def Let_def split: if_splits)
  show "send_ipi host n esi (ghcb, log) = Inl log' \<Longrightarrow> wake_death n log log'"
    using q e by (auto simp: send_ipi_def die_wake_def wake_death_def Let_def split: if_splits)
qed

text \<open>The events of a wake that went through.\<close>

definition wake_script :: "snp_log \<Rightarrow> bool" where
  "wake_script es \<longleftrightarrow> (\<exists>cf shared g q1 p1 q2 p2 q3 p3 private cf'.
     es = [Pvalidate SNP_GHCB False False 0 cf,
           MsrProtocol (SNP_GHCB OR push_bit 52 2 OR 0x14) shared,
           MsrProtocol (SNP_GHCB OR 0x12) (SNP_GHCB OR 0x13),
           StoreZero (SHARED_ALIAS + SNP_GHCB) 512,
           GhcbExit q1 p1, GhcbExit q2 p2, GhcbExit q3 p3,
           MsrProtocol (SNP_GHCB OR push_bit 52 1 OR 0x14) private,
           Pvalidate SNP_GHCB False True 0 cf'] \<and>
     drop_bit 32 shared = 0 \<and> (ucast shared :: u32) AND 0xfff = 0x15 \<and>
     drop_bit 32 private = 0 \<and> (ucast private :: u32) AND 0xfff = 0x15 \<and> g = replicate 4096 0 \<and>
     ghcb_request INIT_ALL g = Some q1 \<and> get32 0x398 p1 = Some 0 \<and>
     ghcb_request SIPI_ALL p1 = Some q2 \<and> get32 0x398 p2 = Some 0 \<and>
     ghcb_request SIPI_ALL p2 = Some q3 \<and> get32 0x398 p3 = Some 0)"

lemma wake_aps_succeeds:
  assumes "wake_aps host log = Inr log'"
  shows "\<exists>es. log' = log @ es \<and> wake_script es"
proof -
  let ?g = "replicate 4096 (0 :: u8)"
  obtain l1 l2 l3 g1 m1 g2 m2 g3 m3 l4 where
    s: "wake_pvalidate host 1 False log = Inr l1" "page_state_change host 2 2 l1 = Inr l2"
    "register_ghcb host 3 l2 = Inr l3"
    "send_ipi host 4 INIT_ALL (?g, l3 @ [StoreZero (SHARED_ALIAS + SNP_GHCB) 512]) = Inr (g1, m1)"
    "send_ipi host 5 SIPI_ALL (g1, m1) = Inr (g2, m2)" "send_ipi host 6 SIPI_ALL (g2, m2) = Inr (g3, m3)"
    "page_state_change host 7 1 m3 = Inr l4" "wake_pvalidate host 8 True l4 = Inr log'"
    using assms unfolding wake_aps_def wake_tail_def Let_def bind_result_Inr_conv split_paired_Ex prod.case by blast
  have "length ?g = 4096" by simp
  note i1 = send_ipi_cases(1) [OF this s(4)]
  then have "length g1 = 4096" by blast
  note i2 = send_ipi_cases(1) [OF this s(5)]
  then have "length g2 = 4096" by blast
  note i3 = send_ipi_cases(1) [OF this s(6)]
  note w = wake_pvalidate_cases(1) [OF s(1)] page_state_change_cases(1) [OF s(2)]
    register_ghcb_cases(1) [OF s(3)] page_state_change_cases(1) [OF s(7)] wake_pvalidate_cases(1) [OF s(8)]
  from w i1 i2 i3 show ?thesis unfolding wake_script_def by fastforce
qed

lemma wake_tail_fails:
  assumes "wake_tail host log = Inl log'"
  shows "\<exists>n. 1 \<le> n \<and> n \<le> 8 \<and> wake_death n log log'"
proof -
  let ?g = "replicate 4096 (0 :: u8)" and ?l = "log @ [StoreZero (SHARED_ALIAS + SNP_GHCB) 512]"
  have g: "length ?g = 4096" by simp
  have "\<exists>n. 1 \<le> n \<and> n \<le> 8 \<and> wake_death n ?l log'"
  proof (cases "send_ipi host 4 INIT_ALL (?g, ?l)")
    case (Inl e)
    then have "send_ipi host 4 INIT_ALL (?g, ?l) = Inl log'"
      using assms by (simp add: wake_tail_def Let_def)
    from send_ipi_cases(2) [OF g this] show ?thesis by (intro exI [of _ 4]) simp
  next
    case (Inr s1)
    obtain g1 m1 where s1: "s1 = (g1, m1)" by (cases s1)
    note i1 = send_ipi_cases(1) [OF g Inr [unfolded s1]]
    then have g1: "length g1 = 4096" by blast
    show ?thesis
    proof (cases "send_ipi host 5 SIPI_ALL (g1, m1)")
      case (Inl e)
      then have "send_ipi host 5 SIPI_ALL (g1, m1) = Inl log'"
        using assms Inr s1 by (simp add: wake_tail_def Let_def)
      from send_ipi_cases(2) [OF g1 this] i1 show ?thesis
        using wake_death_later by (intro exI [of _ 5]) auto
    next
      case i5: (Inr s2)
      obtain g2 m2 where s2: "s2 = (g2, m2)" by (cases s2)
      note i2 = send_ipi_cases(1) [OF g1 i5 [unfolded s2]]
      then have g2: "length g2 = 4096" by blast
      show ?thesis
      proof (cases "send_ipi host 6 SIPI_ALL (g2, m2)")
        case (Inl e)
        then have "send_ipi host 6 SIPI_ALL (g2, m2) = Inl log'"
          using assms Inr s1 i5 s2 by (simp add: wake_tail_def Let_def)
        from send_ipi_cases(2) [OF g2 this] i1 i2 show ?thesis
          using wake_death_later by (intro exI [of _ 6]) auto
      next
        case i6: (Inr s3)
        obtain g3 m3 where s3: "s3 = (g3, m3)" by (cases s3)
        note i3 = send_ipi_cases(1) [OF g2 i6 [unfolded s3]]
        have rest: "bind_result (page_state_change host 7 1 m3) (wake_pvalidate host 8 True) = Inl log'"
          using assms Inr s1 i5 s2 i6 s3 by (simp add: wake_tail_def Let_def)
        obtain es where m3: "m3 = ?l @ es" using i1 i2 i3 by auto
        have "wake_death 7 m3 log' \<or> wake_death 8 m3 log'"
          using rest page_state_change_cases wake_pvalidate_cases(2) wake_death_later
          unfolding bind_result_Inl_conv by blast
        then have "wake_death 7 ?l log' \<or> wake_death 8 ?l log'"
          unfolding m3 using wake_death_later by blast
        then show ?thesis by (elim disjE; intro exI conjI; (assumption | simp))
      qed
    qed
  qed
  then show ?thesis using wake_death_later by blast
qed

lemma wake_aps_fails:
  assumes "wake_aps host log = Inl log'"
  shows "\<exists>n. 1 \<le> n \<and> n \<le> 8 \<and> wake_death n log log'"
proof -
  note ok = wake_pvalidate_cases(1) page_state_change_cases(1) register_ghcb_cases(1)
  note bad = wake_pvalidate_cases(2) page_state_change_cases(2) register_ghcb_cases(2)
  consider "wake_pvalidate host 1 False log = Inl log'"
    | l1 where "wake_pvalidate host 1 False log = Inr l1" "page_state_change host 2 2 l1 = Inl log'"
    | l1 l2 where "wake_pvalidate host 1 False log = Inr l1" "page_state_change host 2 2 l1 = Inr l2"
        "register_ghcb host 3 l2 = Inl log'"
    | l1 l2 l3 where "wake_pvalidate host 1 False log = Inr l1" "page_state_change host 2 2 l1 = Inr l2"
        "register_ghcb host 3 l2 = Inr l3" "wake_tail host l3 = Inl log'"
    using assms unfolding wake_aps_def bind_result_Inl_conv by blast
  then show ?thesis
  proof cases
    case 1
    then show ?thesis using bad(1) by (intro exI [of _ 1]) auto
  next
    case 2
    then show ?thesis
      using ok(1) bad(2) wake_death_later by (intro exI [of _ 2]) fastforce
  next
    case 3
    then show ?thesis
      using ok(1,2) bad(3) wake_death_later by (intro exI [of _ 3]) fastforce
  next
    case 4
    from ok(1) [OF 4(1)] ok(2) [OF 4(2)] ok(3) [OF 4(3)] obtain es where "l3 = log @ es" by auto
    with wake_tail_fails [OF 4(4)] show ?thesis using wake_death_later by blast
  qed
qed

section \<open>The shim on the page the builder packed\<close>

text \<open>Why the shim gave up: a refused validation, or a numbered step of the wake.\<close>

definition fatal_reason :: "snp_log \<Rightarrow> bool" where
  "fatal_reason log \<longleftrightarrow> validation_refused log \<or>
     (\<exists>n es. 1 \<le> n \<and> n \<le> 8 \<and> log = es @ [Terminate (push_bit 16 n OR 0xf100)])"

lemma snp_boot_cases:
  assumes "shim_ranges page 0xc08 = Some rs" "\<forall>(lo, hi)\<in>set rs. mapped_range lo hi"
    "ascending rs" "shim_entry page = Some rip"
  shows "(\<exists>log. snp_boot host page = Some (Fatal log) \<and> fatal_reason log) \<or>
    (\<exists>log wake. snp_boot host page = Some (Entered rip ZERO_PAGE (log @ wake)) \<and> wake_script wake \<and>
      list_all validating log \<and>
      (\<forall>a. validated_times log a = (if accepted rs a then 1 else 0) \<and>
         zeroed_times log a = (if accepted rs a then 1 else 0)))"
proof -
  have "unat SHIM_DATA + 8 = 0xc08" by (simp add: layout_consts)
  then have n: "validate_next host page = serve_ranges (validate_step host) page 0xc08 []"
    by (simp only: validate_next_def)
  obtain r where r: "validate_next host page = Some r" and c: "case r of
       Served m' \<Rightarrow> (\<forall>a. validated_times m' a = validated_times [] a + (\<Sum>(lo, hi)\<leftarrow>rs. covered_times lo hi a))
     | Died m' \<Rightarrow> (\<forall>a. validated_times m' a \<le> validated_times [] a + (\<Sum>(lo, hi)\<leftarrow>rs. covered_times lo hi a))
     | PastPage m' \<Rightarrow> False"
    using snp_walk.serve_ranges_cases [OF assms(1,2), of host "[]"] unfolding n by blast
  obtain q where q: "validate_next host page = Some q" and d: "case q of
       Served m' \<Rightarrow> (\<forall>a. zeroed_times m' a = zeroed_times [] a + (\<Sum>(lo, hi)\<leftarrow>rs. covered_times lo hi a))
     | Died m' \<Rightarrow> (\<forall>a. zeroed_times m' a \<le> zeroed_times [] a + (\<Sum>(lo, hi)\<leftarrow>rs. covered_times lo hi a))
     | PastPage m' \<Rightarrow> False"
    using snp_zero.serve_ranges_cases [OF assms(1,2), of host "[]"] unfolding n by blast
  note c = c [unfolded covered_times_ascending [OF assms(3)] times_simps add_0]
    and d = d [unfolded covered_times_ascending [OF assms(3)] times_simps add_0]
  have qr: "q = r" using q r by simp
  show ?thesis
  proof (cases r)
    case (Served log)
    show ?thesis
    proof (cases "wake_aps host log")
      case (Inl e)
      then have "fatal_reason e"
        using wake_aps_fails unfolding fatal_reason_def wake_death_def by (metis append.assoc)
      then show ?thesis using r Served Inl by (simp add: snp_boot_def)
    next
      case (Inr log')
      then obtain wake where w: "log' = log @ wake" "wake_script wake" using wake_aps_succeeds by blast
      have "snp_boot host page = Some (Entered rip ZERO_PAGE (log @ wake))"
        using r Served Inr w(1) assms(4) by (simp add: snp_boot_def)
      moreover have "\<forall>a. validated_times log a = (if accepted rs a then 1 else 0) \<and>
         zeroed_times log a = (if accepted rs a then 1 else 0)"
        using c d Served qr by simp
      moreover have "list_all validating log"
        using serve_ranges_keeps [OF r [unfolded n] validate_step_validating _ Served] by simp
      ultimately show ?thesis using w(2) by blast
    qed
  next
    case (Died log)
    moreover from this have "fatal_reason log"
      using snp_refusal.serve_ranges_refused [OF assms(1,2)] r n unfolding fatal_reason_def by metis
    ultimately show ?thesis using r by (simp add: snp_boot_def)
  next
    case (PastPage log)
    then show ?thesis using c by simp
  qed
qed

text \<open>The pages a wake touches: the GHCB page, which it takes and gives back, and no other.\<close>

lemma in_ghcb_page:
  assumes "is_multiple_of a PAGE"
  shows "SNP_GHCB \<le> a \<and> a < SNP_GHCB + PAGE \<longleftrightarrow> a = SNP_GHCB"
proof
  assume "SNP_GHCB \<le> a \<and> a < SNP_GHCB + PAGE"
  then have "0x117000 \<le> unat a" "unat a < 0x118000"
    by (simp_all add: layout_consts word_le_nat_alt word_less_nat_alt)
  moreover have "4096 dvd unat a" using assms PAGE_aligned_iff by blast
  then obtain k where "unat a = 4096 * k" by (elim dvdE)
  ultimately have "unat a = unat SNP_GHCB" by (simp add: SNP_GHCB_def)
  then show "a = SNP_GHCB" by (simp only: word_unat_eq_iff)
qed (simp add: layout_consts)

lemma wake_script_pages:
  assumes "wake_script wake" "is_multiple_of a PAGE"
  shows "fold (page_event a) wake st = (if a = SNP_GHCB then \<lparr>ps_private = True, ps_valid = True\<rparr> else st)"
    and "\<forall>e\<in>set wake. gives_up e a \<longrightarrow> a = SNP_GHCB"
    and "a \<noteq> SNP_GHCB \<Longrightarrow> validated_times wake a = 0"
    and "a < MAP_LIMIT \<Longrightarrow> zeroed_times wake a = 0"
proof -
  obtain cf sh q1 p1 q2 p2 q3 p3 pv cf' where
    w: "wake = [Pvalidate SNP_GHCB False False 0 cf,
           MsrProtocol (SNP_GHCB OR push_bit 52 2 OR 0x14) sh,
           MsrProtocol (SNP_GHCB OR 0x12) (SNP_GHCB OR 0x13),
           StoreZero (SHARED_ALIAS + SNP_GHCB) 512,
           GhcbExit q1 p1, GhcbExit q2 p2, GhcbExit q3 p3,
           MsrProtocol (SNP_GHCB OR push_bit 52 1 OR 0x14) pv,
           Pvalidate SNP_GHCB False True 0 cf']"
    using assms(1) unfolding wake_script_def by blast
  note in_page = in_ghcb_page [OF assms(2)]
  have frame: "(SNP_GHCB OR push_bit 52 1 OR 0x14) AND 0xffffffffff000 = SNP_GHCB"
    "(SNP_GHCB OR push_bit 52 2 OR 0x14) AND 0xffffffffff000 = SNP_GHCB"
    "(SNP_GHCB OR 0x12) AND 0xfff \<noteq> 0x14"
    by (simp_all add: SNP_GHCB_def)
  have other: "\<not> gives_up e a" "page_event a e = id" if "a \<noteq> SNP_GHCB" "e \<in> set wake" for e
  proof -
    have np: "SNP_GHCB \<noteq> a" "SNP_GHCB \<le> a \<Longrightarrow> \<not> a < SNP_GHCB + PAGE"
      using that(1) in_page by blast+
    from that(2) have "\<not> gives_up e a \<and> page_event a e = id"
      unfolding w list.set insert_iff empty_iff
      by (elim disjE FalseE) (simp_all only: gives_up.simps page_event.simps fun_eq_iff frame, auto dest: np(2) simp: np(1))
    then show "\<not> gives_up e a" "page_event a e = id" by blast+
  qed
  show "fold (page_event a) wake st = (if a = SNP_GHCB then \<lparr>ps_private = True, ps_valid = True\<rparr> else st)"
  proof (cases "a = SNP_GHCB")
    case True
    then have "page_event a (Pvalidate SNP_GHCB False True 0 cf') st' = \<lparr>ps_private = True, ps_valid = True\<rparr>" for st'
      using in_page by simp
    then show ?thesis using True unfolding w by (simp del: page_event.simps)
  next
    case False
    then have "fold (page_event a) wake st = fold (\<lambda>e. id) wake st"
      using other(2) by (intro fold_cong) auto
    then show ?thesis using False by (simp add: fold_id)
  qed
  show "\<forall>e\<in>set wake. gives_up e a \<longrightarrow> a = SNP_GHCB" using other(1) by blast
  show "validated_times wake a = 0" if "a \<noteq> SNP_GHCB"
    using in_page that by (simp add: w times_simps)
  show "zeroed_times wake a = 0" if "a < MAP_LIMIT"
    using that by (auto simp: w times_simps layout_consts word_le_nat_alt word_less_nat_alt)
qed

text \<open>
  What a run that enters the kernel has done to the pages below \<open>memory\<close>: of the pages neither
  imported nor in a hole each was validated once, and zeroed; only the GHCB page was ever given
  up; and in the end every page outside the holes is private and validated.
\<close>

definition pages_completed ::
  "u64 set \<Rightarrow> (u64 \<Rightarrow> bool) \<Rightarrow> u64 \<Rightarrow> snp_log \<Rightarrow> snp_log \<Rightarrow> bool" where
  "pages_completed imported hole memory log wake \<longleftrightarrow> SNP_GHCB \<in> imported \<and> wake_script wake \<and>
     (\<forall>a. is_multiple_of a PAGE \<longrightarrow> a < memory \<longrightarrow>
        validated_times log a \<le> 1 \<and> zeroed_times log a = validated_times log a \<and>
        exactly_one (a \<in> imported) (validated_times log a = 1) (hole a) \<and>
        zeroed_times (log @ wake) a = zeroed_times log a \<and>
        (a \<noteq> SNP_GHCB \<longrightarrow> validated_times (log @ wake) a = validated_times log a \<and>
           \<not> list_ex (\<lambda>e. gives_up e a) (log @ wake)) \<and>
        page_after (log @ wake) (a \<in> imported) a =
          (if hole a then \<lparr>ps_private = False, ps_valid = False\<rparr>
           else \<lparr>ps_private = True, ps_valid = True\<rparr>))"

lemma snp_boot_accounts:
  assumes "shim_ranges page 0xc08 = Some rs" "\<forall>(lo, hi)\<in>set rs. mapped_range lo hi"
    "ascending rs" "shim_entry page = Some rip" "memory \<le> MAP_LIMIT" "SNP_GHCB \<in> imported"
    "\<And>a. is_multiple_of a PAGE \<Longrightarrow> a < memory \<Longrightarrow>
       exactly_one (a \<in> imported) (accepted rs a) (hole a)"
  shows "(\<exists>log. snp_boot host page = Some (Fatal log) \<and> fatal_reason log) \<or>
    (\<exists>log wake. snp_boot host page = Some (Entered rip ZERO_PAGE (log @ wake)) \<and>
      pages_completed imported hole memory log wake)"
proof (cases "\<exists>log. snp_boot host page = Some (Fatal log) \<and> fatal_reason log")
  case False
  with snp_boot_cases [OF assms(1-4), of host] obtain log wake where
    b: "snp_boot host page = Some (Entered rip ZERO_PAGE (log @ wake))"
    and w: "wake_script wake" and v: "list_all validating log"
    and t: "\<And>a. validated_times log a = (if accepted rs a then 1 else 0)"
      "\<And>a. zeroed_times log a = (if accepted rs a then 1 else 0)"
    by blast
  have keep: "\<not> list_ex (\<lambda>e. gives_up e a) log" for a
  proof -
    have "\<not> gives_up e a" if "validating e" for e using that by (cases e) auto
    then show ?thesis using v by (auto simp: list_all_iff list_ex_iff)
  qed
  have "pages_completed imported hole memory log wake"
    unfolding pages_completed_def
  proof (intro conjI allI impI assms(6) w)
    fix a assume a: "is_multiple_of a PAGE" "a < memory"
    note wp = wake_script_pages [OF w a(1)] and one = assms(7) [OF a]
    have lim: "a < MAP_LIMIT" using a(2) assms(5) by simp
    show "validated_times log a \<le> 1" "zeroed_times log a = validated_times log a"
      "exactly_one (a \<in> imported) (validated_times log a = 1) (hole a)"
      using one t [of a] by (cases "accepted rs a"; simp)+
    show "zeroed_times (log @ wake) a = zeroed_times log a"
      using wp(4) lim by (simp add: times_simps)
    show "validated_times (log @ wake) a = validated_times log a" if "a \<noteq> SNP_GHCB"
      using wp(3) that by (simp add: times_simps)
    show "\<not> list_ex (\<lambda>e. gives_up e a) (log @ wake)" if "a \<noteq> SNP_GHCB"
      using wp(2) that keep by (auto simp: list_ex_iff)
    show "page_after (log @ wake) (a \<in> imported) a = (if hole a
        then \<lparr>ps_private = False, ps_valid = False\<rparr> else \<lparr>ps_private = True, ps_valid = True\<rparr>)"
      using one assms(6) unfolding page_after_def fold_append comp_apply wp(1)
        page_after_validating [OF v] t exactly_one_def
      by (cases "accepted rs a"; cases "hole a"; auto)
  qed
  with b show ?thesis by blast
qed simp

lemma placed_measured_loaded:
  "placed_measured b name t (replicate (unat PAGE) 0) \<in> set placed \<Longrightarrow> b \<in> set (loaded_addresses placed)"
  by (force simp: loaded_addresses_def region_addresses_def one_page)

text \<open>What a finished SNP image holds: its pages, the shim's page among them, and the ranges packed in it.\<close>

lemma snp_image_ranges:
  assumes "build_snp ex kernel_path initramfs_path out params config_hash id_key guest_svn s = (Inr (), s')"
    and "snp_params ram vcpus cbit cmdline holes = Inr params" "apertures_ok params"
    and "fs_files s kernel_path = Inr kf" "fs_files s initramfs_path = Inr ir" "ir \<noteq> []"
    and "vec_len_ok kf" "vec_len_ok ir" "length (ex_snp_shim ex) = 4096"
  obtains ds pgs manifest page rs where "snp_published ex out s s' ds manifest"
    "filter (\<lambda>d. page_gpa d \<noteq> []) ds = page_directives pgs" "sorted_wrt (<) (map lp_gpa pgs)"
    "\<lparr>lp_gpa = SHIM_BASE, lp_data = page, lp_kind = NORMAL\<rparr> \<in> set pgs"
    "SNP_GHCB \<in> set (map lp_gpa pgs)" "p_memory params \<le> MAP_LIMIT"
    "\<forall>a. a < p_memory params \<longrightarrow> ((\<exists>d\<in>set ds. requires d a) \<longleftrightarrow> \<not> in_aperture params a)"
    "shim_ranges page 0xc08 = Some rs" "\<forall>(lo, hi)\<in>set rs. mapped_range lo hi" "ascending rs"
    "shim_entry page = Some (KERNEL_BASE + ENTRY_64_OFFSET)"
    "\<forall>a. is_multiple_of a PAGE \<longrightarrow> a < p_memory params \<longrightarrow>
       exactly_one (a \<in> set (map lp_gpa pgs)) (accepted rs a) (in_aperture params a)"
proof -
  note pf = snp_params_facts [OF assms(2)]
  obtain p placed emap headers ld img manifest json where
    r: "snp_run ex kernel_path initramfs_path params config_hash id_key guest_svn s p placed emap
      headers ld img manifest"
    and w: "ex_json_snp ex manifest = Inr json"
      "s' = s\<lparr>fs_files := (fs_files s)(out := Inr img, manifest_path out := Inr (json @ [10]))\<rparr>"
    using assms(1) unfolding build_snp_Inr_conv by blast
  let ?pgs = "snp_pages (sort_key pl_base placed)"
  let ?ds = "snp_directives ex params emap ?pgs headers"
  from r assms(4,5) obtain owned sealed where pr: "prepare_inputs kf ir params = Inr p"
    and pl: "snp_place ex params p = Inr (placed, emap, owned)"
    and sg: "snp_sign ex id_key ld guest_svn s = (Inr (headers, sealed), s)"
    and sf: "snp_file ex ?ds = Inr img"
    unfolding snp_run_def by auto
  have sized: "sized params p" by (rule prepared_sized [OF pr pf(2) assms(7,8)])
  have ne: "pr_initramfs p \<noteq> []" using prepare_inputs_shape(3) [OF pr] assms(6) by simp
  have entry: "pr_entry p = KERNEL_BASE + ENTRY_64_OFFSET"
    using prepare_inputs_shape(4) [OF pr] by (simp add: layout_consts)
  note facts = snp_place_facts [OF pl sized assms(9,3)]
  let ?rs = "accept_ranges placed (p_memory params)"
  from snp_memory_account [OF facts ne assms(9)] obtain page where
    page: "\<lparr>lp_gpa = SHIM_BASE, lp_data = page, lp_kind = NORMAL\<rparr> \<in> set ?pgs"
      "shim_entry page = Some (KERNEL_BASE + ENTRY_64_OFFSET)" "shim_ranges page 0xc08 = Some ?rs"
    and one: "\<And>a. is_multiple_of a PAGE \<Longrightarrow> a < p_memory params \<Longrightarrow>
       exactly_one (a \<in> set (map lp_gpa ?pgs)) (accepted ?rs a) (in_aperture params a)"
    unfolding entry by blast
  have mem: "p_memory params \<le> MAP_LIMIT"
    using new_params_memory assms(2) unfolding snp_params_def by blast
  have al: "aligned placed" by (rule snp_facts_aligned [OF facts pf(6)])
  have mapped: "\<forall>(lo, hi)\<in>set ?rs. mapped_range lo hi"
    by (rule accept_ranges_mapped [OF al pf(5) mem])
  have "no_wrap placed" using facts proper_no_wrap by (simp add: snp_launch_facts_def)
  then have asc: "ascending ?rs" by (rule accept_ranges_ascending)
  note h = snp_sign_headers [OF sg]
  have req: "(\<exists>d\<in>set ?ds. requires d a) \<longleftrightarrow> \<not> in_aperture params a" if "a < p_memory params" for a
    by (simp only: snp_directives_requires [OF h] snp_required_iff [OF facts that])
  have "snp_published ex out s s' ?ds manifest"
    unfolding snp_published_def using sf w by blast
  moreover have "SNP_GHCB \<in> set (map lp_gpa ?pgs)"
    using facts snp_loaded(3) [OF facts ne] placed_measured_loaded
    unfolding snp_launch_facts_def by auto
  ultimately show thesis
    using that snp_directives_pages [OF h] snp_loaded(1) [OF facts ne] page(1) mem req page(3)
      mapped asc page(2) one
    by blast
qed

text \<open>C2: take a successful SNP build whose initramfs is not empty and whose apertures do not wrap around
  the address space, with the one-page shim the build script makes and files no longer than Rust
  allows. The image and its shim together leave no page of the guest unaccounted for. The image
  asks the loader for all memory but the apertures and imports each of its pages once, the GHCB
  page among them. Booted from the measured page the builder published, the shim always ends,
  whatever processor and host answer: in a termination request, after a refused validation or a
  failed step of the wake; or in the kernel's 64-bit entry with the zero page. It has then
  validated each page neither imported nor in an aperture exactly once, never one already valid,
  and zeroed exactly the pages it validated; it gave up no page but the GHCB page, which the wake
  rescinds, shares, takes back and validates; and in the end every page of the memory outside the
  apertures, the GHCB page included, is private and validated.\<close>

theorem snp_shim_completes_the_image:
  assumes "build_snp ex kernel_path initramfs_path out params config_hash id_key guest_svn s = (Inr (), s')"
    and "snp_params ram vcpus cbit cmdline holes = Inr params" "apertures_ok params"
    and "fs_files s kernel_path = Inr kf" "fs_files s initramfs_path = Inr ir" "ir \<noteq> []"
    and "vec_len_ok kf" "vec_len_ok ir" "length (ex_snp_shim ex) = 4096"
  shows "\<exists>ds pgs manifest page. snp_published ex out s s' ds manifest \<and>
    filter (\<lambda>d. page_gpa d \<noteq> []) ds = page_directives pgs \<and> sorted_wrt (<) (map lp_gpa pgs) \<and>
    \<lparr>lp_gpa = SHIM_BASE, lp_data = page, lp_kind = NORMAL\<rparr> \<in> set pgs \<and>
    (\<forall>a. a < p_memory params \<longrightarrow> ((\<exists>d\<in>set ds. requires d a) \<longleftrightarrow> \<not> in_aperture params a)) \<and>
    (\<forall>host.
      (\<exists>log. snp_boot host page = Some (Fatal log) \<and> fatal_reason log) \<or>
      (\<exists>log wake.
        snp_boot host page = Some (Entered (KERNEL_BASE + ENTRY_64_OFFSET) ZERO_PAGE (log @ wake)) \<and>
        pages_completed (set (map lp_gpa pgs)) (in_aperture params) (p_memory params) log wake))"
proof -
  obtain ds pgs manifest page rs where ds: "snp_published ex out s s' ds manifest"
    "filter (\<lambda>d. page_gpa d \<noteq> []) ds = page_directives pgs" "sorted_wrt (<) (map lp_gpa pgs)"
    "\<lparr>lp_gpa = SHIM_BASE, lp_data = page, lp_kind = NORMAL\<rparr> \<in> set pgs"
    and g: "SNP_GHCB \<in> set (map lp_gpa pgs)" and mem: "p_memory params \<le> MAP_LIMIT"
    and req: "\<forall>a. a < p_memory params \<longrightarrow> ((\<exists>d\<in>set ds. requires d a) \<longleftrightarrow> \<not> in_aperture params a)"
    and rs: "shim_ranges page 0xc08 = Some rs" "\<forall>(lo, hi)\<in>set rs. mapped_range lo hi" "ascending rs"
    and entry: "shim_entry page = Some (KERNEL_BASE + ENTRY_64_OFFSET)"
    and one: "\<forall>a. is_multiple_of a PAGE \<longrightarrow> a < p_memory params \<longrightarrow>
       exactly_one (a \<in> set (map lp_gpa pgs)) (accepted rs a) (in_aperture params a)"
    by (rule snp_image_ranges [OF assms]) blast
  from snp_boot_accounts [OF rs entry mem g one [rule_format]] ds req show ?thesis
    by (intro exI [of _ ds] exI [of _ pgs] exI [of _ manifest] exI [of _ page]) blast
qed

theorem snp_shim_completes_the_image_witness:
  "\<exists>s' ds pgs manifest page. build_snp demo_externs (lit ''k'') (lit ''i'') (lit ''o'') default_params
     None None 0 snp_demo_fs = (Inr (), s') \<and>
     snp_published demo_externs (lit ''o'') snp_demo_fs s' ds manifest \<and>
     \<lparr>lp_gpa = SHIM_BASE, lp_data = page, lp_kind = NORMAL\<rparr> \<in> set pgs \<and>
     (\<forall>host. (\<exists>log. snp_boot host page = Some (Fatal log)) \<or>
       (\<exists>log wake. snp_boot host page =
          Some (Entered (KERNEL_BASE + ENTRY_64_OFFSET) ZERO_PAGE (log @ wake)) \<and>
        pages_completed (set (map lp_gpa pgs)) (in_aperture default_params) (p_memory default_params) log wake))"
proof -
  have "key_usable demo_externs snp_demo_fs None" by (simp add: key_usable_def)
  then obtain s' where b: "build_snp demo_externs (lit ''k'') (lit ''i'') (lit ''o'') default_params None
      None 0 snp_demo_fs = (Inr (), s')"
    using snp_demo_build by blast
  from snp_shim_completes_the_image [OF b snp_default_params demo_inputs(3) snp_demo_facts(1,2,3)
      demo_facts(3,4) snp_demo_facts(6)] b
  show ?thesis
    by (elim exE conjE) (intro exI conjI; (assumption | blast))
qed

section \<open>Waking the other processors\<close>

text \<open>Waking the other processors either performs the whole exchange in order (rescind the GHCB
  page, make it shared, register it, clear it through the shared alias, INIT and two SIPIs, each
  acknowledged, make it private, validate it again), so the page is private and valid when the
  kernel starts, or ends in a termination request that names the failing step.\<close>

theorem wake_follows_the_script:
  "case wake_aps host log of
     Inr log' \<Rightarrow> \<exists>es. log' = log @ es \<and> wake_script es
   | Inl log' \<Rightarrow> \<exists>n. 1 \<le> n \<and> n \<le> 8 \<and> wake_death n log log'"
  by (auto dest: wake_aps_succeeds wake_aps_fails split: sum.split)

text \<open>The request page for an interrupt declares valid in its bitmap exactly the quadwords the host
  must read (exit code, both exit information fields, scratch address), asks for a four-byte
  MMIO write to the local APIC's command register, and carries the interrupt in its buffer.\<close>

theorem ghcb_request_declares_its_fields:
  assumes "length ghcb = 4096"
  shows "\<exists>g. ghcb_request icr ghcb = Some g \<and> length g = 4096 \<and> get32 0x800 g = Some icr \<and>
    get64 0x390 g = Some 0x80000002 \<and> get64 0x398 g = Some 0xfee00300 \<and> get64 0x3a0 g = Some 4 \<and>
    get64 0x3a8 g = Some (SNP_GHCB + 0x800) \<and>
    {8 * k | k. k < 128 \<and> bit (g ! (0x3f0 + k div 8)) (k mod 8)} = {0x390, 0x398, 0x3a0, 0x3a8}"
proof -
  obtain g where g: "ghcb_request icr ghcb = Some g" "length g = 4096" "get32 0x800 g = Some icr"
    "get64 0x390 g = Some 0x80000002" "get64 0x398 g = Some 0xfee00300" "get64 0x3a0 g = Some 4"
    "get64 0x3a8 g = Some (SNP_GHCB + 0x800)" and map: "peek 0x3f0 16 g = Some (replicate 14 0 @ [0x3c, 0])"
    using ghcb_request_page [OF assms] by blast
  have byte: "g ! (0x3f0 + j) = (if j = 14 then 0x3c else 0)" if "j < 16" for j
  proof -
    have "g ! (0x3f0 + j) = take 16 (drop 0x3f0 g) ! j" using that g(2) by simp
    also have "\<dots> = (replicate 14 0 @ [0x3c, 0]) ! j" using map g(2) by (simp add: peek_def)
    also have "\<dots> = (if j = 14 then 0x3c else 0)"
      using that by (auto simp: nth_append nth_Cons' split: if_splits)
    finally show ?thesis .
  qed
  have "\<forall>b\<in>{0, 1, 2, 3, 4, 5, 6, 7 :: nat}. bit (0x3c :: u8) b = (b \<in> {2, 3, 4, 5})"
    by simp
  moreover have "b \<in> {0, 1, 2, 3, 4, 5, 6, 7 :: nat}" if "b < 8" for b
    using that by (simp add: numeral_eq_Suc less_Suc_eq)
  ultimately have low: "bit (0x3c :: u8) b = (b \<in> {2, 3, 4, 5})" if "b < 8" for b
    using that by blast
  have "bit (g ! (0x3f0 + k div 8)) (k mod 8) \<longleftrightarrow> k \<in> {114, 115, 116, 117}" if "k < 128" for k
  proof -
    have "k div 8 < 16" using that by (simp add: less_mult_imp_div_less)
    then have "bit (g ! (0x3f0 + k div 8)) (k mod 8) \<longleftrightarrow> k div 8 = 14 \<and> bit (0x3c :: u8) (k mod 8)"
      by (simp add: byte)
    also have "\<dots> \<longleftrightarrow> k div 8 = 14 \<and> k mod 8 \<in> {2, 3, 4, 5}"
      by (simp only: low mod_less_divisor [of 8 k, simplified])
    also have "\<dots> \<longleftrightarrow> k \<in> {114, 115, 116, 117}"
      unfolding insert_iff empty_iff by presburger
    finally show ?thesis .
  qed
  then have "{k. k < 128 \<and> bit (g ! (0x3f0 + k div 8)) (k mod 8)} =
      {k. k < 128 \<and> k \<in> {114, 115, 116, 117}}"
    by (intro Collect_cong conj_cong refl)
  also have "\<dots> = {114, 115, 116, 117}" by auto
  finally have "{k. k < 128 \<and> bit (g ! (0x3f0 + k div 8)) (k mod 8)} = {114, 115, 116, 117}" .
  then have "(\<lambda>k. 8 * k) ` {k. k < 128 \<and> bit (g ! (0x3f0 + k div 8)) (k mod 8)} = {0x390, 0x398, 0x3a0, 0x3a8}"
    by simp
  moreover have "(\<lambda>k. 8 * k) ` {k. k < 128 \<and> bit (g ! (0x3f0 + k div 8)) (k mod 8)} =
      {8 * k | k. k < 128 \<and> bit (g ! (0x3f0 + k div 8)) (k mod 8)}"
    by blast
  ultimately show ?thesis using g by (intro exI [of _ g] conjI) simp_all
qed

theorem ghcb_request_declares_its_fields_witness:
  "\<exists>g. ghcb_request INIT_ALL (replicate 4096 0) = Some g \<and> get32 0x800 g = Some 0xc4500"
  using ghcb_request_declares_its_fields [of "replicate 4096 0" INIT_ALL] by (auto simp: INIT_ALL_def)

end
