(* ===== verification/Mailbox.thy ===== *)
theory Mailbox
  imports Tdx_Shim
begin

text \<open>
  The application processors of the TDX guest (src/src/reset.S, \<open>ap_wait\<close>): each polls the
  measured mailbox until the operating system names it, claims the command and jumps to the
  posted vector. Every load and store of the loop is its own step, because the mailbox is
  shared memory: the processors and the operating system interleave as a step relation. The
  operating system's side is the ACPI multiprocessor wakeup protocol, one request at a time:
  write the processor's number and the vector, then the command, and wait until it is cleared.
\<close>

section \<open>The loop\<close>

record mailbox =
  mb_command :: u32
  mb_id :: u32
  mb_vector :: u64

text \<open>Where a processor is: before one of its three loads, before the store, or gone.\<close>

datatype ap = Poll | CheckId | CheckVector | Claim u64 | Running u64

fun ap_step :: "u32 \<Rightarrow> mailbox \<Rightarrow> ap \<Rightarrow> mailbox \<times> ap" where
  "ap_step esi m Poll = (m, if mb_command m = 1 then CheckId else Poll)"
| "ap_step esi m CheckId = (m, if mb_id m = esi then CheckVector else Poll)"
| "ap_step esi m CheckVector = (m, if mb_vector m = 0 then Poll else Claim (mb_vector m))"
| "ap_step esi m (Claim rax) = (m\<lparr>mb_command := 0\<rparr>, Running rax)"
| "ap_step esi m (Running rax) = (m, Running rax)"

fun_cases ap_stepE: "ap_step esi m p = (m', p')"

section \<open>The system\<close>

datatype os_phase = OsIdle | OsNamed u32 | OsAimed u32 u64 | OsWaiting

record wake_system =
  w_mailbox :: mailbox
  w_aps :: "u32 \<Rightarrow> ap"
  w_os :: os_phase
  w_started :: "u32 list"
  w_vectors :: "u64 list"
  w_posted :: "(u32 \<times> u64) list"

text \<open>
  The last three fields record the history: the numbers and the vectors the system has written,
  and the requests whose command it has written.
\<close>

definition wake_initial :: wake_system where
  "wake_initial = \<lparr>w_mailbox = \<lparr>mb_command = 0, mb_id = 0, mb_vector = 0\<rparr>, w_aps = (\<lambda>i. Poll),
     w_os = OsIdle, w_started = [],
     w_vectors = [], w_posted = []\<rparr>"

inductive wake_step :: "wake_system \<Rightarrow> wake_system \<Rightarrow> bool" where
  processor: "ap_step i (w_mailbox s) (w_aps s i) = (m, p) \<Longrightarrow>
    wake_step s (s\<lparr>w_mailbox := m, w_aps := (w_aps s)(i := p)\<rparr>)"
| os_name: "w_os s = OsIdle \<Longrightarrow>
    wake_step s (s\<lparr>w_mailbox := (w_mailbox s)\<lparr>mb_id := i\<rparr>, w_os := OsNamed i,
      w_started := w_started s @ [i]\<rparr>)"
| os_aim: "w_os s = OsNamed i \<Longrightarrow> v \<noteq> 0 \<Longrightarrow>
    wake_step s (s\<lparr>w_mailbox := (w_mailbox s)\<lparr>mb_vector := v\<rparr>, w_os := OsAimed i v,
      w_vectors := w_vectors s @ [v]\<rparr>)"
| os_command: "w_os s = OsAimed i v \<Longrightarrow>
    wake_step s (s\<lparr>w_mailbox := (w_mailbox s)\<lparr>mb_command := 1\<rparr>, w_os := OsWaiting,
      w_posted := w_posted s @ [(i, v)]\<rparr>)"
| os_done: "w_os s = OsWaiting \<Longrightarrow> mb_command (w_mailbox s) = 0 \<Longrightarrow>
    wake_step s (s\<lparr>w_os := OsIdle\<rparr>)"

inductive_cases wake_stepE: "wake_step s t"

definition wake_reachable :: "wake_system \<Rightarrow> bool" where
  "wake_reachable s \<longleftrightarrow> wake_step\<^sup>*\<^sup>* wake_initial s"

lemma wake_reachable_induct [consumes 1, case_names initial step]:
  assumes "wake_reachable s" "P wake_initial"
    "\<And>s t. wake_reachable s \<Longrightarrow> wake_step s t \<Longrightarrow> P s \<Longrightarrow> P t"
  shows "P s"
  using assms(1) unfolding wake_reachable_def
  by (induction rule: rtranclp_induct) (use assms(2,3) in \<open>auto simp: wake_reachable_def\<close>)

section \<open>What always holds\<close>

text \<open>
  The part of a processor's state that matters: which vector it is about to run, and whether it
  has matched its own number.
\<close>

definition aiming :: "ap \<Rightarrow> u64 \<Rightarrow> bool" where
  "aiming p v \<longleftrightarrow> p = Claim v \<or> p = Running v"

definition matched :: "ap \<Rightarrow> bool" where
  "matched p \<longleftrightarrow> p \<noteq> Poll \<and> p \<noteq> CheckId"

lemmas ap_defs = aiming_def matched_def

text \<open>A processor that matched was named, and any vector in flight was written by the system.\<close>

definition wake_sound :: "wake_system \<Rightarrow> bool" where
  "wake_sound s \<longleftrightarrow>
     (\<forall>i. matched (w_aps s i) \<longrightarrow> i \<in> set (w_started s)) \<and>
     (\<forall>i v. aiming (w_aps s i) v \<longrightarrow> v \<noteq> 0 \<and> v \<in> set (w_vectors s)) \<and>
     (mb_vector (w_mailbox s) \<noteq> 0 \<longrightarrow> mb_vector (w_mailbox s) \<in> set (w_vectors s)) \<and>
     (w_started s \<noteq> [] \<longrightarrow> mb_id (w_mailbox s) \<in> set (w_started s)) \<and>
     (w_os s \<noteq> OsIdle \<longrightarrow> w_started s \<noteq> []) \<and>
     (w_started s = [] \<longrightarrow> (\<forall>i. w_aps s i = Poll) \<and> mb_command (w_mailbox s) = 0)"

lemma wake_sound_step: "wake_step s t \<Longrightarrow> wake_sound s \<Longrightarrow> wake_sound t"
proof (induction rule: wake_step.induct)
  case (processor i s m p)
  then show ?case
    by (elim ap_stepE) (auto simp: wake_sound_def ap_defs split: if_splits)
qed (auto simp: wake_sound_def)

lemma wake_reachable_sound: "wake_reachable s \<Longrightarrow> wake_sound s"
proof (induction rule: wake_reachable_induct)
  case initial
  then show ?case by (simp add: wake_sound_def wake_initial_def ap_defs)
next
  case (step s t)
  then show ?case using wake_sound_step by blast
qed

section \<open>One request\<close>

text \<open>Until a second request begins, the mailbox holds the first and only its addressee moves on.\<close>

definition one_request :: "wake_system \<Rightarrow> bool" where
  "one_request s \<longleftrightarrow> (case w_posted s of
       [] \<Rightarrow> (\<forall>i. w_aps s i = Poll) \<and> mb_command (w_mailbox s) = 0 \<and>
         (case w_os s of
            OsIdle \<Rightarrow> w_started s = []
          | OsNamed i \<Rightarrow> w_started s = [i] \<and> mb_id (w_mailbox s) = i
          | OsAimed i v \<Rightarrow> w_started s = [i] \<and> mb_id (w_mailbox s) = i \<and>
              mb_vector (w_mailbox s) = v \<and> v \<noteq> 0
          | OsWaiting \<Rightarrow> False)
     | (i, v) # rest \<Rightarrow> rest = [] \<and> w_started s = [i] \<and> mb_id (w_mailbox s) = i \<and>
         mb_vector (w_mailbox s) = v \<and> v \<noteq> 0 \<and> (w_os s = OsWaiting \<or> w_os s = OsIdle) \<and>
         (\<forall>j. matched (w_aps s j) \<longrightarrow> j = i) \<and> (\<forall>j w. aiming (w_aps s j) w \<longrightarrow> w = v))"

lemma one_request_step:
  assumes "wake_step s t" "one_request s" "length (w_started t) \<le> 1"
  shows "one_request t"
  using assms
proof (induction rule: wake_step.induct)
  case (processor i s m p)
  then show ?case
    by (cases "w_aps s i"; cases "w_posted s")
      (auto simp: one_request_def ap_defs split: os_phase.splits if_splits)
next
  case (os_name s i)
  then show ?case by (auto simp: one_request_def ap_defs split: list.splits)
next
  case (os_aim s i v)
  then show ?case by (auto simp: one_request_def ap_defs split: list.splits)
next
  case (os_command s i v)
  then show ?case by (auto simp: one_request_def ap_defs split: list.splits)
next
  case (os_done s)
  then show ?case by (auto simp: one_request_def ap_defs split: list.splits)
qed

lemma started_grows: "wake_step s t \<Longrightarrow> length (w_started s) \<le> length (w_started t)"
  by (elim wake_stepE) auto

lemma wake_reachable_one_request:
  "wake_reachable s \<Longrightarrow> length (w_started s) \<le> 1 \<Longrightarrow> one_request s"
proof (induction rule: wake_reachable_induct)
  case initial
  then show ?case by (simp add: one_request_def wake_initial_def)
next
  case (step s t)
  then show ?case using one_request_step started_grows le_trans by blast
qed

section \<open>Running a schedule\<close>

datatype wake_action = Ap u32 | OsName u32 | OsAim u64 | OsCommand | OsDone

fun do_action :: "wake_action \<Rightarrow> wake_system \<Rightarrow> wake_system option" where
  "do_action (Ap i) s = (case ap_step i (w_mailbox s) (w_aps s i) of
     (m, p) \<Rightarrow> Some (s\<lparr>w_mailbox := m, w_aps := (w_aps s)(i := p)\<rparr>))"
| "do_action (OsName i) s = (if w_os s = OsIdle
     then Some (s\<lparr>w_mailbox := (w_mailbox s)\<lparr>mb_id := i\<rparr>, w_os := OsNamed i,
       w_started := w_started s @ [i]\<rparr>) else None)"
| "do_action (OsAim v) s = (case w_os s of
     OsNamed i \<Rightarrow> if v \<noteq> 0 then Some (s\<lparr>w_mailbox := (w_mailbox s)\<lparr>mb_vector := v\<rparr>,
       w_os := OsAimed i v, w_vectors := w_vectors s @ [v]\<rparr>) else None
   | _ \<Rightarrow> None)"
| "do_action OsCommand s = (case w_os s of
     OsAimed i v \<Rightarrow> Some (s\<lparr>w_mailbox := (w_mailbox s)\<lparr>mb_command := 1\<rparr>, w_os := OsWaiting,
       w_posted := w_posted s @ [(i, v)]\<rparr>)
   | _ \<Rightarrow> None)"
| "do_action OsDone s = (if w_os s = OsWaiting \<and> mb_command (w_mailbox s) = 0
     then Some (s\<lparr>w_os := OsIdle\<rparr>) else None)"

fun do_actions :: "wake_action list \<Rightarrow> wake_system \<Rightarrow> wake_system option" where
  "do_actions [] s = Some s"
| "do_actions (a # as) s = Option.bind (do_action a s) (do_actions as)"

lemma do_action_step: "do_action a s = Some t \<Longrightarrow> wake_step s t"
  by (cases a) (auto split: prod.splits os_phase.splits if_splits intro: wake_step.intros)

lemma do_actions_steps: "do_actions as s = Some t \<Longrightarrow> wake_step\<^sup>*\<^sup>* s t"
  by (induction "as" arbitrary: s)
    (auto simp: bind_eq_Some_conv dest: do_action_step intro: converse_rtranclp_into_rtranclp)

lemma do_actions_reachable: "wake_reachable s \<Longrightarrow> do_actions as s = Some t \<Longrightarrow> wake_reachable t"
  using do_actions_steps unfolding wake_reachable_def by (meson rtranclp_trans)

lemma wake_initial_reachable: "wake_reachable wake_initial"
  by (simp add: wake_reachable_def)

section \<open>What the processors may run\<close>

text \<open>C22: however the processors and the system interleave, a processor leaves the poll loop only if
  the system has named it in some request, posted or not, and jumps only to a non-zero vector
  the system has written, for it or for another. Only while the system has begun at most one
  request is more sure: then the one that leaves is its addressee, to exactly its vector.\<close>

theorem mailbox_wakes_the_named:
  assumes "wake_reachable s" "w_aps s i = Running v"
  shows "i \<in> set (w_started s) \<and> v \<noteq> 0 \<and> v \<in> set (w_vectors s) \<and>
    (length (w_started s) \<le> 1 \<longrightarrow> w_posted s = [(i, v)])"
proof -
  have "i \<in> set (w_started s)" "v \<noteq> 0" "v \<in> set (w_vectors s)"
    using wake_reachable_sound [OF assms(1)] assms(2)
    by (auto simp: wake_sound_def ap_defs)
  moreover have "w_posted s = [(i, v)]" if "length (w_started s) \<le> 1"
  proof -
    have "matched (w_aps s i)" "aiming (w_aps s i) v" "w_aps s i \<noteq> Poll"
      using assms(2) by (simp_all add: ap_defs)
    then show ?thesis
      using wake_reachable_one_request [OF assms(1) that]
      by (cases "w_posted s") (auto simp: one_request_def)
  qed
  ultimately show ?thesis by blast
qed

definition one_wake :: "wake_action list" where
  "one_wake = [OsName 1, OsAim 0x1000, OsCommand, Ap 2, Ap 1, Ap 1, Ap 1, Ap 1, OsDone]"

definition after_one_wake :: wake_system where
  "after_one_wake = the (do_actions one_wake wake_initial)"

lemma after_one_wake:
  "do_actions one_wake wake_initial = Some after_one_wake" "w_os after_one_wake = OsIdle"
  "w_aps after_one_wake 1 = Running 0x1000" "w_aps after_one_wake 2 = CheckId"
  "w_started after_one_wake = [1]" "w_posted after_one_wake = [(1, 0x1000)]"
  "w_mailbox after_one_wake = \<lparr>mb_command = 0, mb_id = 1, mb_vector = 0x1000\<rparr>"
  by (simp_all add: after_one_wake_def one_wake_def wake_initial_def)

theorem mailbox_wakes_the_named_witness:
  "wake_reachable after_one_wake \<and> w_posted after_one_wake = [(1, 0x1000)]"
proof -
  have r: "wake_reachable after_one_wake"
    by (rule do_actions_reachable [OF wake_initial_reachable after_one_wake(1)])
  from mailbox_wakes_the_named [OF r after_one_wake(3)] r after_one_wake(5) show ?thesis by simp
qed

text \<open>A posted request is taken: whenever the first command is up and its addressee is polling, its
  next four steps claim the command and leave for the posted vector.\<close>

theorem first_request_is_taken:
  assumes "wake_reachable s" "w_posted s = [(i, v)]" "w_started s = [i]"
    "mb_command (w_mailbox s) = 1" "w_aps s i = Poll"
  shows "\<exists>t. do_actions [Ap i, Ap i, Ap i, Ap i] s = Some t \<and> w_aps t i = Running v \<and>
    mb_command (w_mailbox t) = 0"
proof -
  have "one_request s" using wake_reachable_one_request [OF assms(1)] assms(3) by simp
  then have "mb_id (w_mailbox s) = i" "mb_vector (w_mailbox s) = v" "v \<noteq> 0"
    using assms(2) by (simp_all add: one_request_def)
  then show ?thesis using assms(4,5) by simp
qed

theorem first_request_is_taken_witness:
  "\<exists>s t. do_actions [OsName 1, OsAim 0x1000, OsCommand] wake_initial = Some s \<and>
     do_actions [Ap 1, Ap 1, Ap 1, Ap 1] s = Some t \<and> w_aps t 1 = Running 0x1000"
proof -
  obtain s where s: "do_actions [OsName 1, OsAim 0x1000, OsCommand] wake_initial = Some s"
    "w_posted s = [(1, 0x1000)]" "w_started s = [1]" "mb_command (w_mailbox s) = 1" "w_aps s 1 = Poll"
    by (simp add: wake_initial_def)
  from first_request_is_taken [OF do_actions_reachable [OF wake_initial_reachable s(1)] s(2-5)] s(1)
  show ?thesis by blast
qed

text \<open>A system that waits for a command nobody will clear: its addressee is gone already.\<close>

definition lost :: "u32 \<Rightarrow> u64 \<Rightarrow> wake_system \<Rightarrow> bool" where
  "lost i v s \<longleftrightarrow> w_os s = OsWaiting \<and> mb_command (w_mailbox s) = 1 \<and> mb_id (w_mailbox s) = i \<and>
     w_aps s i = Running v \<and>
     (\<forall>j. w_aps s j = Poll \<or> w_aps s j = CheckId \<or> (\<exists>v. w_aps s j = Running v))"

lemma lost_step: "wake_step s t \<Longrightarrow> lost i v s \<Longrightarrow> lost i v t"
proof (induction rule: wake_step.induct)
  case (processor j s m p)
  then have at: "w_aps s j = Poll \<or> w_aps s j = CheckId \<or> (\<exists>v. w_aps s j = Running v)"
    "w_aps s j \<noteq> Running v \<Longrightarrow> j \<noteq> i" "mb_id (w_mailbox s) = i"
    by (auto simp: lost_def)
  then have "m = w_mailbox s \<and> (p = w_aps s j \<or> j \<noteq> i \<and> (p = Poll \<or> p = CheckId))"
    using processor.hyps by (auto split: if_splits)
  with at processor.prems show ?case by (auto simp: lost_def)
qed (auto simp: lost_def)

lemma lost_for_ever: "wake_step\<^sup>*\<^sup>* s t \<Longrightarrow> lost i v s \<Longrightarrow> lost i v t"
  by (induction rule: rtranclp_induct) (auto intro: lost_step)

text \<open>C23: the three loads are not atomic, so a request can be lost. A state is reachable in which
  processor 2, which had seen the command of the first request, has matched its number in the
  second before that one's vector was written, and runs the first request's vector 0x1000; the
  command of its own request, for 0x2000, has been written since. From there on, whatever
  happens, nobody clears that command: it stays 1, the system waits for ever, and processor 2
  never runs the vector posted for it.\<close>

theorem stale_command_loses_a_request:
  "\<exists>s. wake_reachable s \<and> w_posted s = [(1, 0x1000), (2, 0x2000)] \<and> w_aps s 1 = Running 0x1000 \<and>
     (\<forall>t. wake_step\<^sup>*\<^sup>* s t \<longrightarrow> mb_command (w_mailbox t) = 1 \<and> w_os t = OsWaiting \<and>
        w_aps t 2 = Running 0x1000)"
proof -
  let ?rest = "[OsName 2, Ap 2, Ap 2, Ap 2, OsAim 0x2000, OsCommand]"
  have r: "wake_reachable after_one_wake"
    by (rule do_actions_reachable [OF wake_initial_reachable after_one_wake(1)])
  have others: "w_aps after_one_wake j = Poll" if "j \<noteq> 1" "j \<noteq> 2" for j
    using that by (simp add: after_one_wake_def one_wake_def wake_initial_def)
  obtain s where s: "do_actions ?rest after_one_wake = Some s"
    "w_posted s = [(1, 0x1000), (2, 0x2000)]" "w_os s = OsWaiting" "mb_command (w_mailbox s) = 1"
    "mb_id (w_mailbox s) = 2" "w_aps s 1 = Running 0x1000" "w_aps s 2 = Running 0x1000"
    "\<And>j. j \<noteq> 1 \<Longrightarrow> j \<noteq> 2 \<Longrightarrow> w_aps s j = Poll"
    by (simp add: after_one_wake others)
  have "lost 2 0x1000 s" unfolding lost_def using s(3-) by metis
  then have "\<forall>t. wake_step\<^sup>*\<^sup>* s t \<longrightarrow> mb_command (w_mailbox t) = 1 \<and> w_os t = OsWaiting \<and>
      w_aps t 2 = Running 0x1000"
    using lost_for_ever unfolding lost_def by blast
  then show ?thesis using do_actions_reachable [OF r s(1)] s(2,6) by blast
qed

theorem stale_command_loses_a_request_witness:
  "\<exists>s. wake_reachable s \<and> (2, 0x2000) \<in> set (w_posted s) \<and> mb_command (w_mailbox s) = 1 \<and>
     \<not> (\<exists>t. wake_step\<^sup>*\<^sup>* s t \<and> (mb_command (w_mailbox t) = 0 \<or> w_aps t 2 = Running 0x2000))"
proof -
  obtain s where s: "wake_reachable s" "w_posted s = [(1, 0x1000), (2, 0x2000)]"
    and stuck: "\<And>t. wake_step\<^sup>*\<^sup>* s t \<Longrightarrow> mb_command (w_mailbox t) = 1" "\<And>t. wake_step\<^sup>*\<^sup>* s t \<Longrightarrow> w_aps t 2 = Running 0x1000"
    using stale_command_loses_a_request by blast
  have "mb_command (w_mailbox s) = 1" by (rule stuck(1)) simp
  moreover have "\<not> (\<exists>t. wake_step\<^sup>*\<^sup>* s t \<and> (mb_command (w_mailbox t) = 0 \<or> w_aps t 2 = Running 0x2000))"
    using stuck by auto
  ultimately show ?thesis using s by auto
qed

end
