(* ===== verification/Cli.thy ===== *)
theory Cli
  imports Layout
begin

text \<open>
  src/src/main.rs: the command-line values. \<open>parse_size\<close> and \<open>parse_hole\<close> are the two value
  parsers the argument definitions name; clap itself (splitting the arguments, defaults) is
  third-party code and stays outside. The dispatch of \<open>run\<close> is in \<open>Program\<close>, where both builders
  are in scope.
\<close>

section \<open>Value parsers\<close>

definition checked_mul :: "u64 \<Rightarrow> u64 \<Rightarrow> u64 option" where
  "checked_mul a b = (if unat a * unat b < 2 ^ 64 then Some (a * b) else None)"

definition split_scale :: "rstr \<Rightarrow> rstr \<times> u64" where
  "split_scale text =
     (if text \<noteq> [] \<and> last text \<in> {75, 107} then (butlast text, push_bit 10 1)
      else if text \<noteq> [] \<and> last text \<in> {77, 109} then (butlast text, push_bit 20 1)
      else if text \<noteq> [] \<and> last text \<in> {71, 103} then (butlast text, push_bit 30 1)
      else (text, 1))"

definition parse_size :: "rstr \<Rightarrow> u64 result" where
  "parse_size text =
     (let (digits, scale) = split_scale (trim text);
          value = (case strip_0x digits of
                     Some hex \<Rightarrow> from_str_radix hex 16
                   | None \<Rightarrow> from_str_radix digits 10)
      in bind_result (map_sum (\<lambda>e. Cli (ParseInt e)) id value)
           (\<lambda>v. or_error (Cli SizeOverflows) (checked_mul v scale)))"

definition parse_hole :: "rstr \<Rightarrow> (u64 \<times> u64) result" where
  "parse_hole text =
     bind_result (or_error (Cli ExpectedBaseSize) (split_once 58 text)) (\<lambda>(b, n).
     bind_result (parse_size b) (\<lambda>b.
     bind_result (parse_size n) (\<lambda>n. Inr (b, n))))"

section \<open>What the parsers accept\<close>

text \<open>The ways to write a size: decimal or \<open>0x\<close> hexadecimal digits and an optional suffix.\<close>

datatype size_suffix = NoSuffix | Kilo bool | Mega bool | Giga bool

fun suffix_text :: "size_suffix \<Rightarrow> rstr" where
  "suffix_text NoSuffix = []"
| "suffix_text (Kilo upper) = [if upper then 75 else 107]"
| "suffix_text (Mega upper) = [if upper then 77 else 109]"
| "suffix_text (Giga upper) = [if upper then 71 else 103]"

fun suffix_scale :: "size_suffix \<Rightarrow> u64" where
  "suffix_scale NoSuffix = 1"
| "suffix_scale (Kilo upper) = 1024"
| "suffix_scale (Mega upper) = 1048576"
| "suffix_scale (Giga upper) = 1073741824"

definition number_text :: "bool \<Rightarrow> u64 \<Rightarrow> rstr" where
  "number_text hex v =
     (if hex then 48 # 120 # show_radix 16 (unat v) else show_radix 10 (unat v))"

definition size_text :: "bool \<Rightarrow> u64 \<Rightarrow> size_suffix \<Rightarrow> rstr" where
  "size_text hex v s = number_text hex v @ suffix_text s"

definition blank :: "rstr \<Rightarrow> bool" where
  "blank s \<longleftrightarrow> (\<forall>c\<in>set s. is_whitespace c)"

lemma trim_padded:
  assumes "blank l" "blank r" "s \<noteq> []" "\<forall>c\<in>set s. \<not> is_whitespace c"
  shows "trim (l @ s @ r) = s"
proof -
  have d: "dropWhile is_whitespace (a @ t @ b) = t @ b"
    if "blank a" "t \<noteq> []" "\<forall>c\<in>set t. \<not> is_whitespace c" for a t b
    using that by (cases t) (auto simp: dropWhile_append2 blank_def)
  have "dropWhile is_whitespace (rev (s @ r)) = rev s"
    using d [of "rev r" "rev s" "[]"] assms by (simp add: blank_def)
  with d [OF assms(1,3,4), of r] show ?thesis by (simp add: trim_def trim_start_def)
qed

lemma number_text_chars:
  assumes "c \<in> set (number_text hex v)"
  shows "\<not> is_whitespace c \<and> c \<noteq> 58 \<and> c \<notin> {75, 107, 77, 109, 71, 103}"
proof -
  have "\<not> is_whitespace (digit_char d) \<and> digit_char d \<noteq> 58 \<and>
      digit_char d \<notin> {75, 107, 77, 109, 71, 103}" if "d < 16" for d
    using that by (auto simp: is_whitespace_def digit_char_def)
  moreover have "c = 48 \<or> c = 120 \<or> (\<exists>d<16. c = digit_char d)"
  proof (cases hex)
    case True
    with assms show ?thesis
      using show_radix_digits [of 16 c "unat v"] by (auto simp: number_text_def)
  next
    case False
    with assms obtain d where "d < 10" "c = digit_char d"
      using show_radix_digits [of 10 c "unat v"] by (auto simp: number_text_def)
    then show ?thesis by (intro disjI2 exI [of _ d]) simp
  qed
  moreover have "\<not> is_whitespace 48 \<and> \<not> is_whitespace 120" by (simp add: is_whitespace_def)
  ultimately show ?thesis by (elim disjE exE conjE) simp_all
qed

lemma number_text_nonempty [simp]: "number_text hex v \<noteq> []"
  by (simp add: number_text_def)

lemma split_scale_size_text:
  "split_scale (size_text hex v s) = (number_text hex v, suffix_scale s)"
proof -
  have "last (number_text hex v) \<notin> {75, 107, 77, 109, 71, 103}"
    using number_text_chars last_in_set number_text_nonempty by blast
  then show ?thesis
    by (cases s) (auto simp: size_text_def split_scale_def push_bit_eq_mult)
qed

lemma number_text_value:
  "(case strip_0x (number_text hex v) of
      Some t \<Rightarrow> from_str_radix t 16 | None \<Rightarrow> from_str_radix (number_text hex v) 10) = Inr v"
proof (cases hex)
  case True
  then show ?thesis by (simp add: number_text_def from_str_radix_show)
next
  case False
  have "120 \<notin> set (show_radix 10 (unat v))"
    using show_radix_digits [of 10 120 "unat v"] by (auto simp: digit_char_def split: if_splits)
  then have "strip_0x (show_radix 10 (unat v)) = None"
    by (cases "show_radix 10 (unat v)" rule: strip_0x.cases) auto
  with False show ?thesis by (simp add: number_text_def from_str_radix_show)
qed

lemma parse_size_text:
  assumes "blank l" "blank r"
  shows "parse_size (l @ size_text hex v s @ r) =
    or_error (Cli SizeOverflows) (checked_mul v (suffix_scale s))"
proof -
  have "\<not> is_whitespace c" if "c \<in> set (suffix_text s)" for c
    using that by (cases s) (auto simp: is_whitespace_def split: if_splits)
  then have "\<forall>c\<in>set (size_text hex v s). \<not> is_whitespace c"
    using number_text_chars by (auto simp: size_text_def)
  with assms have "trim (l @ size_text hex v s @ r) = size_text hex v s"
    by (intro trim_padded) (simp_all add: size_text_def)
  then show ?thesis
    using number_text_value [of hex v]
    by (simp add: parse_size_def split_scale_size_text Let_def)
qed

text \<open>C38: a size written in decimal or hexadecimal, with any suffix and any surrounding
  whitespace, is read back as its value, and refused exactly when the scaled value needs more
  than 64 bits.\<close>

theorem parse_size_reads_back:
  assumes "blank l" "blank r"
  shows "parse_size (l @ size_text hex v s @ r) =
    (if unat v * unat (suffix_scale s) < 2 ^ 64 then Inr (v * suffix_scale s)
     else Inl (Cli SizeOverflows))"
  using assms by (simp add: parse_size_text checked_mul_def)

theorem parse_size_reads_back_witness:
  "parse_size (lit '' 0x3fG '') = Inr 0xfc0000000 \<and>
   parse_size (lit ''0xffffffffffffffffk'') = Inl (Cli SizeOverflows)"
proof -
  have "parse_size ([32] @ size_text True 0x3f (Giga True) @ [32]) = Inr 0xfc0000000"
    by (subst parse_size_reads_back)
      (simp_all add: blank_def is_whitespace_def)
  moreover have "parse_size ([] @ size_text True 0xffffffffffffffff (Kilo False) @ [])
      = Inl (Cli SizeOverflows)"
    by (subst parse_size_reads_back) (simp_all add: blank_def)
  ultimately show ?thesis
    by (simp add: size_text_def number_text_def show_radix.simps digit_char_def)
qed

text \<open>An aperture is written as two sizes around a colon, and both are read back.\<close>

theorem parse_hole_reads_back:
  assumes "checked_mul b (suffix_scale s) = Some base"
    and "checked_mul n (suffix_scale t) = Some len"
  shows "parse_hole (size_text hb b s @ 58 # size_text hn n t) = Inr (base, len)"
proof -
  have "58 \<notin> set (size_text hb b s)"
    using number_text_chars [of 58 hb b] by (cases s) (auto simp: size_text_def)
  then show ?thesis
    using parse_size_text [of "[]" "[]" hb b s] parse_size_text [of "[]" "[]" hn n t] assms
    by (simp add: parse_hole_def split_once_absent blank_def)
qed

theorem parse_hole_reads_back_witness:
  "parse_hole (lit ''0xfec00000:4M'') = Inr (0xfec00000, 0x400000)"
  using parse_hole_reads_back [of "0xfec00000" NoSuffix "0xfec00000" 4 "Mega True" "0x400000" True False]
  by (simp add: checked_mul_def size_text_def number_text_def show_radix.simps digit_char_def)

end
