(* ===== verification/Program.thy ===== *)
theory Program
  imports Snp_Shim Mailbox Cli
begin

text \<open>
  The program as a whole (src/src/main.rs): the parsed command, the dispatch of \<open>run\<close> to the two
  builders, and the exit status of \<open>main\<close>. The lemmas follow the error of every step, so that no
  input of a run ends in a panic.
\<close>

section \<open>The command line, parsed\<close>

record common =
  c_kernel :: rstr
  c_initramfs :: rstr
  c_output :: rstr
  c_ram :: u64
  c_cmdline :: rstr
  c_vcpus :: u32
  c_mmio_hole :: "(u64 \<times> u64) list"

datatype command =
  BuildTdx common "rstr option"
| BuildSnp common "rstr option" u8 "rstr option" u32

text \<open>The defaults of the argument declarations.\<close>

definition default_common :: "rstr \<Rightarrow> rstr \<Rightarrow> rstr \<Rightarrow> common" where
  "default_common kernel_path initramfs_path output_path =
     \<lparr>c_kernel = kernel_path, c_initramfs = initramfs_path, c_output = output_path, c_ram = DEFAULT_RAM,
      c_cmdline = [], c_vcpus = DEFAULT_VCPUS, c_mmio_hole = []\<rparr>"

definition run :: "('f, 'k) externs \<Rightarrow> command \<Rightarrow> unit io" where
  "run ex command = (case command of
       BuildTdx common config_hash \<Rightarrow>
         io_bind (io_lift (tdx_params (c_ram common) (c_vcpus common) (c_cmdline common)
           (c_mmio_hole common))) (\<lambda>params.
         build_tdx ex (c_kernel common) (c_initramfs common) (c_output common) params config_hash)
     | BuildSnp common config_hash cbit id_key guest_svn \<Rightarrow>
         io_bind (io_lift (snp_params (c_ram common) (c_vcpus common) cbit (c_cmdline common)
           (c_mmio_hole common))) (\<lambda>params.
         build_snp ex (c_kernel common) (c_initramfs common) (c_output common) params config_hash
           id_key guest_svn))"

text \<open>\<open>main\<close>: status 2 on an error it reports; a panic ends a Rust program with status 101.\<close>

definition main_status :: "('f, 'k) externs \<Rightarrow> command \<Rightarrow> fs \<Rightarrow> nat \<times> fs" where
  "main_status ex command s = (case run ex command s of
       (Inr _, s') \<Rightarrow> (0, s')
     | (Inl Panic, s') \<Rightarrow> (101, s')
     | (Inl _, s') \<Rightarrow> (2, s'))"

section \<open>No step panics\<close>

definition no_panic :: "'a result \<Rightarrow> bool" where
  "no_panic r \<longleftrightarrow> r \<noteq> Inl Panic"

named_theorems no_panic_intros \<open>steps that do not panic\<close>

lemma no_panic_bind [no_panic_intros]:
  "no_panic m \<Longrightarrow> (\<And>x. m = Inr x \<Longrightarrow> no_panic (f x)) \<Longrightarrow> no_panic (bind_result m f)"
  by (auto simp: no_panic_def bind_result_Inl_conv)

lemma no_panic_basic [no_panic_intros]:
  "no_panic (Inr x)" "no_panic (extern_result w r)" "no_panic (or_panic (Some y))"
  by (cases r; simp add: no_panic_def)+

lemma no_panic_or_error: "e \<noteq> Panic \<Longrightarrow> no_panic (or_error e found)"
  by (cases found) (simp_all add: no_panic_def)

lemma no_panic_map_result [no_panic_intros]:
  "(\<And>x. no_panic (f x)) \<Longrightarrow> no_panic (map_result f xs)"
  by (induction xs) (auto intro: no_panic_intros)

lemma no_panic_fill_region [no_panic_intros]: "no_panic (fill_region ps b data)"
  by (induction ps b data rule: fill_region.induct)
    (auto simp: no_panic_def Let_def bind_result_Inl_conv)

lemma no_panic_check_overlap: "no_panic (check_overlap ws)"
  by (induction ws rule: check_overlap.induct) (auto simp: no_panic_def)

lemma no_panic_check_regions: "no_panic (check_regions ps memory)"
  by (induction ps memory rule: check_regions.induct) (auto simp: no_panic_def)

lemma no_panic_validate [no_panic_intros]: "no_panic (validate ps memory)"
  by (auto simp: validate_def intro!: no_panic_intros no_panic_check_overlap no_panic_check_regions)

lemma no_panic_zero_page [no_panic_intros]:
  assumes "0x290 \<le> length setup"
  shows "no_panic (zero_page setup info il rsdp emap sd)"
proof (cases "length emap \<le> 128")
  case True
  then show ?thesis using zero_page_eq [OF assms True] by (simp add: no_panic_def)
next
  case False
  then show ?thesis using zero_page_too_long [of emap] by (simp add: no_panic_def)
qed

lemma no_panic_shim [no_panic_intros]:
  assumes "length blob = 4096"
  shows "no_panic (shim blob entry rs)"
proof -
  have "unat SHIM_DATA = 0xc00" "unat SHIM_DATA_SIZE = 1008"
    by (simp_all add: SHIM_DATA_def SHIM_DATA_SIZE_def RESET_VECTOR_def PAGE_def)
  then show ?thesis using assms by (auto simp: no_panic_def shim_def Let_def peek_in_bounds)
qed

lemma no_panic_shim_owned [no_panic_intros]: "no_panic (shim_owned ps)"
  by (simp add: no_panic_def shim_owned_def Let_def)

lemma no_panic_launch_pages [no_panic_intros]: "no_panic (launch_pages ps)"
  by (induction ps rule: launch_pages.induct)
    (auto simp: no_panic_def bind_result_Inl_conv split: fill.splits)

lemma no_panic_config_field [no_panic_intros]: "no_panic (config_field h n)"
  by (auto simp: no_panic_def config_field_def Let_def split: option.splits)

lemma no_panic_parse_bzimage [no_panic_intros]: "no_panic (parse_bzimage bz)"
proof (cases "SETUP_HEADER_MIN \<le> length bz")
  case True
  then show ?thesis by (simp add: no_panic_def parse_bzimage_long)
next
  case False
  then show ?thesis by (simp add: no_panic_def parse_bzimage_def)
qed

lemma no_panic_prepare_inputs [no_panic_intros]: "no_panic (prepare_inputs kf ir params)"
proof (cases "parse_bzimage kf")
  case (Inl e)
  then show ?thesis
    using no_panic_parse_bzimage [of kf] by (simp add: prepare_inputs_def no_panic_def)
next
  case (Inr info)
  then have b: "bootable kf" "info = info_of kf" by (simp_all add: parse_bzimage_Inr_iff)
  then have "ki_setup_bytes info + 512 < length kf" "ki_setup_bytes info \<le> 131072"
    using setup_bytes_bounds [of "hdr8 HDR_SETUP_SECTS kf"]
    by (simp_all add: bootable_def info_of_def ENTRY_64_OFFSET_def)
  then show ?thesis
    using Inr by (simp add: prepare_inputs_def no_panic_def slice_from_def peek_def
        prepare_checks_def Let_def KERNEL_SETUP_AREA_SIZE_def bind_result_Inl_conv)
qed

text \<open>
  What the builders rely on from the crates for their slice copies: a 48-byte digest, a VMSA
  that fits a page, P-384 values that fit the 72-byte components, and shim pages of one page.
\<close>

definition crate_bounds :: "('f, 'k) externs \<Rightarrow> bool" where
  "crate_bounds ex \<longleftrightarrow>
     (\<forall>x. length (ex_sha384 ex x) = 48) \<and> (\<forall>v. length (ex_vmsa_bytes ex v) \<le> unat PAGE) \<and>
     (\<forall>k x. fst (ex_point ex k) = Some x \<longrightarrow> length x \<le> ECDSA_COMPONENT_LEN) \<and>
     (\<forall>k y. snd (ex_point ex k) = Some y \<longrightarrow> length y \<le> ECDSA_COMPONENT_LEN) \<and>
     (\<forall>k b. length b = ID_BLOCK_LEN \<longrightarrow>
        length (fst (ex_sign ex k b)) \<le> ECDSA_COMPONENT_LEN \<and>
        length (snd (ex_sign ex k b)) \<le> ECDSA_COMPONENT_LEN) \<and>
     length (ex_reset_shim ex) = unat PAGE \<and> length (ex_snp_shim ex) = unat PAGE"

lemma no_panic_if [no_panic_intros]:
  "(b \<Longrightarrow> no_panic x) \<Longrightarrow> (\<not> b \<Longrightarrow> no_panic y) \<Longrightarrow> no_panic (if b then x else y)"
  by simp

lemma no_panic_Inl [no_panic_intros]: "e \<noteq> Panic \<Longrightarrow> no_panic (Inl e)"
  by (simp add: no_panic_def)

subsection \<open>The TDX builder\<close>

lemma no_panic_tdx_place [no_panic_intros]:
  assumes "p_vcpus params \<le> MAX_VCPUS" "length (pr_setup p) = 0x2f000" "crate_bounds ex"
  shows "no_panic (tdx_place ex params p)"
proof -
  obtain acpi tables stack where "tdx_measured_parts params acpi tables stack"
    using tdx_measured_parts_exist [OF assms(1)] .
  then have eqs: "acpi_build (p_vcpus params) True = Some acpi"
    "identity_map 0 False = Some tables" "gdt_stack = Some stack"
    by (simp_all add: tdx_measured_parts_def)
  have "length (ex_reset_shim ex) = 4096" using assms(3) by (simp add: crate_bounds_def)
  then show ?thesis
    unfolding tdx_place_def eqs Let_def by (intro no_panic_intros) (simp_all add: assms(2))
qed

lemma no_panic_measured_page: "no_panic (measured_page d)"
  by (cases d rule: measured_page.cases) (simp_all add: no_panic_def)

lemma no_panic_tdx_file [no_panic_intros]: "no_panic (tdx_file ex placed)"
proof -
  have mrtd: "no_panic (or_panic (mrtd_calculate (ex_sha384 ex) pgs))" if "launch_pages placed = Inr pgs" for pgs
    using launch_pages_addresses [OF that] mrtd_stream_eq [of pgs]
    by (simp add: no_panic_def mrtd_calculate_def)
  then show ?thesis
    unfolding tdx_file_def igvm_def igvm_pages_def Let_def
    by (intro no_panic_intros no_panic_measured_page mrtd) simp_all
qed

subsection \<open>The SNP builder\<close>

lemma no_panic_snp_place [no_panic_intros]:
  assumes "p_vcpus params \<le> MAX_VCPUS" "length (pr_setup p) = 0x2f000" "crate_bounds ex"
  shows "no_panic (snp_place ex params p)"
proof -
  obtain acpi where acpi: "acpi_build (p_vcpus params) False = Some acpi"
    using acpi_build_ok [OF assms(1)] by blast
  obtain blob tables stack where eqs: "cc_blob = Some blob"
    "identity_map (ucast (p_cbit params)) True = Some tables" "gdt_stack = Some stack"
    using cc_blob_length identity_map_entries [of "ucast (p_cbit params)" True] gdt_stack_contents
    by blast
  have "length (ex_snp_shim ex) = 4096" using assms(3) by (simp add: crate_bounds_def)
  then show ?thesis
    unfolding snp_place_def acpi eqs Let_def by (intro no_panic_intros) (simp_all add: assms(2))
qed

lemma no_panic_check_pages: "no_panic (check_pages ws)"
  by (induction ws rule: check_pages.induct) (simp_all add: no_panic_def)

lemma no_panic_vmsa [no_panic_intros]: "no_panic (validate_vmsa v rip rsp rsi)"
  by (simp add: validate_vmsa_def no_panic_def)

lemma no_panic_snp_measured [no_panic_intros]:
  assumes "crate_bounds ex"
  shows "no_panic (snp_measured ex params placed)"
proof -
  have h: "\<forall>x. length (ex_sha384 ex x) = 48" and v: "\<forall>v. length (ex_vmsa_bytes ex v) \<le> 4096"
    using assms by (simp_all add: crate_bounds_def)
  have vm: "no_panic (or_panic (vmsa_page ex v))" for v
    using v by (simp add: vmsa_page_def poke_def no_panic_def)
  show ?thesis
    unfolding snp_measured_def Let_def validate_pages_def launch_measurement_run [OF h]
    by (intro no_panic_intros no_panic_check_pages vm)
qed

lemma no_panic_id_block [no_panic_intros]:
  assumes "crate_bounds ex" "length ld = 48"
  shows "no_panic (id_block ex pem ld svn)"
proof -
  have le: "no_panic (or_panic (le72 be))" if "length be \<le> 72" for be
    using that by (simp add: le72_eq no_panic_def)
  have l: "length v = 72" if "le72 be = Some v" for be v
    using that by (auto simp: le72_eq split: if_splits)
  have block: "no_panic (or_panic (id_block_bytes ld svn))"
    using assms(2) by (simp add: id_block_bytes_def layout_consts no_panic_def)
  have bl: "length block = ID_BLOCK_LEN" if "id_block_bytes ld svn = Some block" for block
    using that assms(2) by (auto simp: id_block_bytes_def layout_consts)
  have key: "no_panic (or_panic (key_digest h \<lparr>pk_curve = c, pk_qx = qx, pk_qy = qy\<rparr>))"
    if "length qx = 72" "length qy = 72" for h c qx qy
    using key_digest_Some [of "\<lparr>pk_curve = c, pk_qx = qx, pk_qy = qy\<rparr>" h] that
    by (auto simp: no_panic_def)
  note b = assms(1) [unfolded crate_bounds_def ECDSA_COMPONENT_LEN_def]
  have or_Some: "or_error e o' = Inr x \<longleftrightarrow> o' = Some x" for e :: error and o' and x :: bytes
    by (cases o') auto
  show ?thesis
    unfolding id_block_def Let_def split_def
    by (intro no_panic_intros block le key no_panic_or_error) (use b in \<open>auto simp: or_Some dest: l bl\<close>)
qed

lemma no_panic_snp_file [no_panic_intros]: "no_panic (snp_file ex ds)"
  unfolding snp_file_def by (intro no_panic_intros)

subsection \<open>Computations on files\<close>

text \<open>
  A computation that never panics, and the paths it may change: on any outcome, and on failure,
  where a path outside the set changes only when the system cuts its write short.
\<close>

definition io_safe :: "'a io \<Rightarrow> bool" where
  "io_safe m \<longleftrightarrow> (\<forall>s. no_panic (fst (m s)))"

definition changes :: "rstr set \<Rightarrow> 'a io \<Rightarrow> bool" where
  "changes P m \<longleftrightarrow> (\<forall>s. fs_write_error (snd (m s)) = fs_write_error s \<and>
     (\<forall>path. path \<notin> P \<longrightarrow> fs_files (snd (m s)) path = fs_files s path))"

definition cut_short :: "fs \<Rightarrow> rstr \<Rightarrow> bool" where
  "cut_short s path \<longleftrightarrow> (\<exists>msg n. fs_write_error s path = Some (msg, Some n))"

definition fails_within :: "rstr set \<Rightarrow> 'a io \<Rightarrow> bool" where
  "fails_within P m \<longleftrightarrow>
     (\<forall>s e s' path. m s = (Inl e, s') \<longrightarrow> path \<notin> P \<longrightarrow> \<not> cut_short s path \<longrightarrow>
       fs_files s' path = fs_files s path)"

named_theorems io_intros \<open>files a computation reads and writes\<close>

lemma io_safe_bind [io_intros]:
  "io_safe m \<Longrightarrow> (\<And>x s s'. m s = (Inr x, s') \<Longrightarrow> io_safe (f x)) \<Longrightarrow> io_safe (io_bind m f)"
  by (auto simp: io_safe_def io_bind_def no_panic_def split: prod.splits sum.splits)
    (metis fst_conv)+

lemma changes_bind [io_intros]:
  "changes P m \<Longrightarrow> (\<And>x. changes P (f x)) \<Longrightarrow> changes P (io_bind m f)"
  by (auto simp: changes_def io_bind_def split: prod.splits sum.splits) (metis snd_conv)+

lemma fails_within_bind [io_intros]:
  "changes P m \<Longrightarrow> (\<And>x. fails_within P (f x)) \<Longrightarrow> fails_within P (io_bind m f)"
  unfolding fails_within_def changes_def io_bind_Inl_conv cut_short_def by (metis snd_conv)

lemma io_lift_rules [io_intros]:
  "no_panic r \<Longrightarrow> io_safe (io_lift r)" "changes P (io_lift r)" "fails_within P (io_lift r)"
  by (simp_all add: io_safe_def changes_def fails_within_def io_lift_def)

lemma io_return_rules [io_intros]:
  "io_safe (io_return x)" "changes P (io_return x)" "fails_within P (io_return x)"
  by (simp_all add: io_safe_def changes_def fails_within_def io_return_def no_panic_def)

lemma fs_read_rules [io_intros]: "io_safe (fs_read action path)" "changes P (fs_read action path)"
proof -
  have "no_panic (map_sum (io_error action) id r)" for r :: "string + bytes"
    by (cases r) (simp_all add: no_panic_def io_error_def)
  then show "io_safe (fs_read action path)" by (simp add: io_safe_def fs_read_def)
qed (simp add: changes_def fs_read_def)

lemma fs_write_rules [io_intros]:
  "io_safe (fs_write action path data)" "path \<in> P \<Longrightarrow> changes P (fs_write action path data)"
  "fails_within P (fs_write action path data)"
  by (auto simp: io_safe_def changes_def fails_within_def fs_write_def no_panic_def io_error_def
      cut_short_def split: option.splits)

lemma fs_read_to_string_rules [io_intros]:
  "io_safe (fs_read_to_string action path)" "changes P (fs_read_to_string action path)"
  unfolding fs_read_to_string_def
  by (intro io_intros no_panic_or_error; simp add: io_error_def)+

lemma prepare_rules [io_intros]:
  "io_safe (prepare kp ip params)" "changes P (prepare kp ip params)"
  unfolding prepare_def by (intro io_intros no_panic_intros)+

lemma write_manifest_rules [io_intros]:
  "io_safe (write_manifest out json)"
  "manifest_path out \<in> P \<Longrightarrow> changes P (write_manifest out json)"
  "fails_within P (write_manifest out json)"
proof -
  show "io_safe (write_manifest out json)"
    unfolding write_manifest_def by (intro io_intros no_panic_intros)
  show "changes P (write_manifest out json)" if "manifest_path out \<in> P"
    using that unfolding write_manifest_def manifest_path_def by (intro io_intros)
  show "fails_within P (write_manifest out json)"
    by (auto simp: fails_within_def write_cut_def cut_short_def dest!: write_manifest_Inl)
qed

lemma snp_sign_rules [io_intros]:
  "changes P (snp_sign ex id_key ld svn)"
  "crate_bounds ex \<Longrightarrow> length ld = 48 \<Longrightarrow> io_safe (snp_sign ex id_key ld svn)"
  unfolding snp_sign_def split_def
  by (cases id_key; simp only: option.case; intro io_intros no_panic_intros; assumption?)+

lemma prepare_setup_length:
  "prepare kp ip params s = (Inr p, s') \<Longrightarrow> length (pr_setup p) = 0x2f000"
  by (auto simp: prepare_Inr_conv dest: prepare_inputs_shape)

lemma build_tdx_rules [io_intros]:
  "p_vcpus params \<le> MAX_VCPUS \<Longrightarrow> crate_bounds ex \<Longrightarrow> io_safe (build_tdx ex kp ip out params h)"
  "out \<in> P \<Longrightarrow> manifest_path out \<in> P \<Longrightarrow> changes P (build_tdx ex kp ip out params h)"
  "out \<in> P \<Longrightarrow> fails_within P (build_tdx ex kp ip out params h)"
  unfolding build_tdx_steps split_def
  by (intro io_intros no_panic_intros; (assumption | erule prepare_setup_length))+

lemma snp_measured_digest:
  assumes "crate_bounds ex" "snp_measured ex params ps = Inr (pgs, vmsa, ap, ld)"
  shows "length ld = 48"
  using snp_chain_length [OF _ snp_measured_Inr(3) [OF assms(2)]] assms(1)
  by (simp add: crate_bounds_def)

lemma build_snp_rules [io_intros]:
  "p_vcpus params \<le> MAX_VCPUS \<Longrightarrow> crate_bounds ex \<Longrightarrow>
     io_safe (build_snp ex kp ip out params h key svn)"
  "out \<in> P \<Longrightarrow> manifest_path out \<in> P \<Longrightarrow> changes P (build_snp ex kp ip out params h key svn)"
  "out \<in> P \<Longrightarrow> fails_within P (build_snp ex kp ip out params h key svn)"
proof -
  have refused: "build_snp ex kp ip out params h key svn = io_lift (Inl (Snp SvnNeedsKey))"
    if "\<not> (svn = 0 \<or> key \<noteq> None)"
    using that by (simp add: build_snp_def)
  have r: "no_panic (Inl (Snp SvnNeedsKey))" by (simp add: no_panic_def)
  have ld: "length ld = 48"
    if "crate_bounds ex" "io_lift (snp_measured ex params ps) s = (Inr (pgs, vmsa, ap, ld), s')"
    for ps s pgs vmsa ap ld s'
    using that(2) by (auto intro: snp_measured_digest [OF that(1)] dest: sym)
  show "io_safe (build_snp ex kp ip out params h key svn)"
    if a: "p_vcpus params \<le> MAX_VCPUS" "crate_bounds ex"
  proof (cases "svn = 0 \<or> key \<noteq> None")
    case True
    have ld': "length (snd (snd (snd x))) = 48"
      if "io_lift (snp_measured ex params ps) s = (Inr x, s')" for ps s x s'
      using that ld [OF a(2)] by (cases x) auto
    show ?thesis
      unfolding build_snp_steps [OF True] split_def
      by (intro io_intros no_panic_intros a; (rule ld', assumption | erule prepare_setup_length))
  next
    case False
    show ?thesis unfolding refused [OF False] by (intro io_intros r)
  qed
  show "changes P (build_snp ex kp ip out params h key svn)"
    if "out \<in> P" "manifest_path out \<in> P"
  proof (cases "svn = 0 \<or> key \<noteq> None")
    case True
    show ?thesis using that unfolding build_snp_steps [OF True] split_def by (intro io_intros)
  qed (subst refused, assumption, intro io_intros)
  show "fails_within P (build_snp ex kp ip out params h key svn)" if "out \<in> P"
  proof (cases "svn = 0 \<or> key \<noteq> None")
    case True
    show ?thesis using that unfolding build_snp_steps [OF True] split_def by (intro io_intros)
  qed (subst refused, assumption, intro io_intros)
qed

section \<open>Every run\<close>

fun common_of :: "command \<Rightarrow> common" where
  "common_of (BuildTdx c h) = c"
| "common_of (BuildSnp c h cbit key svn) = c"

lemma run_rules:
  assumes "crate_bounds ex" "out = c_output (common_of cmd)"
  shows "io_safe (run ex cmd)" "changes {out, manifest_path out} (run ex cmd)"
    "fails_within {out} (run ex cmd)"
proof -
  have p: "no_panic (new_params ram vcpus cmdline cbit mmio e)" for ram vcpus cmdline cbit mmio e
  proof -
    have "no_panic (check_holes m hs)" for m hs
      by (induction m hs rule: check_holes.induct) (simp_all add: no_panic_def)
    then show ?thesis unfolding new_params_def Let_def by (intro no_panic_intros) simp_all
  qed
  have v: "p_vcpus params \<le> MAX_VCPUS"
    if "new_params ram vcpus cmdline cbit mmio e = Inr params" for ram vcpus cmdline cbit mmio e params
    using that by (elim new_paramsE) simp
  show "io_safe (run ex cmd)"
    unfolding run_def tdx_params_def snp_params_def
    by (cases cmd; simp only: command.case; intro io_intros p assms(1); auto dest: v [OF sym])
  show "changes {out, manifest_path out} (run ex cmd)" "fails_within {out} (run ex cmd)"
    unfolding run_def assms(2)
    by (cases cmd; simp only: command.case common_of.simps; intro io_intros; simp)+
qed

text \<open>C9: no run of the program panics, whatever its arguments and input files: with crates that
  keep to their documented sizes it exits with status 0 or 2. It changes no file but the image
  and the manifest beside it, and when it exits with 2 no file but the image, unless the system
  failed in the middle of writing the manifest.\<close>

theorem program_never_panics:
  assumes "crate_bounds ex" "main_status ex cmd s = (status, s')"
  shows "(status = 0 \<or> status = 2) \<and>
    (\<forall>path. path \<noteq> c_output (common_of cmd) \<longrightarrow>
       path \<noteq> manifest_path (c_output (common_of cmd)) \<or> status = 2 \<and> \<not> cut_short s path \<longrightarrow>
       fs_files s' path = fs_files s path)"
proof -
  note rr = run_rules [OF assms(1) refl, of cmd]
  show ?thesis
  proof (cases "run ex cmd s")
    case (Pair r s1)
    have others: "fs_files s1 path = fs_files s path"
      if "path \<noteq> c_output (common_of cmd)" "path \<noteq> manifest_path (c_output (common_of cmd))" for path
      using rr(2) Pair that unfolding changes_def by (metis insertE emptyE snd_conv)
    show ?thesis
    proof (cases r)
      case (Inl e)
      with Pair rr(1) have "e \<noteq> Panic" by (auto simp: io_safe_def no_panic_def dest: spec [of _ s])
      then have "status = 2" "s' = s1"
        using assms(2) Pair Inl by (cases e; simp add: main_status_def)+
      then show ?thesis using rr(3) others Pair Inl unfolding fails_within_def by blast
    next
      case (Inr u)
      then have "status = 0" "s' = s1" using assms(2) Pair by (simp_all add: main_status_def)
      then show ?thesis using others by simp
    qed
  qed
qed

theorem program_never_panics_witness:
  "\<exists>s'. main_status demo_externs (BuildTdx (default_common (lit ''k'') (lit ''i'') (lit ''o'')) None)
     demo_fs = (0, s') \<and> fs_files s' (lit ''k'') = Inr test_kernel"
proof -
  let ?c = "BuildTdx (default_common (lit ''k'') (lit ''i'') (lit ''o'')) None"
  obtain s' where s': "main_status demo_externs ?c demo_fs = (0, s')"
    using demo_build default_params by (auto simp: main_status_def run_def default_common_def io_bind_def io_lift_def)
  have "crate_bounds demo_externs"
    by (simp add: crate_bounds_def demo_externs_def layout_consts min_def)
  from program_never_panics [OF this s'] demo_facts(1) have "fs_files s' (lit ''k'') = Inr test_kernel"
    by (simp add: default_common_def manifest_path_def)
  with s' show ?thesis by blast
qed

end
