(* ===== verification/Apertures.thy ===== *)
theory Apertures
  imports Tdx_Publish Snp_Properties
begin

text \<open>
  Which apertures a build takes: whatever the user declares with \<open>--mmio-hole\<close>, the builder
  succeeds exactly when no aperture, the machine's own included, meets a region of the image or
  another aperture, and otherwise refuses the placement before it has written anything.
\<close>

section \<open>Well-placed maps in parts\<close>

definition apart :: "u64 \<times> u64 \<Rightarrow> u64 \<times> u64 \<Rightarrow> bool" where
  "apart r q \<longleftrightarrow> (case (r, q) of ((lo, hi), (lo', hi')) \<Rightarrow> hi \<le> lo' \<or> hi' \<le> lo)"

definition extent :: "placed \<Rightarrow> u64 \<times> u64" where
  "extent p = (pl_base p, region_end p)"

lemma well_placed_append:
  assumes "proper (xs @ ys)"
  shows "well_placed (xs @ ys) memory \<longleftrightarrow>
    well_placed xs memory \<and> well_placed ys memory \<and>
    (\<forall>x\<in>set xs. \<forall>y\<in>set ys. apart (extent x) (extent y))"
proof -
  have pos: "pl_base x < region_end x" if "x \<in> set xs \<union> set ys" for x
    using assms that by (auto simp: proper_def)
  have meet: "pl_base x \<noteq> pl_base y \<and> (pl_base x < pl_base y \<longrightarrow> region_end x \<le> pl_base y) \<and>
      (pl_base y < pl_base x \<longrightarrow> region_end y \<le> pl_base x) \<longleftrightarrow> apart (extent x) (extent y)"
    if "x \<in> set xs" "y \<in> set ys" for x y
    using pos [of x] pos [of y] that
    by (auto simp: apart_def extent_def dest: order.strict_trans1 order.strict_trans2 leD)
  have "well_placed (xs @ ys) memory \<longleftrightarrow> well_placed xs memory \<and> well_placed ys memory \<and>
      (\<forall>x\<in>set xs. \<forall>y\<in>set ys. pl_base x \<noteq> pl_base y \<and>
         (pl_base x < pl_base y \<longrightarrow> region_end x \<le> pl_base y) \<and>
         (pl_base y < pl_base x \<longrightarrow> region_end y \<le> pl_base x))"
    unfolding well_placed_def by (auto simp: image_iff)
  with meet show ?thesis by blast
qed

text \<open>The apertures on their own.\<close>

fun all_apart :: "(u64 \<times> u64) list \<Rightarrow> bool" where
  "all_apart [] \<longleftrightarrow> True"
| "all_apart ((b, n) # hs) \<longleftrightarrow>
     (\<forall>(b', n')\<in>set hs. apart (b, b + n) (b', b' + n')) \<and> all_apart hs"

abbreviation apertures_of :: "(u64 \<times> u64) list \<Rightarrow> placed list" where
  "apertures_of hs \<equiv> map (\<lambda>(b, n). placed_mmio b n) hs"

lemma extent_mmio [simp]: "extent (placed_mmio b n) = (b, b + n)"
  by (simp add: extent_def region_end_def)

lemma extent_aperture [simp]:
  "extent (case h of (b, n) \<Rightarrow> placed_mmio b n) = (fst h, fst h + snd h)"
  by (cases h) simp

lemma ball_pairs: "(\<forall>x\<in>set hs. P (fst x, fst x + snd x)) \<longleftrightarrow> (\<forall>(b, n)\<in>set hs. P (b, b + n))"
  by auto

lemma well_placed_apertures:
  assumes "\<forall>(b, n)\<in>set hs. b < b + n" "check_holes memory hs = Inr ()"
  shows "well_placed (apertures_of hs) memory \<longleftrightarrow> all_apart hs"
  using assms
proof (induction hs rule: all_apart.induct)
  case 1
  then show ?case by (simp add: well_placed_def)
next
  case (2 b n hs)
  have p: "proper ([placed_mmio b n] @ apertures_of hs)"
    using "2.prems"(1) by (auto simp: proper_def region_end_def)
  have ok: "b < b + n" "b + n \<le> memory" "is_multiple_of b PAGE" "check_holes memory hs = Inr ()"
    using "2.prems" unfolding check_holes_Inr_iff by auto
  then have "b < memory" by (simp only: order.strict_trans2)
  with ok(3) have "well_placed [placed_mmio b n] memory" by (simp add: well_placed_def)
  then show ?case
    using well_placed_append [OF p, of memory] "2.IH" "2.prems"(1) ok(4)
    by (simp add: ball_pairs conj_commute)
qed

text \<open>No aperture meets a region of the image or another one.\<close>

definition apertures_clear :: "(u64 \<times> u64) list \<Rightarrow> (u64 \<times> u64) list \<Rightarrow> bool" where
  "apertures_clear regions hs \<longleftrightarrow>
     (\<forall>r\<in>set regions. \<forall>(b, n)\<in>set hs. apart r (b, b + n)) \<and> all_apart hs"

lemma map_with_apertures:
  assumes "proper (img @ apertures_of hs)" "well_placed img memory"
    "\<forall>(b, n)\<in>set hs. b < b + n" "check_holes memory hs = Inr ()"
  shows "well_placed (img @ apertures_of hs) memory \<longleftrightarrow> apertures_clear (map extent img) hs"
  unfolding well_placed_append [OF assms(1)] well_placed_apertures [OF assms(3,4)]
    apertures_clear_def
  using assms(2) by (simp add: ball_pairs conj_commute)

section \<open>The two images\<close>

definition page_at :: "u64 \<Rightarrow> u64 \<times> u64" where
  "page_at b = (b, b + PAGE)"

definition contents_at :: "u64 \<Rightarrow> bytes \<Rightarrow> u64 \<times> u64" where
  "contents_at b d = (b, b + fill_span (Measured d))"

definition tdx_image :: "prepared \<Rightarrow> (u64 \<times> u64) list" where
  "tdx_image p =
     [page_at ZERO_PAGE, page_at CMDLINE, page_at ACPI_BASE, page_at MAILBOX,
      (PAGE_TABLES, PAGE_TABLES + 2 * PAGE), (BSP_STACK, BSP_STACK + BSP_STACK_SIZE),
      (KERNEL_SETUP_BASE, KERNEL_SETUP_BASE + 0x2f000),
      contents_at KERNEL_BASE (pr_kernel p), contents_at INITRAMFS_BASE (pr_initramfs p),
      page_at RESET_ALIAS]"

definition snp_image :: "prepared \<Rightarrow> (u64 \<times> u64) list" where
  "snp_image p =
     [page_at ZERO_PAGE, page_at CMDLINE, page_at ACPI_BASE, page_at SNP_CPUID, page_at SNP_SECRETS,
      page_at SNP_CC_BLOB, (PAGE_TABLES, PAGE_TABLES + 3 * PAGE), (BSP_STACK, BSP_STACK + BSP_STACK_SIZE),
      page_at SNP_GHCB, page_at SHIM_BASE, (KERNEL_SETUP_BASE, KERNEL_SETUP_BASE + 0x2f000),
      contents_at KERNEL_BASE (pr_kernel p), contents_at INITRAMFS_BASE (pr_initramfs p)]"

lemma extent_measured [simp]: "extent (placed_measured b name k d) = contents_at b d"
  by (simp add: extent_def region_end_def contents_at_def)

lemma extent_host [simp]: "extent (placed_host b) = page_at b"
  by (simp add: extent_def region_end_def page_at_def placed_host_def span_def fill_span_def)

lemma contents_at_sizes:
  "length d = 4096 \<Longrightarrow> contents_at b d = page_at b"
  "length d = 8192 \<Longrightarrow> contents_at b d = (b, b + 2 * PAGE)"
  "length d = 12288 \<Longrightarrow> contents_at b d = (b, b + 3 * PAGE)"
  "length d = 65536 \<Longrightarrow> contents_at b d = (b, b + BSP_STACK_SIZE)"
  "length d = 0x2f000 \<Longrightarrow> contents_at b d = (b, b + 0x2f000)"
  by (simp_all add: contents_at_def page_at_def fill_span_def align_up_def div_ceil_def layout_consts)

lemma image_without_apertures:
  "tdx_finished params p acpi tables stack zero page =
     tdx_finished (params\<lparr>p_mmio := []\<rparr>) p acpi tables stack zero page @ apertures_of (p_mmio params)"
  "snp_finished params p acpi blob tables stack zero page =
     snp_finished (params\<lparr>p_mmio := []\<rparr>) p acpi blob tables stack zero page @ apertures_of (p_mmio params)"
  by (simp_all add: tdx_finished_def snp_finished_def)

lemma image_extents:
  "length (pr_setup p) = 0x2f000 \<Longrightarrow> length (pr_command p) = 4096 \<Longrightarrow>
   fixed_parts acpi tables stack zero page \<Longrightarrow>
   map extent (tdx_finished (params\<lparr>p_mmio := []\<rparr>) p acpi tables stack zero page) = tdx_image p"
  "length (pr_setup p) = 0x2f000 \<Longrightarrow> length (pr_command p) = 4096 \<Longrightarrow>
   snp_fixed_parts acpi blob tables stack zero page \<Longrightarrow>
   map extent (snp_finished (params\<lparr>p_mmio := []\<rparr>) p acpi blob tables stack zero page) = snp_image p"
  by (simp_all add: tdx_finished_def snp_finished_def tdx_image_def snp_image_def contents_at_sizes
      fixed_parts_def snp_fixed_parts_def)

text \<open>The inputs \<open>prepare\<close> takes fit an image without apertures.\<close>

lemma prepare_ignores_apertures:
  "prepare_inputs kf ir (params\<lparr>p_mmio := hs\<rparr>) = prepare_inputs kf ir params"
  by (simp add: prepare_inputs_def prepare_checks_def Let_def cong: if_cong)

lemma prepared_image_fits:
  assumes "prepare_inputs kf ir params = Inr p" "vec_len_ok kf" "vec_len_ok ir"
    "INITRAMFS_BASE < p_memory params" "is_multiple_of (p_memory params) PAGE"
    "length (utf8 (p_cmdline params)) < 0xffffffff"
  shows "contents_fit (params\<lparr>p_mmio := []\<rparr>) p"
proof -
  have "prepare_inputs kf ir (params\<lparr>p_mmio := []\<rparr>) = Inr p"
    using assms(1) by (simp only: prepare_ignores_apertures)
  from prepared_contents_fit [OF this assms(2,3)] assms(4-6) show ?thesis by simp
qed

lemma sized_mmio: "sized (params\<lparr>p_mmio := hs\<rparr>) p \<longleftrightarrow> sized params p"
  by (simp add: sized_def)

lemma tdx_map_accepted:
  assumes "sized params p" "fixed_parts acpi tables stack zero page" "apertures_ok params"
    "contents_fit (params\<lparr>p_mmio := []\<rparr>) p"
    "check_holes (p_memory params) (p_mmio params) = Inr ()"
  shows "well_placed (tdx_finished params p acpi tables stack zero page) (p_memory params) \<longleftrightarrow>
    apertures_clear (tdx_image p) (p_mmio params)"
proof -
  let ?q = "params\<lparr>p_mmio := []\<rparr>"
  have "well_placed (tdx_finished ?q p acpi tables stack zero page) (p_memory ?q)"
    using assms(1) by (intro tdx_well_placed assms(2,4)) (simp_all add: sized_mmio machine_apertures_def)
  moreover have "proper (tdx_finished ?q p acpi tables stack zero page @ apertures_of (p_mmio params))"
    using tdx_finished_proper [OF assms(1-3)] by (simp only: image_without_apertures(1) [symmetric])
  moreover have "map extent (tdx_finished ?q p acpi tables stack zero page) = tdx_image p"
    using assms(1,2) by (intro image_extents) (simp_all add: sized_def)
  ultimately show ?thesis
    using map_with_apertures [of _ "p_mmio params" "p_memory params"] assms(3,5)
    unfolding image_without_apertures(1) [of params] apertures_ok_def by simp
qed

lemma snp_map_accepted:
  assumes "sized params p" "snp_fixed_parts acpi blob tables stack zero page" "apertures_ok params"
    "contents_fit (params\<lparr>p_mmio := []\<rparr>) p"
    "check_holes (p_memory params) (p_mmio params) = Inr ()"
  shows "well_placed (snp_finished params p acpi blob tables stack zero page) (p_memory params) \<longleftrightarrow>
    apertures_clear (snp_image p) (p_mmio params)"
proof -
  let ?q = "params\<lparr>p_mmio := []\<rparr>"
  have "well_placed (snp_finished ?q p acpi blob tables stack zero page) (p_memory ?q)"
    using assms(1) by (intro snp_well_placed assms(2,4))
      (simp_all add: sized_mmio snp_machine_apertures_def)
  moreover have "proper (snp_finished ?q p acpi blob tables stack zero page @ apertures_of (p_mmio params))"
    using snp_finished_proper [OF assms(1-3)] by (simp only: image_without_apertures(2) [symmetric])
  moreover have "map extent (snp_finished ?q p acpi blob tables stack zero page) = snp_image p"
    using assms(1,2) by (intro image_extents) (simp_all add: sized_def)
  ultimately show ?thesis
    using map_with_apertures [of _ "p_mmio params" "p_memory params"] assms(3,5)
    unfolding image_without_apertures(2) [of params] apertures_ok_def by simp
qed

section \<open>What a build takes\<close>

lemma validate_Inl: "validate ps memory = Inl e \<Longrightarrow> \<exists>e'. e = Place e'"
proof -
  have o: "check_overlap ws = Inl e \<Longrightarrow> \<exists>e'. e = Place e'" for ws
    by (induction ws rule: check_overlap.induct) (auto split: if_splits)
  have r: "check_regions ps memory = Inl e \<Longrightarrow> \<exists>e'. e = Place e'"
    by (induction ps memory rule: check_regions.induct) (auto split: if_splits)
  show "validate ps memory = Inl e \<Longrightarrow> \<exists>e'. e = Place e'"
    using o r by (cases "check_overlap (windows2 (spans ps))") (auto simp: validate_def)
qed

lemma ill_placed_refused:
  assumes "proper ps" "\<not> well_placed ps memory"
  shows "\<exists>e. validate ps memory = Inl (Place e)"
proof (cases "validate ps memory")
  case (Inl e)
  then show ?thesis using validate_Inl by blast
next
  case (Inr u)
  then show ?thesis using validate_well_placed [OF assms(1)] assms(2) by auto
qed

lemma zeroed_pages: "length (replicate (unat PAGE) (0 :: u8)) = 4096"
  by (simp add: PAGE_def)

lemma tdx_place_refuses:
  assumes "sized params p" "apertures_ok params" "contents_fit (params\<lparr>p_mmio := []\<rparr>) p"
    "check_holes (p_memory params) (p_mmio params) = Inr ()"
    "\<not> apertures_clear (tdx_image p) (p_mmio params)"
  shows "\<exists>e. tdx_place ex params p = Inl (Place e)"
proof -
  have v: "p_vcpus params \<le> MAX_VCPUS" using assms(1) by (simp add: sized_def)
  obtain acpi tables stack where parts: "tdx_measured_parts params acpi tables stack"
    using tdx_measured_parts_exist [OF v] .
  then have eqs: "acpi_build (p_vcpus params) True = Some acpi"
    "identity_map 0 False = Some tables" "gdt_stack = Some stack"
    by (simp_all add: tdx_measured_parts_def)
  let ?z = "replicate (unat PAGE) (0 :: u8)"
  have fx: "fixed_parts acpi tables stack ?z ?z"
    using fixed_lengths(1) [OF v eqs(1)] fixed_lengths(2) [OF eqs(2)] fixed_lengths(3) [OF eqs(3)]
    by (simp add: fixed_parts_def)
  have "\<exists>e. validate (tdx_finished params p acpi tables stack ?z ?z) (p_memory params) = Inl (Place e)"
    using tdx_map_accepted [OF assms(1) fx assms(2-4)] assms(5)
    by (intro ill_placed_refused tdx_finished_proper [OF assms(1) fx assms(2)]) simp
  then show ?thesis
    unfolding tdx_place_def eqs or_error.simps bind_result.simps Let_def tdx_regions_finished by auto
qed

lemma snp_place_refuses:
  assumes "sized params p" "apertures_ok params" "contents_fit (params\<lparr>p_mmio := []\<rparr>) p"
    "check_holes (p_memory params) (p_mmio params) = Inr ()"
    "\<not> apertures_clear (snp_image p) (p_mmio params)"
  shows "\<exists>e. snp_place ex params p = Inl (Place e)"
proof -
  have v: "p_vcpus params \<le> MAX_VCPUS" using assms(1) by (simp add: sized_def)
  obtain acpi blob tables stack where parts: "snp_measured_parts params acpi blob tables stack"
    and lens: "length acpi = 4096" "length blob = 4096" "length tables = 12288" "length stack = 65536"
    using snp_measured_parts_exist [OF v] .
  let ?z = "replicate (unat PAGE) (0 :: u8)"
  have fx: "snp_fixed_parts acpi blob tables stack ?z ?z"
    using lens by (simp add: snp_fixed_parts_def)
  have "\<exists>e. validate (snp_finished params p acpi blob tables stack ?z ?z) (p_memory params) = Inl (Place e)"
    using snp_map_accepted [OF assms(1) fx assms(2-4)] assms(5)
    by (intro ill_placed_refused snp_finished_proper [OF assms(1) fx assms(2)]) simp
  moreover from parts have eqs: "acpi_build (p_vcpus params) False = Some acpi" "cc_blob = Some blob"
    "identity_map (ucast (p_cbit params)) True = Some tables" "gdt_stack = Some stack"
    by (simp_all add: snp_measured_parts_def)
  ultimately show ?thesis
    unfolding snp_place_def eqs or_error.simps bind_result.simps Let_def snp_regions_finished by auto
qed

lemma tdx_params_facts:
  assumes "tdx_params ram vcpus cmdline holes = Inr params"
  shows "p_vcpus params \<le> MAX_VCPUS" "INITRAMFS_BASE < p_memory params"
    "is_multiple_of (p_memory params) PAGE" "check_holes (p_memory params) (p_mmio params) = Inr ()"
proof -
  show "p_vcpus params \<le> MAX_VCPUS" "check_holes (p_memory params) (p_mmio params) = Inr ()"
    using assms unfolding tdx_params_def by (elim new_paramsE; simp)+
  show "INITRAMFS_BASE < p_memory params" "is_multiple_of (p_memory params) PAGE"
    using new_params_memory assms unfolding tdx_params_def by blast+
qed

lemma tdx_build_outcome:
  assumes "tdx_params ram vcpus cmdline holes = Inr params" "apertures_ok params"
    and "length (p_mmio params) \<le> 50"
    and "fs_files s kernel_path = Inr kf" "fs_files s initramfs_path = Inr ir"
    and "prepare_inputs kf ir params = Inr p"
    and "vec_len_ok kf" "vec_len_ok ir" "length (utf8 (p_cmdline params)) < 0xffffffff"
    and "config_field config_hash 48 = Inr field"
    and "blank_shim (ex_reset_shim ex)" "igvm_round_trip ex" "\<And>m. \<exists>json. ex_json_tdx ex m = Inr json"
    and "fs_write_error s out = None" "fs_write_error s (manifest_path out) = None"
  shows "if apertures_clear (tdx_image p) (p_mmio params)
    then \<exists>s'. build_tdx ex kernel_path initramfs_path out params config_hash s = (Inr (), s')
    else \<exists>e. build_tdx ex kernel_path initramfs_path out params config_hash s = (Inl (Place e), s)"
proof -
  note pf = tdx_params_facts [OF assms(1)]
  have sized: "sized params p" by (rule prepared_sized [OF assms(6) pf(1) assms(7,8)])
  have fit: "contents_fit (params\<lparr>p_mmio := []\<rparr>) p"
    by (rule prepared_image_fits [OF assms(6-8) pf(2,3) assms(9)])
  have len: "length (ex_reset_shim ex) = 4096" using assms(11) by (simp add: blank_shim_def)
  show ?thesis
  proof (cases "apertures_clear (tdx_image p) (p_mmio params)")
    case True
    then obtain placed where pl: "tdx_place ex params p = Inr (placed, 0x17000)"
      using tdx_place_succeeds [OF sized assms(11,2,3)] tdx_map_accepted [OF sized _ assms(2) fit pf(4)]
      by blast
    then show ?thesis
      using True tdx_build_from_place [OF pl sized assms(2,4-6,10) len assms(12-15)] by simp
  next
    case False
    then obtain e where "tdx_place ex params p = Inl (Place e)"
      using tdx_place_refuses [OF sized assms(2) fit pf(4)] by blast
    then have "build_tdx ex kernel_path initramfs_path out params config_hash s = (Inl (Place e), s)"
      using assms(4-6,10) unfolding build_tdx_steps
      by (simp add: io_bind_def io_lift_def prepare_def fs_read_def)
    then show ?thesis using False by auto
  qed
qed

text \<open>C11: take a TDX build whose parameters and inputs are accepted, with at most 50 apertures (the
  machine's own included), none of which wraps around the address space, the blank shim page the
  build assembles, and crates and a file
  system that do not fail. It succeeds when no aperture meets a region of the image or another
  aperture, and otherwise refuses the placement and leaves the file system as it was. (More
  apertures can make the data block or the E820 table overflow instead, and a wrapping one is
  accepted; both are left out by the hypotheses.)\<close>

theorem tdx_build_decides_apertures:
  assumes "tdx_params ram vcpus cmdline holes = Inr params" "apertures_ok params"
    and "length (p_mmio params) \<le> 50"
    and "fs_files s kernel_path = Inr kf" "fs_files s initramfs_path = Inr ir"
    and "prepare_inputs kf ir params = Inr p"
    and "vec_len_ok kf" "vec_len_ok ir" "length (utf8 (p_cmdline params)) < 0xffffffff"
    and "config_field config_hash 48 = Inr field"
    and "blank_shim (ex_reset_shim ex)" "igvm_round_trip ex" "\<And>m. \<exists>json. ex_json_tdx ex m = Inr json"
    and "fs_write_error s out = None" "fs_write_error s (manifest_path out) = None"
  shows "if apertures_clear (tdx_image p) (p_mmio params)
    then \<exists>s'. build_tdx ex kernel_path initramfs_path out params config_hash s = (Inr (), s')
    else \<exists>e. build_tdx ex kernel_path initramfs_path out params config_hash s = (Inl (Place e), s)"
  by (rule tdx_build_outcome [OF assms])

definition demo_holes :: "(u64 \<times> u64) list \<Rightarrow> params" where
  "demo_holes hs = default_params\<lparr>p_mmio := hs\<rparr>"

lemma demo_holes_params:
  assumes "hs \<in> {[(0xa0000, 0x20000)], [(0xe0000, 0x20000)]}"
  shows "tdx_params DEFAULT_RAM DEFAULT_VCPUS [] hs = Inr (demo_holes hs)"
    "snp_params DEFAULT_RAM DEFAULT_VCPUS DEFAULT_CBIT [] hs = Inr (demo_holes hs)"
    "apertures_ok (demo_holes hs)" "p_mmio (demo_holes hs) = hs"
    "prepare_inputs test_kernel [1, 2, 3] (demo_holes hs) = Inr demo_prepared"
    "length (utf8 (p_cmdline (demo_holes hs))) < 0xffffffff"
proof -
  show "prepare_inputs test_kernel [1, 2, 3] (demo_holes hs) = Inr demo_prepared"
    unfolding demo_holes_def prepare_ignores_apertures by (rule demo_prepared)
  show "length (utf8 (p_cmdline (demo_holes hs))) < 0xffffffff"
    using demo_facts(5) by (simp add: demo_holes_def)
qed (use assms in \<open>auto simp: demo_holes_def tdx_params_def snp_params_def new_params_def full_cmdline_def
    trim_def trim_start_def DEFAULT_CMDLINE_def REQUIRED_CMDLINE_def utf8_def utf8_char_def
    layout_consts is_multiple_of_def default_params_def apertures_ok_def\<close>)

lemma demo_contents:
  "contents_at KERNEL_BASE (pr_kernel demo_prepared) = (0x1000000, 0x1002000)"
  "contents_at INITRAMFS_BASE (pr_initramfs demo_prepared) = (0x20000000, 0x20001000)"
proof -
  have "length (pr_kernel demo_prepared) = 5632"
    using prepare_inputs_shape(9) [OF demo_prepared] by (simp add: test_kernel_bootable)
  then show "contents_at KERNEL_BASE (pr_kernel demo_prepared) = (0x1000000, 0x1002000)"
    by (simp add: contents_at_def fill_span_def align_up_def div_ceil_def layout_consts)
  show "contents_at INITRAMFS_BASE (pr_initramfs demo_prepared) = (0x20000000, 0x20001000)"
    by (simp add: demo_inputs(4) contents_at_def fill_span_def align_up_def div_ceil_def layout_consts)
qed

lemma demo_clear:
  "apertures_clear (tdx_image demo_prepared) [(0xa0000, 0x20000)]"
  "\<not> apertures_clear (tdx_image demo_prepared) [(0xe0000, 0x20000)]"
  "apertures_clear (snp_image demo_prepared) [(0xa0000, 0x20000)]"
  "\<not> apertures_clear (snp_image demo_prepared) [(0xe0000, 0x20000)]"
  unfolding tdx_image_def snp_image_def demo_contents
  by (simp_all add: apertures_clear_def page_at_def apart_def layout_consts)

theorem tdx_build_decides_apertures_witness:
  "(\<exists>s'. build_tdx demo_externs (lit ''k'') (lit ''i'') (lit ''o'') (demo_holes [(0xa0000, 0x20000)]) None
      demo_fs = (Inr (), s')) \<and>
   (\<exists>e. build_tdx demo_externs (lit ''k'') (lit ''i'') (lit ''o'') (demo_holes [(0xe0000, 0x20000)]) None
      demo_fs = (Inl (Place e), demo_fs))"
proof -
  note build = tdx_build_decides_apertures [OF demo_holes_params(1,3) _ demo_facts(1,2)
      demo_holes_params(5) demo_facts(3,4) demo_holes_params(6) demo_config demo_inputs(2)
      demo_round_trip demo_facts(8,7,7)]
  show ?thesis
    using build [of "[(0xa0000, 0x20000)]"] build [of "[(0xe0000, 0x20000)]"] demo_clear(1,2)
    by (simp add: demo_holes_params(4))
qed

lemma snp_build_outcome:
  assumes "snp_params ram vcpus cbit cmdline holes = Inr params" "apertures_ok params"
    and "length (p_mmio params) \<le> 47"
    and "fs_files s kernel_path = Inr kf" "fs_files s initramfs_path = Inr ir" "ir \<noteq> []"
    and "prepare_inputs kf ir params = Inr p"
    and "vec_len_ok kf" "vec_len_ok ir" "length (utf8 (p_cmdline params)) < 0xffffffff"
    and "config_field config_hash 32 = Inr field"
    and "guest_svn = 0 \<or> id_key \<noteq> None" "key_usable ex s id_key"
    and "blank_shim (ex_snp_shim ex)" "snp_crates_ok ex"
    and "fs_write_error s out = None" "fs_write_error s (manifest_path out) = None"
  shows "if apertures_clear (snp_image p) (p_mmio params)
    then \<exists>s'. build_snp ex kernel_path initramfs_path out params config_hash id_key guest_svn s
      = (Inr (), s')
    else \<exists>e. build_snp ex kernel_path initramfs_path out params config_hash id_key guest_svn s
      = (Inl (Place e), s)"
proof -
  note pf = snp_params_facts [OF assms(1)]
  have sized: "sized params p" by (rule prepared_sized [OF assms(7) pf(2) assms(8,9)])
  have fit: "contents_fit (params\<lparr>p_mmio := []\<rparr>) p"
    by (rule prepared_image_fits [OF assms(7-9) pf(4,5) assms(10)])
  have len: "length (ex_snp_shim ex) = 4096" using assms(14) by (simp add: blank_shim_def)
  show ?thesis
  proof (cases "apertures_clear (snp_image p) (p_mmio params)")
    case True
    then obtain placed emap where pl: "snp_place ex params p = Inr (placed, emap, 0x1b000)"
      using snp_place_succeeds [OF sized assms(14,2,3)] snp_map_accepted [OF sized _ assms(2) fit pf(6)]
      by blast
    then obtain headers ld img manifest where
      r: "snp_run ex kernel_path initramfs_path params config_hash id_key guest_svn s p placed emap
        headers ld img manifest"
      using snp_run_from_place [OF assms(1,2) pl sized assms(4-7,11-13) len assms(15)] by blast
    obtain json where "ex_json_snp ex manifest = Inr json"
      using assms(15) unfolding snp_crates_ok_def by blast
    with r assms(16,17) have "\<exists>s'. build_snp ex kernel_path initramfs_path out params config_hash
        id_key guest_svn s = (Inr (), s')"
      unfolding build_snp_Inr_conv by blast
    with True show ?thesis by simp
  next
    case False
    then obtain e where "snp_place ex params p = Inl (Place e)"
      using snp_place_refuses [OF sized assms(2) fit pf(6)] by blast
    then have "build_snp ex kernel_path initramfs_path out params config_hash id_key guest_svn s
        = (Inl (Place e), s)"
      using assms(4,5,7,11) unfolding build_snp_steps [OF assms(12)]
      by (simp add: io_bind_def io_lift_def prepare_def fs_read_def)
    then show ?thesis using False by auto
  qed
qed

text \<open>C10: take an SNP build whose parameters and inputs are accepted, with a non-empty initramfs, at most
  47 apertures (the machine's own included), none of which wraps around the address space, a
  usable key where a version is asked for, the blank shim page the build assembles, and crates
  and a file system that do not fail. It
  succeeds when no aperture meets a region of the image or another aperture, and otherwise
  refuses the placement and leaves the file system as it was. (More apertures can make the data
  block or the E820 table overflow instead, and a wrapping one is accepted; both are left out by
  the hypotheses.)\<close>

theorem snp_build_decides_apertures:
  assumes "snp_params ram vcpus cbit cmdline holes = Inr params" "apertures_ok params"
    and "length (p_mmio params) \<le> 47"
    and "fs_files s kernel_path = Inr kf" "fs_files s initramfs_path = Inr ir" "ir \<noteq> []"
    and "prepare_inputs kf ir params = Inr p"
    and "vec_len_ok kf" "vec_len_ok ir" "length (utf8 (p_cmdline params)) < 0xffffffff"
    and "config_field config_hash 32 = Inr field"
    and "guest_svn = 0 \<or> id_key \<noteq> None" "key_usable ex s id_key"
    and "blank_shim (ex_snp_shim ex)" "snp_crates_ok ex"
    and "fs_write_error s out = None" "fs_write_error s (manifest_path out) = None"
  shows "if apertures_clear (snp_image p) (p_mmio params)
    then \<exists>s'. build_snp ex kernel_path initramfs_path out params config_hash id_key guest_svn s
      = (Inr (), s')
    else \<exists>e. build_snp ex kernel_path initramfs_path out params config_hash id_key guest_svn s
      = (Inl (Place e), s)"
  by (rule snp_build_outcome [OF assms])

theorem snp_build_decides_apertures_witness:
  "(\<exists>s'. build_snp demo_externs (lit ''k'') (lit ''i'') (lit ''o'') (demo_holes [(0xa0000, 0x20000)]) None
      None 0 snp_demo_fs = (Inr (), s')) \<and>
   (\<exists>e. build_snp demo_externs (lit ''k'') (lit ''i'') (lit ''o'') (demo_holes [(0xe0000, 0x20000)]) None
      None 0 snp_demo_fs = (Inl (Place e), snp_demo_fs))"
proof -
  have "key_usable demo_externs snp_demo_fs None" by (simp add: key_usable_def)
  note build = snp_build_decides_apertures [OF demo_holes_params(2,3) _ snp_demo_facts(1-3)
      demo_holes_params(5) demo_facts(3,4) demo_holes_params(6) snp_demo_facts(7) _ this
      snp_demo_facts(5) snp_demo_crates snp_demo_facts(4,4)]
  show ?thesis
    using build [of "[(0xa0000, 0x20000)]"] build [of "[(0xe0000, 0x20000)]"] demo_clear(3,4)
    by (simp add: demo_holes_params(4))
qed

end
