(* ===== verification/Snp_Live.thy ===== *)
theory Snp_Live
  imports Snp_Shim
begin

text \<open>
  The SNP shim on a processor and a host that grant what they are asked: every page validates,
  at 2 MiB where there is such a page, the page state changes, the registration and the
  interrupts succeed. It then always reaches the kernel.
\<close>

section \<open>A willing platform\<close>

text \<open>
  The GHCB MSR protocol answers a page state change (0x14) with 0x15 and a registration (0x12)
  of a page with 0x13 for the same page; the host clears exit information 1 after an exit.
\<close>

definition granted :: "u64 \<Rightarrow> u64" where
  "granted request =
     (if request AND 0xfff = 0x14 then 0x15
      else if request AND 0xfff = 0x12 then request + 1 else 0)"

definition willing_host :: "(u64 \<Rightarrow> bool) \<Rightarrow> snp_host" where
  "willing_host large =
     \<lparr>h_pvalidate = (\<lambda>log gpa is_large set_valid.
        (if is_large \<and> \<not> large gpa then FAIL_SIZEMISMATCH else 0, False)),
      h_msr = (\<lambda>log request. granted request),
      h_ghcb = (\<lambda>log ghcb. blit 0x398 (le32 0) ghcb)\<rparr>"

lemma willing_validates: "validate_step (willing_host large) lo hi log \<noteq> Die log'"
  by (auto simp: validate_step_def validate_4k_def pvalidate_def willing_host_def
      FAIL_SIZEMISMATCH_def)

interpretation snp_live: live_walk "validate_step (willing_host large)" validated_times for large
  by unfold_locales (rule willing_validates)

lemma willing_pvalidate:
  "wake_pvalidate (willing_host large) n v log = Inr (log @ [Pvalidate SNP_GHCB False v 0 False])"
  by (simp add: wake_pvalidate_def pvalidate_def willing_host_def)

lemma willing_msr:
  "ghcb_msr (willing_host large) request log =
     (granted request, log @ [MsrProtocol request (granted request)])"
  by (simp add: ghcb_msr_def willing_host_def)

lemma willing_changes:
  assumes "op \<in> {1, 2}"
  shows "\<exists>log'. page_state_change (willing_host large) n op log = Inr log'"
  using assms by (auto simp: page_state_change_def willing_msr granted_def SNP_GHCB_def)

lemma willing_registers: "\<exists>log'. register_ghcb (willing_host large) n log = Inr log'"
  by (simp add: register_ghcb_def willing_msr granted_def SNP_GHCB_def)

lemma as_page_id: "length bs = 4096 \<Longrightarrow> as_page bs = bs"
  by (simp add: as_page_def)

lemma willing_interrupts:
  assumes "length ghcb = 4096"
  shows "\<exists>reply log'. send_ipi (willing_host large) n esi (ghcb, log) = Inr (reply, log') \<and>
    length reply = 4096"
proof -
  obtain g where g: "ghcb_request esi ghcb = Some g" "length g = 4096"
    using ghcb_request_page [OF assms] by blast
  then show ?thesis
    by (simp add: send_ipi_def willing_host_def as_page_id Let_def)
qed

lemma willing_wakes: "\<exists>log'. wake_aps (willing_host large) log = Inr log'"
proof -
  let ?h = "willing_host large"
  have tail: "\<exists>log'. wake_tail ?h log = Inr log'" for log
  proof -
    let ?l = "log @ [StoreZero (SHARED_ALIAS + SNP_GHCB) 512]"
    obtain g1 l1 where i1: "send_ipi ?h 4 INIT_ALL (replicate 4096 0, ?l) = Inr (g1, l1)"
      "length g1 = 4096"
      using willing_interrupts [of "replicate 4096 0"] by fastforce
    obtain g2 l2 where i2: "send_ipi ?h 5 SIPI_ALL (g1, l1) = Inr (g2, l2)" "length g2 = 4096"
      using willing_interrupts [OF i1(2)] by fastforce
    obtain g3 l3 where i3: "send_ipi ?h 6 SIPI_ALL (g2, l2) = Inr (g3, l3)"
      using willing_interrupts [OF i2(2)] by fastforce
    obtain l4 where "page_state_change ?h 7 1 l3 = Inr l4" using willing_changes [of 1] by fastforce
    then show ?thesis using i1 i2 i3 by (simp add: wake_tail_def Let_def willing_pvalidate)
  qed
  obtain l1 where l1: "page_state_change ?h 2 2 (log @ [Pvalidate SNP_GHCB False False 0 False]) = Inr l1"
    using willing_changes [of 2] by fastforce
  obtain l2 where "register_ghcb ?h 3 l1 = Inr l2" using willing_registers by blast
  then show ?thesis using tail [of l2] by (simp add: wake_aps_def willing_pvalidate l1)
qed

section \<open>The kernel is reached\<close>

text \<open>C17: on a platform that grants every request, at whichever page size it has, and with a page whose
  ranges are page-aligned and below the map limit, as the builder's are, the SNP shim always
  reaches the kernel: no check of its own, of a status, a carry, a response code or an exit
  field, stops it, and it falls back to 4 KiB validation exactly where 2 MiB is refused.\<close>

theorem snp_shim_reaches_the_kernel:
  assumes "shim_ranges page 0xc08 = Some rs" "\<forall>(lo, hi)\<in>set rs. mapped_range lo hi"
    "shim_entry page = Some rip"
  shows "\<exists>log. snp_boot (willing_host large) page = Some (Entered rip ZERO_PAGE log)"
proof -
  have "unat SHIM_DATA + 8 = 0xc08" by (simp add: layout_consts)
  then have "validate_next (willing_host large) page =
      serve_ranges (validate_step (willing_host large)) page 0xc08 []"
    by (simp only: validate_next_def)
  moreover obtain log where
    "serve_ranges (validate_step (willing_host large)) page 0xc08 [] = Some (Served log)"
    using snp_live.serve_ranges_live [OF assms(1,2)] by blast
  moreover obtain log' where "wake_aps (willing_host large) log = Inr log'"
    using willing_wakes by blast
  ultimately show ?thesis using assms(3) by (simp add: snp_boot_def)
qed

theorem snp_shim_reaches_the_kernel_witness:
  "\<exists>page log. shim (replicate 4096 0) 0x1000200 [(0x200000, 0x3ff000)] = Inr page \<and>
     snp_boot (willing_host (\<lambda>gpa. False)) page = Some (Entered 0x1000200 ZERO_PAGE log)"
proof -
  obtain page where page: "shim (replicate 4096 0) 0x1000200 [(0x200000, 0x3ff000)] = Inr page"
    "shim_entry page = Some 0x1000200" "shim_ranges page 0xc08 = Some [(0x200000, 0x3ff000)]"
    using demo_shim_page by blast
  have m: "\<forall>(lo, hi)\<in>set [(0x200000 :: u64, 0x3ff000 :: u64)]. mapped_range lo hi"
    by (simp add: mapped_range_def layout_consts is_multiple_of_def)
  from snp_shim_reaches_the_kernel [OF page(3) m page(2)] page(1) show ?thesis by blast
qed

end
