(* ===== verification/Mode_Switch.thy ===== *)
theory Mode_Switch
  imports Snp_Shim
begin

text \<open>
  How a processor reaches 64-bit code: the first instructions of both shims (src/src/reset.S
  from \<open>reset_start\<close>, src/src/snp_reset.S from \<open>snp_reset_start\<close>), and where an SNP
  application processor stays (\<open>snp_ap_park\<close>). The processor is a record of the registers those
  instructions touch; an instruction that would fault is \<open>None\<close>, because no shim has an
  interrupt table. Descriptors are read from the boot stack's page as \<open>gdt_stack\<close> built it.
\<close>

section \<open>The processor\<close>

record cpu =
  r_cr0 :: u32
  r_cr3 :: u32
  r_cr4 :: u32
  r_efer :: u64
  r_gdtr_limit :: u16
  r_gdtr_base :: u64
  r_cs :: u16
  r_ds :: u16
  r_es :: u16
  r_ss :: u16
  r_fs :: u16
  r_gs :: u16
  r_cs_descriptor :: u64
  r_esi :: u32
  r_rsp :: u64

text \<open>EFER: long mode enabled (bit 8) and active (bit 10). A code descriptor: 64-bit (bit 53).\<close>

definition in_64bit_code :: "cpu \<Rightarrow> bool" where
  "in_64bit_code c \<longleftrightarrow> bit (r_efer c) 10 \<and> bit (r_cs_descriptor c) 53"

text \<open>The descriptor a selector names, in the table that starts the boot stack; beyond the limit, a fault.\<close>

definition descriptor :: "bytes \<Rightarrow> cpu \<Rightarrow> u64 \<Rightarrow> u64 option" where
  "descriptor stack c selector =
     (if r_gdtr_base c \<noteq> BSP_STACK \<or> selector = 0 \<or> unat selector + 7 > unat (r_gdtr_limit c) then None
      else get64 (unat selector) stack)"

text \<open>A far jump: the descriptor must be a present (47) code (44, 43) segment.\<close>

definition far_jump :: "bytes \<Rightarrow> u64 \<Rightarrow> cpu \<Rightarrow> cpu option" where
  "far_jump stack selector c = do {
     d \<leftarrow> descriptor stack c selector;
     if bit d 47 \<and> bit d 44 \<and> bit d 43
     then Some (c\<lparr>r_cs := ucast selector, r_cs_descriptor := d\<rparr>) else None
   }"

text \<open>Loading the data segment registers: a present, writable (41) data segment.\<close>

definition load_data_segments :: "bytes \<Rightarrow> u64 \<Rightarrow> cpu \<Rightarrow> cpu option" where
  "load_data_segments stack selector c = do {
     d \<leftarrow> descriptor stack c selector;
     if bit d 47 \<and> bit d 44 \<and> \<not> bit d 43 \<and> bit d 41
     then let sel = ucast selector
          in Some (c\<lparr>r_ds := sel, r_es := sel, r_ss := sel, r_fs := sel, r_gs := sel\<rparr>)
     else None
   }"


text \<open>
  Writes of the control registers. \<open>fixed\<close> are the bits that must stay set: clearing one
  faults. Paging needs protection (bit 0) and, with long mode enabled, PAE (CR4 bit 5) and a code
  segment that is not 64-bit; it makes long mode active. With long mode not enabled, PAE makes
  the four quadwords CR3 points at the page directory pointers, which the processor loads at
  once: a present one with a reserved bit (1, 2, 5 to 8, 52 to 63) faults. \<open>quad\<close> is the
  quadword at an address of memory.
\<close>

definition pae_paging :: "cpu \<Rightarrow> bool" where
  "pae_paging c \<longleftrightarrow> bit (r_cr0 c) 31 \<and> bit (r_cr4 c) 5 \<and> \<not> bit (r_efer c) 8"

definition load_pdptes :: "(u64 \<Rightarrow> u64) \<Rightarrow> cpu \<Rightarrow> cpu option" where
  "load_pdptes quad c =
     (let entry = (\<lambda>i. quad ((ucast (r_cr3 c) AND NOT 0x1f) + 8 * i))
      in if list_all (\<lambda>i. \<not> bit (entry i) 0 \<or> entry i AND 0xfff00000000001e6 = 0) [0, 1, 2, 3]
         then Some c else None)"


definition write_cr3 :: "(u64 \<Rightarrow> u64) \<Rightarrow> u32 \<Rightarrow> cpu \<Rightarrow> cpu option" where
  "write_cr3 quad v c =
     (let c' = c\<lparr>r_cr3 := v\<rparr> in if pae_paging c' then load_pdptes quad c' else Some c')"

definition write_cr0 :: "(u64 \<Rightarrow> u64) \<Rightarrow> u32 \<Rightarrow> u32 \<Rightarrow> cpu \<Rightarrow> cpu option" where
  "write_cr0 quad fixed v c =
     (let c' = c\<lparr>r_cr0 := v,
        r_efer := if bit v 31 \<and> bit (r_efer c) 8 then set_bit 10 (r_efer c)
                  else unset_bit 10 (r_efer c)\<rparr>
      in if v AND fixed \<noteq> fixed then None
         else if bit v 31 \<and> \<not> bit v 0 then None
         else if bit v 31 \<and> bit (r_efer c) 8 \<and> (\<not> bit (r_cr4 c) 5 \<or> bit (r_cs_descriptor c) 53)
         then None
         else if pae_paging c' \<and> (r_cr0 c XOR v) AND 0xe0000000 \<noteq> 0 then load_pdptes quad c'
         else Some c')"

section \<open>TDX: \<open>reset_start\<close>\<close>



section \<open>SNP: \<open>snp_reset_start\<close>\<close>

text \<open>What a VMSA hands over. The descriptors the caches hold are those of the GDT it names.\<close>

definition cpu_of_vmsa :: "sev_vmsa \<Rightarrow> cpu" where
  "cpu_of_vmsa v =
     \<lparr>r_cr0 = ucast (v_cr0 v), r_cr3 = ucast (v_cr3 v), r_cr4 = ucast (v_cr4 v), r_efer = v_efer v,
      r_gdtr_limit = ucast (sel_limit (v_gdtr v)), r_gdtr_base = sel_base (v_gdtr v),
      r_cs = sel_selector (v_cs v), r_ds = sel_selector (v_ds v), r_es = sel_selector (v_es v),
      r_ss = sel_selector (v_ss v), r_fs = sel_selector (v_fs v), r_gs = sel_selector (v_gs v),
      r_cs_descriptor = (if bit (sel_attrib (v_cs v)) 9 then set_bit 53 0 else 0),
      r_esi = ucast (v_rsi v), r_rsp = v_rsp v\<rparr>"

text \<open>
  The \<open>call\<close>, \<open>pop\<close>, two \<open>push\<close>es and \<open>lret\<close> are a far jump to \<open>snp_long_mode\<close> relative to the
  code's own address; they leave the stack pointer where it was.
\<close>

definition snp_reset_start :: "(u64 \<Rightarrow> u64) \<Rightarrow> bytes \<Rightarrow> cpu \<Rightarrow> cpu option" where
  "snp_reset_start quad stack c = do {
     let c = c\<lparr>r_rsp := BSP_STACK_TOP\<rparr>;
     let c = c\<lparr>r_efer := r_efer c OR 0x900\<rparr>;
     c \<leftarrow> write_cr3 quad (ucast PAGE_TABLES) c;
     c \<leftarrow> write_cr0 quad 0 (set_bit 31 (r_cr0 c)) c;
     c \<leftarrow> far_jump stack BOOT_CS c;
     load_data_segments stack BOOT_DS c
   }"

text \<open>
  \<open>snp_ap_park\<close>: an AP Reset Hold request (6) over the GHCB MSR protocol, again whenever the
  host resumes it; \<open>n\<close> counts the resumptions so far.
\<close>

fun snp_ap_park :: "snp_host \<Rightarrow> nat \<Rightarrow> snp_log \<Rightarrow> snp_log" where
  "snp_ap_park host 0 log = snd (ghcb_msr host 6 log)"
| "snp_ap_park host (Suc n) log = snp_ap_park host n (snd (ghcb_msr host 6 log))"

section \<open>The table of the boot stack\<close>

text \<open>A processor that runs on the measured table, in 64-bit code, over the built page tables.\<close>

definition on_measured_state :: "cpu \<Rightarrow> bool" where
  "on_measured_state c \<longleftrightarrow>
     r_gdtr_base c = BSP_STACK \<and> r_gdtr_limit c = ucast GDT_LIMIT \<and> r_cr3 c = ucast PAGE_TABLES \<and>
     r_cs c = ucast BOOT_CS \<and> r_cs_descriptor c = GDT_CODE64 \<and>
     (\<forall>seg\<in>{r_ds c, r_es c, r_ss c, r_fs c, r_gs c}. seg = ucast BOOT_DS)"

lemma get32_of_get64:
  assumes "get64 at bs = Some v"
  shows "get32 at bs = Some (ucast v)"
proof -
  from assms have b: "at + 8 \<le> length bs" and v: "v = le_word (take 8 (drop at bs))"
    by (auto simp: get64_def peek_def split: if_splits)
  have "(le_word (take 4 (drop at bs)) :: u32) = ucast v"
    using b by (intro bit_word_eqI) (auto simp: v bit_le_word bit_ucast_iff)
  then show ?thesis using b by (simp add: get32_def peek_def)
qed

lemmas gdt_selectors = BOOT_CS32_def BOOT_CS_def BOOT_DS_def GDT_LIMIT_def

lemma selector_values:
  "ucast GDT_LIMIT = (31 :: u16)" "ucast BOOT_CS = (16 :: u16)" "ucast BOOT_DS = (24 :: u16)"
  by (simp_all add: gdt_selectors)

lemma gdt_reads:
  assumes "gdt_stack = Some stack"
  shows "get64 8 stack = Some GDT_CODE32" "get64 16 stack = Some GDT_CODE64"
    "get64 24 stack = Some GDT_DATA" "get16 32 stack = Some 31" "get32 34 stack = Some 0x107000"
proof -
  note g = gdt_stack_contents [simplified assms option.inject, simplified]
  from g show "get64 8 stack = Some GDT_CODE32" "get64 16 stack = Some GDT_CODE64"
    "get64 24 stack = Some GDT_DATA" "get16 32 stack = Some 31"
    by (simp_all add: gdt_selectors GDT_PTR_def)
  from g have "get64 34 stack = Some BSP_STACK"
    by (simp add: gdt_selectors GDT_PTR_def)
  then show "get32 34 stack = Some 0x107000"
    by (simp add: get32_of_get64 BSP_STACK_def)
qed

text \<open>A processor whose descriptor table is the boot stack's.\<close>

definition on_gdt :: "cpu \<Rightarrow> bool" where
  "on_gdt c \<longleftrightarrow> r_gdtr_base c = BSP_STACK \<and> r_gdtr_limit c = 31"

lemma descriptors:
  assumes "gdt_stack = Some stack" "on_gdt c"
  shows "descriptor stack c BOOT_CS32 = Some GDT_CODE32" "descriptor stack c BOOT_CS = Some GDT_CODE64"
    "descriptor stack c BOOT_DS = Some GDT_DATA"
  using assms gdt_reads [OF assms(1)]
  by (simp_all add: descriptor_def on_gdt_def gdt_selectors)

lemma loads:
  assumes "gdt_stack = Some stack" "on_gdt c"
  shows "far_jump stack BOOT_CS32 c = Some (c\<lparr>r_cs := 8, r_cs_descriptor := GDT_CODE32\<rparr>)"
    "far_jump stack BOOT_CS c = Some (c\<lparr>r_cs := 16, r_cs_descriptor := GDT_CODE64\<rparr>)"
    "load_data_segments stack BOOT_DS c =
       Some (c\<lparr>r_ds := 24, r_es := 24, r_ss := 24, r_fs := 24, r_gs := 24\<rparr>)"
  using descriptors [OF assms]
  by (simp_all add: far_jump_def load_data_segments_def Let_def GDT_CODE32_def GDT_CODE64_def
      GDT_DATA_def gdt_selectors)



section \<open>Both shims reach 64-bit code\<close>









text \<open>C19: every processor state the SNP builder's own check lets into the measurement starts the shim's
  switch without a fault and ends in 64-bit code, on the measured descriptors, page tables and
  stack, with the no-execute bit enabled: what the check pins is what the switch needs.\<close>

theorem pinned_vmsa_reaches_long_mode:
  assumes "gdt_stack = Some stack" "validate_vmsa v rip rsp rsi = Inr ()"
  shows "\<exists>c'. snp_reset_start quad stack (cpu_of_vmsa v) = Some c' \<and> on_measured_state c' \<and>
    in_64bit_code c' \<and> r_rsp c' = BSP_STACK_TOP \<and> r_cr0 c' = 0x80000031 \<and> r_cr4 c' = 0x60 \<and>
    r_efer c' = 0x1d00"
proof -
  from assms(2) have v: "v_cr0 v = 0x31" "v_cr4 v = 0x60" "v_efer v = 0x1000"
    "sel_base (v_gdtr v) = BSP_STACK" "sel_limit (v_gdtr v) = 31" "sel_attrib (v_cs v) = 0xc9b"
    by (auto simp: validate_vmsa_def pinned_segment_def Let_def VMSA_CR0_def VMSA_CR4_def
        VMSA_EFER_def GDT_LIMIT_def BOOT_DS_def SEG_CODE32_ATTR_def split: if_splits)
  have d: "bit GDT_CODE64 53" by (simp add: GDT_CODE64_def)
  show ?thesis
    by (simp add: snp_reset_start_def loads [OF assms(1)] on_gdt_def write_cr0_def write_cr3_def
        pae_paging_def cpu_of_vmsa_def v
        on_measured_state_def in_64bit_code_def Let_def d selector_values)
qed

theorem pinned_vmsa_reaches_long_mode_witness:
  "\<exists>stack c'. gdt_stack = Some stack \<and>
     snp_reset_start (\<lambda>at. 0) stack (cpu_of_vmsa (bsp_vmsa demo_externs)) = Some c' \<and> in_64bit_code c'"
proof -
  obtain stack where s: "gdt_stack = Some stack" using gdt_stack_contents by blast
  have "validate_vmsa (bsp_vmsa demo_externs) SHIM_BASE BSP_STACK_TOP ZERO_PAGE = Inr ()"
    by (simp add: vmsa_pinned demo_externs_def SNP_SEV_FEATURES_def)
  from pinned_vmsa_reaches_long_mode [OF s this] s show ?thesis by blast
qed

text \<open>A parked processor asks the host for nothing but a Reset Hold, once per resumption.\<close>

lemma ap_park_requests:
  "\<exists>es. snp_ap_park host n log = log @ es \<and> length es = Suc n \<and>
     (\<forall>e\<in>set es. \<exists>answer. e = MsrProtocol 6 answer)"
proof (induction host n log rule: snp_ap_park.induct)
  case (1 host log)
  then show ?case by (simp add: ghcb_msr_def)
next
  case (2 host n log)
  then obtain es where "snp_ap_park host n (log @ [MsrProtocol 6 (h_msr host log 6)]) =
      (log @ [MsrProtocol 6 (h_msr host log 6)]) @ es" "length es = Suc n"
    "\<forall>e\<in>set es. \<exists>answer. e = MsrProtocol 6 answer"
    by (auto simp: ghcb_msr_def)
  then show ?case
    by (intro exI [of _ "MsrProtocol 6 (h_msr host log 6) # es"]) (simp add: ghcb_msr_def)
qed

end
