(* ===== verification/Build_Script.thy ===== *)
theory Build_Script
  imports Externals
begin

text \<open>
  The build script (src/build.rs) and the table it writes (\<open>SYMBOLS\<close>, which the
  \<open>layout!\<close> macro of src/src/layout.rs collects): the addresses of the map as assembler
  symbols, so that the two shims address the map the builders measure. The assembler and
  \<open>objcopy\<close> are processes: \<open>tool\<close>, an argument, runs a command line on the file system.
\<close>

section \<open>The symbols\<close>

definition SYMBOLS :: "(rstr \<times> u64) list" where
  "SYMBOLS =
     [(lit ''PAGE'', PAGE),
      (lit ''ZERO_PAGE'', ZERO_PAGE),
      (lit ''CMDLINE'', CMDLINE),
      (lit ''ACPI_BASE'', ACPI_BASE),
      (lit ''MAILBOX'', MAILBOX),
      (lit ''SNP_CPUID'', SNP_CPUID),
      (lit ''SNP_SECRETS'', SNP_SECRETS),
      (lit ''SNP_CC_BLOB'', SNP_CC_BLOB),
      (lit ''PAGE_TABLES'', PAGE_TABLES),
      (lit ''PAGE_TABLE_SIZE'', PAGE_TABLE_SIZE),
      (lit ''BSP_STACK'', BSP_STACK),
      (lit ''BSP_STACK_SIZE'', BSP_STACK_SIZE),
      (lit ''BSP_STACK_TOP'', BSP_STACK_TOP),
      (lit ''SNP_GHCB'', SNP_GHCB),
      (lit ''SHIM_BASE'', SHIM_BASE),
      (lit ''SHIM_SIZE'', SHIM_SIZE),
      (lit ''KERNEL_SETUP_BASE'', KERNEL_SETUP_BASE),
      (lit ''KERNEL_SETUP_AREA_SIZE'', KERNEL_SETUP_AREA_SIZE),
      (lit ''KERNEL_SETUP_END'', KERNEL_SETUP_END),
      (lit ''KERNEL_BASE'', KERNEL_BASE),
      (lit ''INITRAMFS_BASE'', INITRAMFS_BASE),
      (lit ''RESET_ALIAS'', RESET_ALIAS),
      (lit ''SNP_VMSA'', SNP_VMSA),
      (lit ''BOOT_CS32'', BOOT_CS32),
      (lit ''BOOT_CS'', BOOT_CS),
      (lit ''BOOT_DS'', BOOT_DS),
      (lit ''GDT_LIMIT'', GDT_LIMIT),
      (lit ''GDT_PTR'', GDT_PTR),
      (lit ''SHIM_AP_PARK'', SHIM_AP_PARK),
      (lit ''SNP_AP_ENTRY'', SNP_AP_ENTRY),
      (lit ''SHARED_ALIAS'', SHARED_ALIAS),
      (lit ''SHIM_DATA'', SHIM_DATA),
      (lit ''SHIM_DATA_SIZE'', SHIM_DATA_SIZE),
      (lit ''RESET_VECTOR'', RESET_VECTOR)]"

text \<open>\<open>Result::expect\<close>: an error ends the program.\<close>

definition expect :: "'a io \<Rightarrow> 'a io" where
  "expect m = (\<lambda>s. case m s of (Inl e, s') \<Rightarrow> (Inl Panic, s') | (Inr x, s') \<Rightarrow> (Inr x, s'))"

definition write_layout :: "rstr \<Rightarrow> unit io" where
  "write_layout path =
     (let out = foldl (\<lambda>out (name, value).
            out @ lit ''.set '' @ name @ lit '', 0x'' @ fmt_hex 0 (unat value) @ [10])
          (lit ''# Generated from src/layout.rs by build.rs.'' @ [10]) SYMBOLS
      in expect (fs_write ''write layout.inc'' path (utf8 out)))"

section \<open>The tools\<close>

type_synonym tool = "rstr list \<Rightarrow> fs \<Rightarrow> bool option \<times> fs"

text \<open>\<open>run\<close>: a tool that cannot be executed, or that fails, ends the build.\<close>

definition run_tool :: "tool \<Rightarrow> rstr list \<Rightarrow> unit io" where
  "run_tool tool args = (\<lambda>s. case tool args s of
       (None, s') \<Rightarrow> (Inl Panic, s')
     | (Some ok, s') \<Rightarrow> (if ok then Inr () else Inl Panic, s'))"

definition path_join :: "rstr \<Rightarrow> rstr \<Rightarrow> rstr" where
  "path_join dir name = (if dir = [] \<or> last dir = 47 then dir @ name else dir @ 47 # name)"

definition assemble :: "tool \<Rightarrow> rstr \<Rightarrow> rstr \<Rightarrow> unit io" where
  "assemble tool out name =
     (let object = path_join out (name @ lit ''.o''); binary = path_join out (name @ lit ''.bin'') in
      io_bind (run_tool tool [lit ''as'', lit ''--64'', lit ''-I'', out, lit ''-o'', object,
          lit ''src/'' @ name @ lit ''.S'']) (\<lambda>_.
        run_tool tool [lit ''objcopy'', lit ''-O'', lit ''binary'', lit ''-j'', lit ''.reset'',
          object, binary]))"

definition build_script :: "tool \<Rightarrow> rstr option \<Rightarrow> unit io" where
  "build_script tool out_dir =
     io_bind (io_lift (or_panic out_dir)) (\<lambda>out.
     io_bind (write_layout (path_join out (lit ''layout.inc''))) (\<lambda>_.
     io_bind (assemble tool out (lit ''reset'')) (\<lambda>_.
     assemble tool out (lit ''snp_reset''))))"

section \<open>What the assembler reads\<close>

text \<open>The lines of a text, and the reading of a \<open>.set\<close> directive; a line that starts with \<open>#\<close> is a comment.\<close>

function text_lines :: "rstr \<Rightarrow> rstr list" where
  "text_lines s = (case split_once 10 s of
       None \<Rightarrow> if s = [] then [] else [s]
     | Some (l, rest) \<Rightarrow> l # text_lines rest)"
  by pat_completeness auto
termination
  by (relation "measure length") (auto dest: split_once_shorter)

declare text_lines.simps [simp del]

definition read_set :: "rstr \<Rightarrow> (rstr \<times> u64) option" where
  "read_set line =
     (if take 5 line = lit ''.set ''
      then case split_once 44 (drop 5 line) of
             None \<Rightarrow> None
           | Some (name, value) \<Rightarrow>
               if take 3 value = lit '' 0x''
               then case from_str_radix (drop 3 value) 16 of Inl e \<Rightarrow> None | Inr v \<Rightarrow> Some (name, v)
               else None
      else None)"

definition read_symbols :: "rstr \<Rightarrow> (rstr \<times> u64) list option" where
  "read_symbols text = those (map read_set (filter (\<lambda>l. take 1 l \<noteq> [35]) (text_lines text)))"

text \<open>A symbol: neither a comma nor a line break in its name.\<close>

definition symbol_name :: "rstr \<Rightarrow> bool" where
  "symbol_name n \<longleftrightarrow> 10 \<notin> set n \<and> 44 \<notin> set n"

definition set_line :: "rstr \<times> u64 \<Rightarrow> rstr" where
  "set_line e = lit ''.set '' @ fst e @ lit '', 0x'' @ show_radix 16 (unat (snd e))"

lemma text_lines_Cons: "10 \<notin> set l \<Longrightarrow> text_lines (l @ 10 # rest) = l # text_lines rest"
  by (subst text_lines.simps) (simp add: split_once_absent)

lemma text_lines_concat:
  "\<forall>l\<in>set ls. 10 \<notin> set l \<Longrightarrow> text_lines (concat (map (\<lambda>l. l @ [10]) ls)) = ls"
  by (induction ls) (simp_all add: text_lines_Cons, simp add: text_lines.simps)

lemma hex_digits_plain: "c \<in> set (show_radix 16 n) \<Longrightarrow> c \<noteq> 10 \<and> c \<noteq> 44"
  using show_radix_digits [of 16 c n] by (auto simp: digit_char_def split: if_splits)

lemma set_line_plain: "symbol_name (fst e) \<Longrightarrow> 10 \<notin> set (set_line e)"
  by (auto simp: set_line_def symbol_name_def dest: hex_digits_plain)

lemma read_set_line: "symbol_name (fst e) \<Longrightarrow> read_set (set_line e) = Some e"
  by (simp add: read_set_def set_line_def symbol_name_def split_once_absent from_str_radix_show)

lemma read_symbols_lines:
  assumes "\<forall>e\<in>set es. symbol_name (fst e)" "10 \<notin> set comment"
  shows "read_symbols (concat (map (\<lambda>l. l @ [10]) ((35 # comment) # map set_line es))) = Some es"
proof -
  have "\<forall>l\<in>set ((35 # comment) # map set_line es). 10 \<notin> set l"
    using assms by (auto dest: set_line_plain)
  from text_lines_concat [OF this]
  have t: "text_lines (concat (map (\<lambda>l. l @ [10]) ((35 # comment) # map set_line es))) =
      (35 # comment) # map set_line es" .
  have f: "filter (\<lambda>l. take 1 l \<noteq> [35]) (map set_line es) = map set_line es"
    by (intro filter_True) (auto simp: set_line_def)
  have "those (map (read_set \<circ> set_line) es) = Some (map id es)"
    using assms(1) by (intro those_map_Some) (simp add: read_set_line)
  then show ?thesis unfolding read_symbols_def t using f by simp
qed

definition layout_text :: rstr where
  "layout_text = concat (map (\<lambda>l. l @ [10])
     ((lit ''# Generated from src/layout.rs by build.rs.'') # map set_line SYMBOLS))"

lemma foldl_append: "foldl (\<lambda>out e. out @ f e) init es = init @ concat (map f es)"
  by (induction es arbitrary: init) simp_all

lemma write_layout_text:
  "write_layout path = expect (fs_write ''write layout.inc'' path (utf8 layout_text))"
proof -
  have "(\<lambda>out (name, value). out @ lit ''.set '' @ name @ lit '', 0x'' @ fmt_hex 0 (unat value) @ [10]) =
      (\<lambda>out e. out @ (set_line e @ [10]))"
    by (auto simp: fun_eq_iff set_line_def fmt_hex_def)
  then show ?thesis
    by (simp only: write_layout_def Let_def foldl_append layout_text_def list.map concat.simps
        map_map comp_def append_assoc)
qed

lemma symbols_named: "\<forall>e\<in>set SYMBOLS. symbol_name (fst e)"
  by (simp add: SYMBOLS_def symbol_name_def)

lemma symbols_distinct: "distinct (map fst SYMBOLS)"
  by (simp add: SYMBOLS_def)

lemma layout_text_reads_back: "read_symbols layout_text = Some SYMBOLS"
proof -
  have "lit ''# Generated from src/layout.rs by build.rs.'' =
      35 # lit '' Generated from src/layout.rs by build.rs.''" by simp
  moreover have "10 \<notin> set (lit '' Generated from src/layout.rs by build.rs.'')" by simp
  ultimately show ?thesis
    using read_symbols_lines [OF symbols_named] unfolding layout_text_def by metis
qed

section \<open>What a build leaves\<close>

lemma symbols_ascii: "\<forall>e\<in>set SYMBOLS. \<forall>c\<in>set (fst e). c < 128"
  by (simp add: SYMBOLS_def)

lemma layout_text_ascii: "\<forall>c\<in>set layout_text. c < 128"
proof -
  have "\<forall>c\<in>set (set_line e). c < 128" if "e \<in> set SYMBOLS" for e
    using that symbols_ascii show_radix_digits [of 16 _ "unat (snd e)"]
    by (force simp: set_line_def digit_char_def split: if_splits)
  then show ?thesis by (auto simp: layout_text_def)
qed

lemma expect_Inr_conv: "expect m s = (Inr x, s') \<longleftrightarrow> m s = (Inr x, s')"
  by (auto simp: expect_def split: prod.splits sum.splits)

lemma run_tool_Inr: "run_tool tool args s = (Inr u, s') \<Longrightarrow> tool args s = (Some True, s')"
  by (auto simp: run_tool_def split: prod.splits option.splits if_splits)

lemma assemble_keeps:
  assumes "assemble tool out name s = (Inr u, s')"
    "\<And>args f r f'. tool args f = (r, f') \<Longrightarrow> fs_files f' path = fs_files f path"
  shows "fs_files s' path = fs_files s path"
  using assms(1) by (auto simp: assemble_def Let_def io_bind_Inr_conv dest!: run_tool_Inr assms(2))

definition layout_inc :: "rstr \<Rightarrow> rstr" where
  "layout_inc out = path_join out (lit ''layout.inc'')"

text \<open>C40: a build script that finishes, with tools that leave its symbol file alone, leaves there a file from
  which the assembler reads every constant of the layout under its own name, once, with the
  value the Rust code has, so the shims and the builders agree on every address; and it finishes
  only if the file could be written.\<close>

theorem build_script_publishes_the_layout:
  assumes "build_script tool (Some out) s = (Inr (), s')"
    and "\<And>args f r f'. tool args f = (r, f') \<Longrightarrow>
      fs_files f' (layout_inc out) = fs_files f (layout_inc out)"
  shows "fs_write_error s (layout_inc out) = None \<and>
    (\<exists>bs text. fs_files s' (layout_inc out) = Inr bs \<and> utf8_decode bs = Some text \<and>
       read_symbols text = Some SYMBOLS \<and> distinct (map fst SYMBOLS))"
proof -
  from assms(1) obtain s1 s2 where
    w: "write_layout (layout_inc out) s = (Inr (), s1)"
    and a: "assemble tool out (lit ''reset'') s1 = (Inr (), s2)"
      "assemble tool out (lit ''snp_reset'') s2 = (Inr (), s')"
    by (auto simp: build_script_def layout_inc_def io_bind_Inr_conv)
  from w have s1: "fs_write_error s (layout_inc out) = None"
    "fs_files s1 (layout_inc out) = Inr (utf8 layout_text)"
    by (auto simp: write_layout_text expect_Inr_conv fs_write_Inr_conv)
  have "fs_files s' (layout_inc out) = Inr (utf8 layout_text)"
    using assemble_keeps [OF a(1) assms(2)] assemble_keeps [OF a(2) assms(2)] s1(2) by simp
  then show ?thesis
    using s1(1) utf8_decode_utf8_ascii [OF layout_text_ascii] layout_text_reads_back symbols_distinct
    by blast
qed

definition empty_fs :: fs where
  "empty_fs = \<lparr>fs_files = (\<lambda>path. Inl ''No such file or directory''), fs_write_error = (\<lambda>path. None)\<rparr>"

theorem build_script_publishes_the_layout_witness:
  "\<exists>s' bs text. build_script (\<lambda>args f. (Some True, f)) (Some (lit ''out'')) empty_fs = (Inr (), s') \<and>
    fs_files s' (lit ''out/layout.inc'') = Inr bs \<and> utf8_decode bs = Some text \<and>
    map_option (\<lambda>es. map_of es (lit ''SHIM_DATA'')) (read_symbols text) = Some (Some SHIM_DATA)"
proof -
  have inc: "layout_inc (lit ''out'') = lit ''out/layout.inc''"
    by (simp add: layout_inc_def path_join_def)
  obtain s' where
    b: "build_script (\<lambda>args f. (Some True, f)) (Some (lit ''out'')) empty_fs = (Inr (), s')"
    by (simp add: build_script_def io_bind_def io_lift_def write_layout_text expect_def fs_write_def
        assemble_def run_tool_def Let_def empty_fs_def)
  have m: "map_of SYMBOLS (lit ''SHIM_DATA'') = Some SHIM_DATA"
    by (simp add: SYMBOLS_def)
  from build_script_publishes_the_layout [OF b] obtain bs content where
    "fs_files s' (layout_inc (lit ''out'')) = Inr bs" "utf8_decode bs = Some content"
    "read_symbols content = Some SYMBOLS"
    by auto
  with b m show ?thesis unfolding inc by auto
qed

end
