(* ===== verification/Guest_Memory.thy ===== *)
theory Guest_Memory
  imports Snp_Build "HOL-Library.Sublist"
begin

text \<open>
  Guest memory as the loader leaves it: a byte of a loaded page, or nothing. \<open>loader\<close> is the
  contract of the two ways the builders turn a placement into pages; its lemma says that every
  measured region is found in memory where it was placed, byte for byte, so that what a guest
  reads through an address can be computed from the regions.
\<close>

section \<open>Reading memory\<close>

definition load_byte :: "(u64 \<times> bytes) list \<Rightarrow> u64 \<Rightarrow> u8 option" where
  "load_byte pgs a = (case map_of pgs (a - a mod PAGE) of
       None \<Rightarrow> None
     | Some page \<Rightarrow> read_at (unat (a mod PAGE)) page)"

definition read_mem :: "(u64 \<times> bytes) list \<Rightarrow> u64 \<Rightarrow> nat \<Rightarrow> bytes option" where
  "read_mem pgs a n = those (map (\<lambda>i. load_byte pgs (a + of_nat i)) [0..<n])"

definition mem16 :: "(u64 \<times> bytes) list \<Rightarrow> u64 \<Rightarrow> u16 option" where
  "mem16 pgs a = map_option le_word (read_mem pgs a 2)"

definition mem32 :: "(u64 \<times> bytes) list \<Rightarrow> u64 \<Rightarrow> u32 option" where
  "mem32 pgs a = map_option le_word (read_mem pgs a 4)"

definition mem64 :: "(u64 \<times> bytes) list \<Rightarrow> u64 \<Rightarrow> u64 option" where
  "mem64 pgs a = map_option le_word (read_mem pgs a 8)"

lemma nth_chunks:
  "0 < n \<Longrightarrow> k < length (chunks n xs) \<Longrightarrow> chunks n xs ! k = take n (drop (k * n) xs)"
proof (induction n xs arbitrary: k rule: chunks.induct)
  case (1 n xs)
  note eq = chunks.simps [of n xs]
  show ?case
  proof (cases "xs = []")
    case True
    then show ?thesis using 1 eq by simp
  next
    case False
    with 1 eq show ?thesis by (cases k) (simp_all add: add.commute)
  qed
qed

text \<open>An address inside a region, split at its page.\<close>

lemma page_split:
  assumes "is_multiple_of b PAGE" "unat b + i < 2 ^ 64"
  shows "(b + of_nat i) - (b + of_nat i) mod PAGE = b + of_nat (i div 4096) * PAGE"
    "unat ((b + of_nat i) mod PAGE) = i mod 4096"
proof -
  have i: "unat (of_nat i :: u64) = i" using assms(2) by (intro unat_of_nat_u64) simp
  have a: "unat (b + of_nat i) = unat b + i" using assms(2) i by (subst unat_add_noov) simp_all
  obtain q where q: "unat b = 4096 * q" using assms(1) by (auto simp: PAGE_aligned_iff elim!: dvdE)
  show m: "unat ((b + of_nat i) mod PAGE) = i mod 4096"
    by (simp add: unat_mod a q PAGE_def)
  have k: "(of_nat (i div 4096) * PAGE :: u64) = of_nat (i div 4096 * 4096)"
    by (simp add: PAGE_def)
  have "(of_nat i :: u64) = of_nat (i div 4096 * 4096 + i mod 4096)" by simp
  then have "(of_nat i :: u64) = of_nat (i div 4096 * 4096) + of_nat (i mod 4096)"
    by (simp only: of_nat_add)
  moreover have "(b + of_nat i) mod PAGE = of_nat (i mod 4096)"
    using arg_cong [OF m, of "of_nat :: nat \<Rightarrow> u64"] by simp
  ultimately show "(b + of_nat i) - (b + of_nat i) mod PAGE = b + of_nat (i div 4096) * PAGE"
    by (simp add: k)
qed

lemma load_byte_region:
  assumes "distinct (map fst pgs)" "set (pages b data) \<subseteq> set pgs" "is_multiple_of b PAGE"
    "unat b + i < 2 ^ 64" "i < length data"
  shows "load_byte pgs (b + of_nat i) = Some (data ! i)"
proof -
  let ?k = "i div 4096"
  have k: "?k < length (pages b data)" using assms(5) by (simp add: length_pages div_less_iff_less_mult)
  let ?page = "blit 0 (chunks 4096 data ! ?k) (replicate 4096 0)"
  have "(b + of_nat ?k * PAGE, ?page) \<in> set pgs"
    using nth_mem [OF k] assms(2) unfolding nth_pages [OF k] by blast
  then have m: "map_of pgs (b + of_nat ?k * PAGE) = Some ?page"
    using assms(1) by simp
  have kc: "?k < length (chunks 4096 data)" using k by (simp add: pages_def)
  have c: "chunks 4096 data ! ?k = take 4096 (drop (?k * 4096) data)"
    using kc by (intro nth_chunks) simp_all
  have lt: "i mod 4096 < length (take 4096 (drop (?k * 4096) data))"
    using assms(5) by (simp add: minus_div_mult_eq_mod [symmetric] less_diff_conv)
  then have "read_at (i mod 4096) ?page = Some (take 4096 (drop (?k * 4096) data) ! (i mod 4096))"
    using lt by (simp add: c read_at_def blit_def nth_append min_def)
  also have "\<dots> = Some (data ! i)"
    using assms(5) by (simp add: add.commute [of "i mod 4096"])
  finally show ?thesis
    by (simp add: load_byte_def page_split [OF assms(3,4)] m)
qed

text \<open>A stretch of memory that holds some bytes from an address on.\<close>

definition mem_holds :: "(u64 \<times> bytes) list \<Rightarrow> u64 \<Rightarrow> bytes \<Rightarrow> bool" where
  "mem_holds pgs b data \<longleftrightarrow>
     (\<forall>at n. at + n \<le> length data \<longrightarrow> read_mem pgs (b + of_nat at) n = peek at n data)"

lemma mem_holds_region:
  assumes "distinct (map fst pgs)" "set (pages b data) \<subseteq> set pgs" "is_multiple_of b PAGE"
    "unat b + length data \<le> 2 ^ 64"
  shows "mem_holds pgs b data"
  unfolding mem_holds_def
proof (intro allI impI)
  fix at n assume le: "at + n \<le> length data"
  have "load_byte pgs (b + of_nat at + of_nat i) = Some (data ! (at + i))" if "i < n" for i
    using load_byte_region [OF assms(1-3), of "at + i"] that le assms(4) by (simp add: add.assoc)
  then have "read_mem pgs (b + of_nat at) n = Some (map (\<lambda>i. data ! (at + i)) [0..<n])"
    unfolding read_mem_def by (intro those_map_Some) simp
  also have "map (\<lambda>i. data ! (at + i)) [0..<n] = take n (drop at data)"
    using le by (intro nth_equalityI) simp_all
  finally show "read_mem pgs (b + of_nat at) n = peek at n data"
    using le by (simp add: peek_def)
qed

lemma mem_holdsD:
  assumes "mem_holds pgs b data"
  shows "at + n \<le> length data \<Longrightarrow> read_mem pgs (b + of_nat at) n = peek at n data"
    and "at + 2 \<le> length data \<Longrightarrow> mem16 pgs (b + of_nat at) = get16 at data"
    and "at + 4 \<le> length data \<Longrightarrow> mem32 pgs (b + of_nat at) = get32 at data"
    and "at + 8 \<le> length data \<Longrightarrow> mem64 pgs (b + of_nat at) = get64 at data"
    and "read_mem pgs b (length data) = Some data"
proof -
  note h = assms [unfolded mem_holds_def, rule_format]
  show "at + n \<le> length data \<Longrightarrow> read_mem pgs (b + of_nat at) n = peek at n data" by (rule h)
  show "at + 2 \<le> length data \<Longrightarrow> mem16 pgs (b + of_nat at) = get16 at data"
    "at + 4 \<le> length data \<Longrightarrow> mem32 pgs (b + of_nat at) = get32 at data"
    "at + 8 \<le> length data \<Longrightarrow> mem64 pgs (b + of_nat at) = get64 at data"
    using h by (simp_all add: mem16_def mem32_def mem64_def get16_def get32_def get64_def)
  show "read_mem pgs b (length data) = Some data"
    using h [of 0 "length data"] by (simp add: peek_def)
qed

section \<open>The loaders\<close>

locale loader =
  fixes load :: "placed list \<Rightarrow> (u64 \<times> bytes) list"
  assumes load_distinct: "distinct (loaded_addresses ps) \<Longrightarrow> distinct (map fst (load ps))"
    and load_measured: "p \<in> set ps \<Longrightarrow> pl_fill p = Measured data \<Longrightarrow>
      set (pages (pl_base p) data) \<subseteq> set (load ps)"
begin

lemma region_in_memory:
  assumes "well_placed ps memory" "proper ps" "\<forall>q\<in>set ps. loadable q" "sorted (map pl_base ps)"
    "p \<in> set ps" "pl_fill p = Measured data"
  shows "mem_holds (load ps) (pl_base p) data"
proof (rule mem_holds_region)
  have "distinct (loaded_addresses ps)"
    using loaded_ascending [OF assms(1-4)] by (simp add: strict_sorted_iff)
  then show "distinct (map fst (load ps))" by (rule load_distinct)
  show "set (pages (pl_base p) data) \<subseteq> set (load ps)" using assms(5,6) by (rule load_measured)
  show "is_multiple_of (pl_base p) PAGE" using assms(1,5) by (simp add: well_placed_def)
  have d: "vec_len_ok data" "data \<noteq> []" using assms(3,5,6) by (auto simp: loadable_def)
  have "pl_base p \<le> pl_base p + fill_span (Measured data)"
    using proper_region [OF assms(2,5)] assms(6) by (simp add: span_def)
  then have "unat (pl_base p) + page_count data * 4096 < 2 ^ 64"
    using unat_measured_span [OF d] by (simp add: word_le_plus_iff)
  moreover have "length data \<le> page_count data * 4096" by linarith
  ultimately show "unat (pl_base p) + length data \<le> 2 ^ 64" by linarith
qed

end

definition tdx_load :: "placed list \<Rightarrow> (u64 \<times> bytes) list" where
  "tdx_load ps = concat (map region_pages ps)"

text \<open>The contents of the pages the firmware fills are its own.\<close>

definition launch_memory :: "launch_page list \<Rightarrow> (u64 \<times> bytes) list" where
  "launch_memory pgs = map (\<lambda>q. (lp_gpa q, lp_data q)) (filter (\<lambda>q. lp_kind q = NORMAL) pgs)"

definition snp_load :: "placed list \<Rightarrow> (u64 \<times> bytes) list" where
  "snp_load ps = launch_memory (snp_pages ps)"

lemma tdx_load_subseq: "subseq (map fst (tdx_load ps)) (loaded_addresses ps)"
proof (induction ps)
  case Nil
  then show ?case by (simp add: tdx_load_def loaded_addresses_def)
next
  case (Cons p ps)
  have "subseq (map fst (region_pages p)) (region_addresses p)"
    by (simp add: region_pages_def region_addresses_def split: fill.split)
  then show ?case
    using Cons by (simp add: tdx_load_def loaded_addresses_def list_emb_append_mono)
qed

lemma subseq_distinct: "subseq xs ys \<Longrightarrow> distinct ys \<Longrightarrow> distinct xs"
  by (auto simp: subseq_conv_nths intro: distinct_nthsI)

interpretation tdx: loader tdx_load
proof
  show "distinct (map fst (tdx_load ps))" if "distinct (loaded_addresses ps)" for ps
    by (rule subseq_distinct [OF tdx_load_subseq that])
  show "set (pages (pl_base p) data) \<subseteq> set (tdx_load ps)"
    if "p \<in> set ps" "pl_fill p = Measured data" for p ps data
    using that by (force simp: tdx_load_def region_pages_def)
qed

lemma snp_load_subseq: "subseq (map fst (snp_load ps)) (loaded_addresses ps)"
proof -
  have "map fst (snp_load ps) = map lp_gpa (filter (\<lambda>q. lp_kind q = NORMAL) (snp_pages ps))"
    by (simp add: snp_load_def launch_memory_def comp_def)
  then show ?thesis by (simp add: subseq_map flip: snp_pages_addresses)
qed

interpretation snp: loader snp_load
proof
  show "distinct (map fst (snp_load ps))" if "distinct (loaded_addresses ps)" for ps
    by (rule subseq_distinct [OF snp_load_subseq that])
  show "set (pages (pl_base p) data) \<subseteq> set (snp_load ps)"
    if "p \<in> set ps" "pl_fill p = Measured data" for p ps data
    using that
    by (force simp: snp_load_def launch_memory_def snp_pages_concat region_launch_def
        add_region_def add_normal_def)
qed

end
