(* ===== verification/Acpi_Walk.thy ===== *)
theory Acpi_Walk
  imports Acpi Guest_Memory
begin

text \<open>
  The ACPI tables as an operating system finds them in loaded memory: from the root pointer to
  the extended system description table, by signature to a table whose bytes sum to zero, and
  through the records of the MADT to the processors and the wakeup mailbox.
\<close>

section \<open>Following the tables\<close>

text \<open>The table at an address, as long as its own header says, with a valid checksum.\<close>

definition acpi_table :: "(u64 \<times> bytes) list \<Rightarrow> u64 \<Rightarrow> bytes option" where
  "acpi_table pgs a = do {
     len \<leftarrow> mem32 pgs (a + 4);
     t \<leftarrow> read_mem pgs a (unat len);
     if sum_list t = 0 then Some t else None
   }"

fun find_table :: "(u64 \<times> bytes) list \<Rightarrow> bytes \<Rightarrow> u64 list \<Rightarrow> bytes option" where
  "find_table pgs sig [] = None"
| "find_table pgs sig (a # as) = do {
     t \<leftarrow> acpi_table pgs a;
     if take 4 t = sig then Some t else find_table pgs sig as
   }"

definition acpi_lookup :: "(u64 \<times> bytes) list \<Rightarrow> u64 \<Rightarrow> bytes \<Rightarrow> bytes option" where
  "acpi_lookup pgs rsdp sig = do {
     r \<leftarrow> read_mem pgs rsdp 36;
     if take 8 r \<noteq> [82, 83, 68, 32, 80, 84, 82, 32] \<or> sum_list (take 20 r) \<noteq> 0 \<or> sum_list r \<noteq> 0
     then None
     else do {
       at \<leftarrow> get64 24 r;
       xsdt \<leftarrow> acpi_table pgs at;
       tables \<leftarrow> those (map (\<lambda>i. get64 (36 + 8 * i) xsdt) [0..<(length xsdt - 36) div 8]);
       find_table pgs sig tables
     }
   }"

text \<open>The records of a MADT after its header: a type, a length, and the rest.\<close>

function madt_records :: "bytes \<Rightarrow> bytes list" where
  "madt_records bs =
     (if 2 \<le> length bs \<and> 2 \<le> unat (bs ! 1) \<and> unat (bs ! 1) \<le> length bs
      then take (unat (bs ! 1)) bs # madt_records (drop (unat (bs ! 1)) bs)
      else [])"
  by pat_completeness auto
termination by (relation "measure length") auto

declare madt_records.simps [simp del]

definition madt_processors :: "bytes \<Rightarrow> u8 list" where
  "madt_processors t = map (\<lambda>r. r ! 3)
     (filter (\<lambda>r. r ! 0 = MADT_LOCAL_APIC \<and> le_word (drop 4 r) = LAPIC_ENABLED)
       (madt_records (drop (unat MADT_HEADER_LEN) t)))"

definition madt_mailboxes :: "bytes \<Rightarrow> u64 list" where
  "madt_mailboxes t = map (\<lambda>r. le_word (drop 8 r))
     (filter (\<lambda>r. r ! 0 = MADT_WAKEUP) (madt_records (drop (unat MADT_HEADER_LEN) t)))"

section \<open>The tables of the measured page\<close>

lemma peek_peek:
  "peek at n w = Some t \<Longrightarrow> i + k \<le> n \<Longrightarrow> peek i k t = peek (at + i) k w"
  by (auto simp: peek_def drop_take min_def add.commute split: if_splits)

lemma table_in_memory:
  assumes "mem_holds pgs b w" "table_ok off len sig w" "8 \<le> len" "len < 2 ^ 32"
  obtains t where "acpi_table pgs (b + of_nat off) = Some t" "peek off len w = Some t"
    "take 4 t = sig" "length t = len"
proof -
  from assms(2) obtain t where t: "peek off len w = Some t" "sum_list t = 0"
    and sig: "peek off 4 w = Some sig" and l: "get32 (off + 4) w = Some (of_nat len)"
    by (auto simp: table_ok_def sums_to_zero_def)
  from t(1) have len: "off + len \<le> length w" "length t = len"
    by (auto simp: peek_def split: if_splits)
  have "mem32 pgs (b + of_nat (off + 4)) = Some (of_nat len)"
    using mem_holdsD(3) [OF assms(1), of "off + 4"] len assms(3) l by simp
  then have "mem32 pgs (b + of_nat off + 4) = Some (of_nat len)" by (simp add: add.assoc)
  moreover have "read_mem pgs (b + of_nat off) len = Some t"
    using mem_holdsD(1) [OF assms(1) len(1)] t(1) by simp
  moreover have "unat (of_nat len :: u32) = len" using assms(4) by (intro unat_of_nat_u32) simp
  ultimately have "acpi_table pgs (b + of_nat off) = Some t" using t(2) by (simp add: acpi_table_def)
  moreover have "take 4 t = sig"
    using sig t(1) assms(3) by (auto simp: peek_def min_def split: if_splits)
  ultimately show thesis using that t(1) len(2) by blast
qed

text \<open>Every table the page holds is found by its signature.\<close>

lemma acpi_lookups:
  assumes "mem_holds pgs ACPI_BASE w" "acpi_page_ok cpus wakeup w" "cpus \<le> MAX_VCPUS"
  obtains fadt madt where
    "acpi_lookup pgs ACPI_BASE [70, 65, 67, 80] = Some fadt" "peek 0x200 276 w = Some fadt"
    "acpi_lookup pgs ACPI_BASE [65, 80, 73, 67] = Some madt"
    "peek 0x500 (unat (madt_len cpus wakeup)) w = Some madt"
proof -
  from assms(2) have lw: "length w = 4096"
    and r: "peek 0 8 w = Some [82, 83, 68, 32, 80, 84, 82, 32]" "sums_to_zero 0 20 w"
      "sums_to_zero 0 36 w" "get64 24 w = Some (ACPI_BASE + 0x100)"
    and x: "table_ok 0x100 52 [88, 83, 68, 84] w" "get64 0x124 w = Some (ACPI_BASE + 0x200)"
      "get64 0x12c w = Some (ACPI_BASE + 0x500)"
    and f: "table_ok 0x200 276 [70, 65, 67, 80] w"
    and m: "table_ok 0x500 (unat (madt_len cpus wakeup)) [65, 80, 73, 67] w"
    by (simp_all add: acpi_page_ok_def layout_consts)
  obtain xsdt where xsdt: "acpi_table pgs (ACPI_BASE + of_nat 0x100) = Some xsdt"
    "peek 0x100 52 w = Some xsdt" "length xsdt = 52"
    by (rule table_in_memory [OF assms(1) x(1)]) (simp_all add: that)
  obtain fadt where fadt: "acpi_table pgs (ACPI_BASE + of_nat 0x200) = Some fadt"
    "peek 0x200 276 w = Some fadt" "take 4 fadt = [70, 65, 67, 80]"
    by (rule table_in_memory [OF assms(1) f]) (simp_all add: that)
  have ml: "8 \<le> unat (madt_len cpus wakeup)" "unat (madt_len cpus wakeup) < 2 ^ 32"
    using assms(3) by (simp_all add: unat_madt_len [OF assms(3)] layout_consts word_le_nat_alt)
  obtain madt where madt: "acpi_table pgs (ACPI_BASE + of_nat 0x500) = Some madt"
    "peek 0x500 (unat (madt_len cpus wakeup)) w = Some madt" "take 4 madt = [65, 80, 73, 67]"
    by (rule table_in_memory [OF assms(1) m ml]) (simp_all add: that)
  obtain rsdp where rsdp: "peek 0 36 w = Some rsdp" "sum_list rsdp = 0"
    using r(3) by (auto simp: sums_to_zero_def)
  have rd: "read_mem pgs ACPI_BASE 36 = Some rsdp"
    using mem_holdsD(1) [OF assms(1), of 0 36] rsdp(1) lw by simp
  have "take 8 rsdp = [82, 83, 68, 32, 80, 84, 82, 32]" "sum_list (take 20 rsdp) = 0"
    "get64 24 rsdp = Some (ACPI_BASE + 0x100)"
    using r rsdp(1) peek_peek [OF rsdp(1), of 24 8] lw
    by (auto simp: sums_to_zero_def peek_def min_def get64_def)
  note rs = this
  have p: "get64 36 xsdt = Some (ACPI_BASE + 0x200)" "get64 44 xsdt = Some (ACPI_BASE + 0x500)"
    using x(2,3) peek_peek [OF xsdt(2), of 36 8] peek_peek [OF xsdt(2), of 44 8]
    by (simp_all add: get64_def)
  have "acpi_lookup pgs ACPI_BASE sig =
      find_table pgs sig [ACPI_BASE + 0x200, ACPI_BASE + 0x500]" for sig
    using xsdt(1,3) p by (simp add: acpi_lookup_def rd rs rsdp(2) upt_rec)
  then show thesis
    using that fadt madt by simp
qed

lemma madt_records_Cons:
  assumes "2 \<le> length r" "r ! 1 = of_nat (length r)" "length r < 256"
  shows "madt_records (r @ bs) = r # madt_records bs"
proof -
  have "unat ((r @ bs) ! 1) = length r"
    using assms by (simp add: nth_append unat_of_nat_u8)
  then show ?thesis using assms(1) by (subst madt_records.simps) simp
qed

lemma madt_records_lapics:
  "madt_records (concat (map lapic_entry ids) @ bs) = map lapic_entry ids @ madt_records bs"
proof (induction ids)
  case Nil
  then show ?case by simp
next
  case (Cons i ids)
  have "madt_records (lapic_entry i @ (concat (map lapic_entry ids) @ bs)) =
      lapic_entry i # madt_records (concat (map lapic_entry ids) @ bs)"
    by (rule madt_records_Cons) (simp_all add: lapic_entry_def)
  with Cons show ?case by simp
qed

text \<open>The processors and the mailbox of the MADT are those the builder was asked for.\<close>

lemma madt_contents:
  assumes "acpi_page_ok cpus wakeup w" "cpus \<le> MAX_VCPUS"
    "peek 0x500 (unat (madt_len cpus wakeup)) w = Some madt"
  shows "madt_processors madt = map of_nat [0..<unat cpus]"
    "madt_mailboxes madt = (if wakeup then [MAILBOX] else [])"
proof -
  let ?n = "unat cpus" and ?wl = "if wakeup then 16 else 0 :: nat"
  let ?ids = "concat (map lapic_entry [0..<?n])"
  have len: "unat (madt_len cpus wakeup) = 44 + 8 * ?n + ?wl" by (rule unat_madt_len [OF assms(2)])
  from assms(1) have e: "madt_entries ?n wakeup w" by (simp add: acpi_page_ok_def)
  have pk: "peek i k madt = peek (0x500 + i) k w" if "i + k \<le> 44 + 8 * ?n + ?wl" for i k
    using peek_peek [OF assms(3), of i k] that len by simp
  have lm: "length madt = 44 + 8 * ?n + ?wl"
    using assms(3) len by (auto simp: peek_def split: if_splits)
  have nth: "madt ! i = w ! (0x500 + i)" if "i < length madt" for i
    using assms(3) that by (auto simp: peek_def split: if_splits)
  have wk: "read_at (0x52c + 8 * ?n) w = Some MADT_WAKEUP" "read_at (0x52c + 8 * ?n + 1) w = Some 16"
    "get64 (0x52c + 8 * ?n + 8) w = Some MAILBOX" if wakeup
    using e that unfolding madt_entries_def by blast+
  have rd: "w ! i = x" if "read_at i w = Some x" for i x
    using that by (simp add: read_at_def split: if_splits)
  let ?wake = "drop (44 + 8 * ?n) madt"
  have "take (8 * ?n) (drop 44 madt) = ?ids"
    using pk [of 44 "8 * ?n"] e lm by (simp add: madt_entries_def peek_def split: if_splits)
  then have d: "drop 44 madt = ?ids @ ?wake"
    by (metis append_take_drop_id drop_drop add.commute)
  have nil: "madt_records [] = []" by (subst madt_records.simps) simp
  have recs: "madt_records (drop 44 madt) =
      map lapic_entry [0..<?n] @ (if wakeup then [?wake] else [])"
  proof (cases wakeup)
    case False
    then have "?wake = []" using lm by simp
    then show ?thesis
      using False nil madt_records_lapics [of _ "[]"] by (simp add: d)
  next
    case True
    have "?wake ! 1 = w ! (0x52c + 8 * ?n + 1)"
      using nth [of "44 + 8 * ?n + 1"] lm True by simp
    also have "\<dots> = 16"
      by (rule rd [OF wk(2) [OF True]])
    finally have "?wake ! 1 = of_nat (length ?wake)" using lm True by simp
    then have "madt_records (?wake @ []) = ?wake # madt_records []"
      using lm True by (intro madt_records_Cons) simp_all
    then show ?thesis
      using True nil by (simp add: d madt_records_lapics)
  qed
  have w0: "wakeup \<Longrightarrow> ?wake ! 0 = MADT_WAKEUP"
    using nth [of "44 + 8 * ?n"] lm rd [OF wk(1)] by simp
  have w8: "wakeup \<Longrightarrow> le_word (drop 8 ?wake) = MAILBOX"
  proof -
    assume wakeup
    then have "peek (44 + 8 * ?n + 8) 8 madt = peek (0x52c + 8 * ?n + 8) 8 w"
      using pk [of "44 + 8 * ?n + 8" 8] by (simp add: add.assoc)
    moreover have "peek (44 + 8 * ?n + 8) 8 madt = Some (drop 8 ?wake)"
      using lm \<open>wakeup\<close> by (simp add: peek_def add.commute)
    moreover have "get64 (0x52c + 8 * ?n + 8) w = Some MAILBOX"
      using wk(3) \<open>wakeup\<close> by blast
    ultimately show "le_word (drop 8 ?wake) = MAILBOX" by (simp add: get64_def)
  qed
  have le: "le_word (drop 4 (lapic_entry i)) = LAPIC_ENABLED" "lapic_entry i ! 3 = of_nat i"
    "lapic_entry i ! 0 = MADT_LOCAL_APIC" "lapic_entry i ! 0 \<noteq> MADT_WAKEUP" for i
    by (simp_all add: lapic_entry_def layout_consts)
  have h: "unat MADT_HEADER_LEN = 44" by (simp add: layout_consts)
  have wl: "MADT_WAKEUP \<noteq> MADT_LOCAL_APIC" by (simp add: layout_consts)
  show "madt_processors madt = map of_nat [0..<?n]"
    using w0 wl by (simp add: madt_processors_def h recs filter_map comp_def le)
  show "madt_mailboxes madt = (if wakeup then [MAILBOX] else [])"
    using w0 w8 wl by (simp add: madt_mailboxes_def h recs filter_map comp_def le wl [symmetric])
qed

end
