(* ===== verification/Handover.thy ===== *)
theory Handover
  imports Acpi_Walk Snp_Properties
begin

text \<open>
  What the kernel finds: the readers a Linux guest starts with (the boot protocol's zero page,
  the command line, the initial ramdisk, the ACPI tables, the confidential-computing blob),
  over the memory a loader makes of a published image. The theorems say that these readers
  give back the inputs of the build; they join the placement, the encodings and the loader.
\<close>

section \<open>The readers\<close>

text \<open>Everything starts at the address of the zero page, which the shim passes in \<open>rsi\<close>.\<close>

definition boot_e820 :: "(u64 \<times> bytes) list \<Rightarrow> u64 \<Rightarrow> e820_entry list option" where
  "boot_e820 pgs zp = do { page \<leftarrow> read_mem pgs zp 4096; read_e820 page }"

definition boot_ramdisk :: "(u64 \<times> bytes) list \<Rightarrow> u64 \<Rightarrow> bytes option" where
  "boot_ramdisk pgs zp = do {
     at \<leftarrow> mem32 pgs (zp + of_nat HDR_RAMDISK_IMAGE);
     n \<leftarrow> mem32 pgs (zp + of_nat HDR_RAMDISK_SIZE);
     read_mem pgs (ucast at) (unat n)
   }"

definition boot_command :: "(u64 \<times> bytes) list \<Rightarrow> u64 \<Rightarrow> bytes option" where
  "boot_command pgs zp = do {
     at \<leftarrow> mem32 pgs (zp + of_nat HDR_CMD_LINE_PTR);
     page \<leftarrow> read_mem pgs (ucast at) 4096;
     Some (c_string page)
   }"

definition boot_madt :: "(u64 \<times> bytes) list \<Rightarrow> u64 \<Rightarrow> bytes option" where
  "boot_madt pgs zp = do {
     rsdp \<leftarrow> mem64 pgs (zp + of_nat BP_ACPI_RSDP_ADDR);
     acpi_lookup pgs rsdp [65, 80, 73, 67]
   }"

text \<open>
  The addresses and sizes of the secrets and CPUID pages: the one \<open>setup_data\<close> record is of
  the confidential-computing type and leads to a blob with the right magic and version.
\<close>

definition boot_cc :: "(u64 \<times> bytes) list \<Rightarrow> u64 \<Rightarrow> (u64 \<times> u32 \<times> u64 \<times> u32) option" where
  "boot_cc pgs zp = do {
     node \<leftarrow> mem64 pgs (zp + of_nat HDR_SETUP_DATA);
     kind \<leftarrow> mem32 pgs (node + of_nat SETUP_DATA_TYPE);
     at \<leftarrow> mem32 pgs (node + of_nat SETUP_DATA_DATA);
     magic \<leftarrow> read_mem pgs (ucast at) 4;
     version \<leftarrow> mem16 pgs (ucast at + of_nat CC_VERSION);
     if kind \<noteq> SETUP_CC_BLOB \<or> magic \<noteq> CC_MAGIC \<or> version \<noteq> 1 then None
     else do {
       secrets \<leftarrow> mem64 pgs (ucast at + of_nat CC_SECRETS_PHYS);
       secrets_len \<leftarrow> mem32 pgs (ucast at + of_nat CC_SECRETS_LEN);
       cpuid \<leftarrow> mem64 pgs (ucast at + of_nat CC_CPUID_PHYS);
       cpuid_len \<leftarrow> mem32 pgs (ucast at + of_nat CC_CPUID_LEN);
       Some (secrets, secrets_len, cpuid, cpuid_len)
     }
   }"

text \<open>
  What the memory map should say of an address: nothing beyond the memory and in an aperture,
  ACPI on the page of the tables, reserved on what the builder keeps for the shim and the hand
  over (given by base and size), RAM everywhere else, the kernel and the ramdisk included.
\<close>

definition map_type :: "params \<Rightarrow> (u64 \<times> u64) list \<Rightarrow> u64 \<Rightarrow> u32 option" where
  "map_type params kept a =
     (if p_memory params \<le> a \<or> in_aperture params a then None
      else if ACPI_BASE \<le> a \<and> a < ACPI_BASE + PAGE then Some ACPI
      else if list_ex (\<lambda>(b, n). b \<le> a \<and> a < b + n) kept then Some RESERVED
      else Some RAM)"

definition tdx_reserved :: "(u64 \<times> u64) list" where
  "tdx_reserved =
     [(ZERO_PAGE, PAGE), (CMDLINE, PAGE), (MAILBOX, PAGE), (PAGE_TABLES, 2 * PAGE),
      (BSP_STACK, BSP_STACK_SIZE), (KERNEL_SETUP_BASE, 0x2f000), (RESET_ALIAS, PAGE)]"

definition snp_reserved :: "(u64 \<times> u64) list" where
  "snp_reserved =
     [(ZERO_PAGE, PAGE), (CMDLINE, PAGE), (SNP_CPUID, PAGE), (SNP_SECRETS, PAGE),
      (PAGE_TABLES, 3 * PAGE), (BSP_STACK, BSP_STACK_SIZE), (SNP_GHCB, PAGE), (SHIM_BASE, PAGE),
      (KERNEL_SETUP_BASE, 0x2f000)]"

text \<open>The inputs of a build, as its kernel finds them.\<close>

definition finds_inputs ::
  "(u64 \<times> bytes) list \<Rightarrow> u64 \<Rightarrow> params \<Rightarrow> bytes \<Rightarrow> bytes \<Rightarrow> bool \<Rightarrow> (u64 \<times> u64) list \<Rightarrow> bool" where
  "finds_inputs pgs zp params kf ir wakeup kept \<longleftrightarrow>
     (let payload = drop (ki_setup_bytes (info_of kf)) kf
      in read_mem pgs KERNEL_BASE (length payload) = Some payload) \<and>
     boot_ramdisk pgs zp = Some ir \<and>
     boot_command pgs zp = Some (utf8 (p_cmdline params)) \<and>
     (\<exists>madt. boot_madt pgs zp = Some madt \<and>
        madt_processors madt = map of_nat [0..<unat (p_vcpus params)] \<and>
        madt_mailboxes madt = (if wakeup then [MAILBOX] else [])) \<and>
     (\<exists>emap. boot_e820 pgs zp = Some emap \<and>
        (\<forall>a. e820_type emap a = map_type params kept a))"

section \<open>From the parts of a map\<close>

lemma command_page:
  assumes "prepare_inputs kf ir params = Inr p" "\<forall>b\<in>set (utf8 (p_cmdline params)). b \<noteq> 0"
    "length (utf8 (p_cmdline params)) < 4096"
  shows "c_string (pr_command p) = utf8 (p_cmdline params)"
proof -
  let ?c = "utf8 (p_cmdline params)"
  have "pr_command p = ?c @ 0 # replicate (4095 - length ?c) 0"
    using prepare_inputs_shape(6) [OF assms(1)] assms(3) by (simp add: resize_def)
  then show ?thesis using assms(2) by (simp add: c_string_def takeWhile_append2)
qed

lemma finds_from_regions:
  assumes prep: "prepare_inputs kf ir params = Inr p"
    and zero: "zero_page (pr_setup p) (pr_info p) (length (pr_initramfs p)) ACPI_BASE emap sd = Inr zero"
    and acpi: "acpi_build (p_vcpus params) wakeup = Some acpi"
    and holds: "mem_holds pgs ZERO_PAGE zero" "mem_holds pgs CMDLINE (pr_command p)"
      "mem_holds pgs ACPI_BASE acpi" "mem_holds pgs KERNEL_BASE (pr_kernel p)"
      "mem_holds pgs INITRAMFS_BASE (pr_initramfs p)"
    and ok: "p_vcpus params \<le> MAX_VCPUS" "length ir < 2 ^ 32"
      "\<forall>b\<in>set (utf8 (p_cmdline params)). b \<noteq> 0" "length (utf8 (p_cmdline params)) < 4096"
    and e820: "\<And>a. e820_type emap a = map_type params kept a"
  shows "finds_inputs pgs ZERO_PAGE params kf ir wakeup kept"
proof -
  note sh = prepare_inputs_shape [OF prep]
  have "0x290 \<le> length (pr_setup p)" using sh(1) by simp
  from zero_page_fields [OF this zero] have z: "length zero = 4096" "read_e820 zero = Some emap"
    "get64 BP_ACPI_RSDP_ADDR zero = Some ACPI_BASE"
    "get32 HDR_RAMDISK_IMAGE zero = Some (ucast INITRAMFS_BASE)"
    "get32 HDR_RAMDISK_SIZE zero = Some (of_nat (length ir))"
    "get32 HDR_CMD_LINE_PTR zero = Some (ucast CMDLINE)"
    using sh(3) by simp_all
  have f: "mem64 pgs (ZERO_PAGE + of_nat BP_ACPI_RSDP_ADDR) = Some ACPI_BASE"
    "mem32 pgs (ZERO_PAGE + of_nat HDR_RAMDISK_IMAGE) = Some (ucast INITRAMFS_BASE)"
    "mem32 pgs (ZERO_PAGE + of_nat HDR_RAMDISK_SIZE) = Some (of_nat (length ir))"
    "mem32 pgs (ZERO_PAGE + of_nat HDR_CMD_LINE_PTR) = Some (ucast CMDLINE)"
    using mem_holdsD(3,4) [OF holds(1)] z
    by (simp_all only: layout_consts)
  have u: "(ucast (ucast INITRAMFS_BASE :: u32) :: u64) = INITRAMFS_BASE"
    "(ucast (ucast CMDLINE :: u32) :: u64) = CMDLINE"
    by (simp_all add: layout_consts)
  have n: "unat (of_nat (length ir) :: u32) = length ir"
    using ok(2) by (intro unat_of_nat_u32) simp
  have "boot_ramdisk pgs ZERO_PAGE = Some ir"
    using mem_holdsD(5) [OF holds(5)] sh(3) by (simp add: boot_ramdisk_def f u n)
  moreover have "boot_command pgs ZERO_PAGE = Some (utf8 (p_cmdline params))"
    using mem_holdsD(5) [OF holds(2)] sh(2) command_page [OF prep ok(3,4)]
    by (simp add: boot_command_def f u)
  moreover have "boot_e820 pgs ZERO_PAGE = Some emap"
    using mem_holdsD(5) [OF holds(1)] z(1,2) by (simp add: boot_e820_def)
  moreover obtain madt where "boot_madt pgs ZERO_PAGE = Some madt"
    "madt_processors madt = map of_nat [0..<unat (p_vcpus params)]"
    "madt_mailboxes madt = (if wakeup then [MAILBOX] else [])"
  proof -
    have page: "acpi_page_ok (p_vcpus params) wakeup acpi"
      using acpi_build_ok [OF ok(1), of wakeup] acpi by simp
    obtain fadt madt where m: "acpi_lookup pgs ACPI_BASE [65, 80, 73, 67] = Some madt"
      "peek 0x500 (unat (madt_len (p_vcpus params) wakeup)) acpi = Some madt"
      by (rule acpi_lookups [OF holds(3) page ok(1)])
    show thesis
      by (rule that [OF _ madt_contents [OF page ok(1) m(2)]]) (simp add: boot_madt_def f m(1))
  qed
  moreover have "read_mem pgs KERNEL_BASE (length (pr_kernel p)) = Some (pr_kernel p)"
    by (rule mem_holdsD(5) [OF holds(4)])
  ultimately show ?thesis
    using e820 sh(9) unfolding finds_inputs_def Let_def by metis
qed

text \<open>Where the regions of each type are where they should be, the map in the zero page is the one wanted.\<close>

definition typed_at :: "placed list \<Rightarrow> u32 \<Rightarrow> u64 \<Rightarrow> bool" where
  "typed_at placed t a \<longleftrightarrow> (\<exists>q\<in>set placed. pl_e820 q = t \<and> covers q a)"

lemma e820_is_map_type:
  assumes "validate placed (p_memory params) = Inr ()" "proper placed"
    "\<forall>q\<in>set placed. pl_e820 q \<in> {ABSENT, ACPI, RESERVED, RAM}"
    and at: "typed_at placed ABSENT a \<longleftrightarrow> in_aperture params a"
      "typed_at placed ACPI a \<longleftrightarrow> ACPI_BASE \<le> a \<and> a < ACPI_BASE + PAGE"
      "typed_at placed RESERVED a \<longleftrightarrow> list_ex (\<lambda>(b, n). b \<le> a \<and> a < b + n) kept"
  shows "e820_type (e820 placed (p_memory params)) a = map_type params kept a"
proof -
  note wp = validate_well_placed [OF assms(2), THEN iffD1, OF assms(1)]
  have d: "ABSENT \<noteq> ACPI" "ABSENT \<noteq> RESERVED" "ABSENT \<noteq> RAM" "ACPI \<noteq> RESERVED" "ACPI \<noteq> RAM" "RESERVED \<noteq> RAM"
    by (simp_all add: layout_consts)
  have "region_type placed (p_memory params) a = map_type params kept a"
  proof (cases "find (\<lambda>q. covers q a) placed")
    case None
    then have "\<not> typed_at placed t a" for t by (auto simp: find_None_iff typed_at_def)
    with None at show ?thesis by (auto simp: region_type_def map_type_def)
  next
    case (Some q)
    then have q: "q \<in> set placed" "covers q a" by (auto simp: find_Some_iff)
    then have "typed_at placed t a \<longleftrightarrow> pl_e820 q = t" for t
      using covers_unique [OF wp] unfolding typed_at_def by blast
    with Some at d bspec [OF assms(3) q(1)] show ?thesis
      by (auto simp: region_type_def map_type_def)
  qed
  then show ?thesis
    using e820_type_eq [OF validate_disjoint [OF assms(1) proper_no_wrap [OF assms(2)]]] by metis
qed

lemma aperture_at:
  "(\<exists>q\<in>(\<lambda>(b, n). placed_mmio b n) ` set (p_mmio params). pl_e820 q = t \<and> covers q a) \<longleftrightarrow>
     t = ABSENT \<and> in_aperture params a"
  by (auto simp: in_aperture_def covers_def split_beta)

section \<open>A published TDX image\<close>

lemma tdx_finished_types:
  assumes "fixed_parts acpi tables stack zero shim_page" "sized params p"
  defines "m \<equiv> tdx_finished params p acpi tables stack zero shim_page"
  shows "\<forall>q\<in>set m. pl_e820 q \<in> {ABSENT, ACPI, RESERVED, RAM}"
    and "typed_at m ABSENT a \<longleftrightarrow> in_aperture params a"
    and "typed_at m ACPI a \<longleftrightarrow> ACPI_BASE \<le> a \<and> a < ACPI_BASE + PAGE"
    and "typed_at m RESERVED a \<longleftrightarrow> list_ex (\<lambda>(b, n). b \<le> a \<and> a < b + n) tdx_reserved"
proof -
  have l: "length acpi = 4096" "length tables = 8192" "length stack = 65536" "length zero = 4096"
    "length shim_page = 4096" "length (pr_command p) = 4096" "length (pr_setup p) = 0x2f000"
    using assms(1,2) by (simp_all add: fixed_parts_def sized_def)
  note t = typed_at_def m_def tdx_finished_members bex_Un aperture_at
    and spans = l one_page_span fixed_spans covers_def span_def layout_consts
  show "\<forall>q\<in>set m. pl_e820 q \<in> {ABSENT, ACPI, RESERVED, RAM}"
    unfolding m_def tdx_finished_members ball_Un by auto
  show "typed_at m ABSENT a \<longleftrightarrow> in_aperture params a"
    unfolding typed_at_def m_def tdx_finished_members bex_Un aperture_at by (simp add: layout_consts)
  show "typed_at m ACPI a \<longleftrightarrow> ACPI_BASE \<le> a \<and> a < ACPI_BASE + PAGE"
    unfolding t by (simp add: spans)
  show "typed_at m RESERVED a \<longleftrightarrow> list_ex (\<lambda>(b, n). b \<le> a \<and> a < b + n) tdx_reserved"
    unfolding t tdx_reserved_def by (auto simp: spans)
qed

text \<open>The inputs fit the 32-bit fields of the zero page.\<close>

lemma prepared_ramdisk_size:
  assumes "prepare_inputs kf ir params = Inr p" "vec_len_ok kf" "vec_len_ok ir"
    "is_multiple_of (p_memory params) PAGE" "length (utf8 (p_cmdline params)) < 4096"
  shows "length ir < 2 ^ 32"
proof -
  note sh = prepare_inputs_shape [OF assms(1)]
  have "length (pr_kernel p) < 2 ^ 63" "length ir < 2 ^ 63"
    using assms(2,3) sh(9) by (simp_all add: vec_len_ok_def)
  from prepare_checks_Inr_iff [OF this assms(4), of "info_of kf"] sh(10) assms(5)
  have "prepare_fits (info_of kf) (length (pr_kernel p)) (length ir) params" by simp
  then show ?thesis by (simp add: prepare_fits_def)
qed

text \<open>The memory a loader makes of a finished map holds every measured region of it.\<close>

lemma tdx_memory_holds:
  assumes "tdx_launch_facts ex params p placed" "pr_initramfs p \<noteq> []"
    "q \<in> set placed" "pl_fill q = Measured data"
  shows "mem_holds (tdx_load (sort_key pl_base placed)) (pl_base q) data"
proof (rule tdx.region_in_memory)
  from assms(1,2) have v: "validate placed (p_memory params) = Inr ()" and pp: "proper placed"
    and ld: "\<forall>q\<in>set placed. loadable q"
    by (simp_all add: tdx_launch_facts_def)
  show "well_placed (sort_key pl_base placed) (p_memory params)"
    using v validate_well_placed [OF pp] by (simp add: sort_key_placement)
  show "proper (sort_key pl_base placed)" "\<forall>q\<in>set (sort_key pl_base placed). loadable q"
    "sorted (map pl_base (sort_key pl_base placed))" "q \<in> set (sort_key pl_base placed)"
    using pp ld assms(3) by (simp_all add: sort_key_placement)
qed (rule assms(4))

lemma tdx_place_finds:
  assumes "tdx_place ex params p = Inr (placed, owned)" "prepare_inputs kf ir params = Inr p"
    and "tdx_params ram vcpus cmdline holes = Inr params" "apertures_ok params" "ir \<noteq> []"
    and "vec_len_ok kf" "vec_len_ok ir" "length (ex_reset_shim ex) = 4096"
    and "length (utf8 (p_cmdline params)) < 4096"
  shows "finds_inputs (tdx_load (sort_key pl_base placed)) ZERO_PAGE params kf ir True tdx_reserved"
proof -
  note np = assms(3) [unfolded tdx_params_def]
  have v: "p_vcpus params \<le> MAX_VCPUS" "is_multiple_of (p_memory params) PAGE"
    "\<forall>b\<in>set (utf8 (p_cmdline params)). b \<noteq> 0"
    using np new_params_memory [OF np] by (elim new_paramsE; simp)+
  have sized: "sized params p" by (rule prepared_sized [OF assms(2) v(1) assms(6,7)])
  have ne: "pr_initramfs p \<noteq> []" using prepare_inputs_shape(3) [OF assms(2)] assms(5) by simp
  note facts = tdx_place_facts [OF assms(1) sized assms(8,4)]
  have len: "length (pr_setup p) = 0x2f000" using sized by (simp add: sized_def)
  obtain acpi tables stack zero shim_page where
    parts: "tdx_measured_parts params acpi tables stack"
    and placed: "placed = tdx_finished params p acpi tables stack zero shim_page"
    and lz: "length zero = 4096" "length shim_page = 4096"
    and zero: "zero_page (pr_setup p) (pr_info p) (length (pr_initramfs p)) ACPI_BASE
       (e820 placed (p_memory params)) 0 = Inr zero"
    by (rule tdx_placeE [OF assms(1) v(1) len assms(8)]) (rule that)
  from facts have va: "validate placed (p_memory params) = Inr ()" and pp: "proper placed"
    by (simp_all add: tdx_launch_facts_def)
  have fixed: "fixed_parts acpi tables stack zero shim_page"
    using lz fixed_lengths(1) [OF v(1), of True acpi]
      fixed_lengths(2) [of 0 False tables] fixed_lengths(3) [of stack] parts
    by (simp add: fixed_parts_def tdx_measured_parts_def)
  note e = e820_is_map_type [OF va pp tdx_finished_types [OF fixed sized, folded placed]]
  have h: "mem_holds (tdx_load (sort_key pl_base placed)) b data"
    if "placed_measured b name t data \<in> set placed" for b name t data
    using tdx_memory_holds [OF facts ne that, of data] by simp
  have m: "placed_measured ZERO_PAGE [] RESERVED zero \<in> set placed"
    "placed_measured CMDLINE (lit ''command_line'') RESERVED (pr_command p) \<in> set placed"
    "placed_measured ACPI_BASE (lit ''acpi'') ACPI acpi \<in> set placed"
    "placed_measured KERNEL_BASE (lit ''kernel'') RAM (pr_kernel p) \<in> set placed"
    "placed_measured INITRAMFS_BASE (lit ''initramfs'') RAM (pr_initramfs p) \<in> set placed"
    unfolding placed tdx_finished_members by blast+
  have "acpi_build (p_vcpus params) True = Some acpi"
    using parts by (simp add: tdx_measured_parts_def)
  from finds_from_regions [OF assms(2) zero this m [THEN h] v(1)
      prepared_ramdisk_size [OF assms(2,6,7) v(2) assms(9)] v(3) assms(9) e]
  show ?thesis .
qed

section \<open>A published SNP image\<close>

lemma snp_finished_types:
  assumes "snp_fixed_parts acpi blob tables stack zero shim_page" "sized params p"
  defines "m \<equiv> snp_finished params p acpi blob tables stack zero shim_page"
  shows "\<forall>q\<in>set m. pl_e820 q \<in> {ABSENT, ACPI, RESERVED, RAM}"
    and "typed_at m ABSENT a \<longleftrightarrow> in_aperture params a"
    and "typed_at m ACPI a \<longleftrightarrow> ACPI_BASE \<le> a \<and> a < ACPI_BASE + PAGE"
    and "typed_at m RESERVED a \<longleftrightarrow> list_ex (\<lambda>(b, n). b \<le> a \<and> a < b + n) snp_reserved"
proof -
  have l: "length acpi = 4096" "length blob = 4096" "length tables = 12288" "length stack = 65536"
    "length zero = 4096" "length shim_page = 4096" "length (pr_command p) = 4096"
    "length (pr_setup p) = 0x2f000"
    using assms(1,2) by (simp_all add: snp_fixed_parts_def sized_def)
  have f: "fill_span (Measured tables) = 0x3000" "fill_span Host = 0x1000"
    using l(3) by (simp_all add: fill_span_def align_up_def div_ceil_def PAGE_def)
  note t = typed_at_def m_def snp_finished_members bex_Un aperture_at
    and spans = l f one_page_span fixed_spans covers_def span_def placed_host_def layout_consts
  show "\<forall>q\<in>set m. pl_e820 q \<in> {ABSENT, ACPI, RESERVED, RAM}"
    unfolding m_def snp_finished_members ball_Un by (auto simp: placed_host_def)
  show "typed_at m ABSENT a \<longleftrightarrow> in_aperture params a"
    unfolding typed_at_def m_def snp_finished_members bex_Un aperture_at
    by (simp add: placed_host_def layout_consts)
  show "typed_at m ACPI a \<longleftrightarrow> ACPI_BASE \<le> a \<and> a < ACPI_BASE + PAGE"
    unfolding t by (simp add: spans)
  show "typed_at m RESERVED a \<longleftrightarrow> list_ex (\<lambda>(b, n). b \<le> a \<and> a < b + n) snp_reserved"
    unfolding t snp_reserved_def by (simp add: spans)
qed

lemma snp_memory_holds:
  assumes "snp_launch_facts ex params p placed emap" "pr_initramfs p \<noteq> []"
    "q \<in> set placed" "pl_fill q = Measured data"
  shows "mem_holds (snp_load (sort_key pl_base placed)) (pl_base q) data"
proof (rule snp.region_in_memory)
  from assms(1,2) have v: "validate placed (p_memory params) = Inr ()" and pp: "proper placed"
    and ld: "\<forall>q\<in>set placed. loadable q"
    by (simp_all add: snp_launch_facts_def)
  show "well_placed (sort_key pl_base placed) (p_memory params)"
    using v validate_well_placed [OF pp] by (simp add: sort_key_placement)
  show "proper (sort_key pl_base placed)" "\<forall>q\<in>set (sort_key pl_base placed). loadable q"
    "sorted (map pl_base (sort_key pl_base placed))" "q \<in> set (sort_key pl_base placed)"
    using pp ld assms(3) by (simp_all add: sort_key_placement)
qed (rule assms(4))

text \<open>The two pages the firmware fills are in the image, each with its kind.\<close>

definition special_page :: "launch_page list \<Rightarrow> u64 \<Rightarrow> page_type \<Rightarrow> bool" where
  "special_page pgs gpa kind \<longleftrightarrow> (\<exists>q\<in>set pgs. lp_gpa q = gpa \<and> lp_kind q = kind)"

lemma host_page_is_special:
  assumes "placed_host b \<in> set ps"
  shows "special_page (snp_pages ps) b (if b = SNP_CPUID then CPUID_DATA else SECRETS)"
proof -
  have "\<exists>q\<in>set (region_launch (placed_host b)). lp_gpa q = b \<and>
      lp_kind q = (if b = SNP_CPUID then CPUID_DATA else SECRETS)"
    by (simp add: region_launch_def add_region_def add_special_def)
  then show ?thesis
    using assms unfolding special_page_def snp_pages_concat by fastforce
qed

lemma cc_from_regions:
  assumes "mem_holds pgs ZERO_PAGE zero" "get64 HDR_SETUP_DATA zero = Some SNP_CC_BLOB"
    "mem_holds pgs SNP_CC_BLOB blob" "cc_blob = Some blob" "length zero = 4096"
  shows "boot_cc pgs ZERO_PAGE = Some (SNP_SECRETS, ucast PAGE, SNP_CPUID, ucast PAGE)"
proof -
  let ?b = "SNP_CC_BLOB + of_nat CC_BLOB_INFO"
  have b: "length blob = 4096" "get32 SETUP_DATA_TYPE blob = Some SETUP_CC_BLOB"
    "get32 SETUP_DATA_DATA blob = Some (ucast SNP_CC_BLOB + of_nat CC_BLOB_INFO)"
    "peek CC_BLOB_INFO 4 blob = Some CC_MAGIC" "get16 (CC_BLOB_INFO + CC_VERSION) blob = Some 1"
    "get64 (CC_BLOB_INFO + CC_SECRETS_PHYS) blob = Some SNP_SECRETS"
    "get32 (CC_BLOB_INFO + CC_SECRETS_LEN) blob = Some (ucast PAGE)"
    "get64 (CC_BLOB_INFO + CC_CPUID_PHYS) blob = Some SNP_CPUID"
    "get32 (CC_BLOB_INFO + CC_CPUID_LEN) blob = Some (ucast PAGE)"
    using cc_blob_points_at_the_special_pages [unfolded assms(4) option.inject]
    by (auto simp: PAGE_def)
  have m: "mem64 pgs (ZERO_PAGE + of_nat HDR_SETUP_DATA) = Some SNP_CC_BLOB"
    using mem_holdsD(4) [OF assms(1), of HDR_SETUP_DATA] assms(2,5) by (simp add: layout_consts)
  note h = mem_holdsD(1-4) [OF assms(3)]
  have n: "mem32 pgs (SNP_CC_BLOB + of_nat SETUP_DATA_TYPE) = Some SETUP_CC_BLOB"
    "mem32 pgs (SNP_CC_BLOB + of_nat SETUP_DATA_DATA) = Some (ucast SNP_CC_BLOB + of_nat CC_BLOB_INFO)"
    "read_mem pgs ?b 4 = Some CC_MAGIC" "mem16 pgs (?b + of_nat CC_VERSION) = Some 1"
    "mem64 pgs (?b + of_nat CC_SECRETS_PHYS) = Some SNP_SECRETS"
    "mem32 pgs (?b + of_nat CC_SECRETS_LEN) = Some (ucast PAGE)"
    "mem64 pgs (?b + of_nat CC_CPUID_PHYS) = Some SNP_CPUID"
    "mem32 pgs (?b + of_nat CC_CPUID_LEN) = Some (ucast PAGE)"
    using b h(3) [of SETUP_DATA_TYPE] h(3) [of SETUP_DATA_DATA] h(1) [of CC_BLOB_INFO 4]
      h(2) [of "CC_BLOB_INFO + CC_VERSION"] h(4) [of "CC_BLOB_INFO + CC_SECRETS_PHYS"]
      h(3) [of "CC_BLOB_INFO + CC_SECRETS_LEN"] h(4) [of "CC_BLOB_INFO + CC_CPUID_PHYS"]
      h(3) [of "CC_BLOB_INFO + CC_CPUID_LEN"]
    by (simp_all add: layout_consts)
  have u: "(ucast (ucast SNP_CC_BLOB + of_nat CC_BLOB_INFO :: u32) :: u64) = ?b"
    by (simp add: layout_consts)
  show ?thesis by (simp add: boot_cc_def m n u)
qed

lemma snp_place_finds:
  assumes "snp_place ex params p = Inr (placed, emap, owned)" "prepare_inputs kf ir params = Inr p"
    and "snp_params ram vcpus cbit cmdline holes = Inr params" "apertures_ok params" "ir \<noteq> []"
    and "vec_len_ok kf" "vec_len_ok ir" "length (ex_snp_shim ex) = 4096"
    and "length (utf8 (p_cmdline params)) < 4096"
  shows "finds_inputs (snp_load (sort_key pl_base placed)) ZERO_PAGE params kf ir False snp_reserved"
    and "boot_cc (snp_load (sort_key pl_base placed)) ZERO_PAGE =
      Some (SNP_SECRETS, ucast PAGE, SNP_CPUID, ucast PAGE)"
    and "special_page (snp_pages (sort_key pl_base placed)) SNP_SECRETS SECRETS"
    and "special_page (snp_pages (sort_key pl_base placed)) SNP_CPUID CPUID_DATA"
proof -
  let ?mem = "snp_load (sort_key pl_base placed)"
  note np = assms(3) [unfolded snp_params_def]
  have v: "p_vcpus params \<le> MAX_VCPUS" "is_multiple_of (p_memory params) PAGE"
    "\<forall>b\<in>set (utf8 (p_cmdline params)). b \<noteq> 0"
    using np new_params_memory [OF np] by (elim new_paramsE; simp)+
  have sized: "sized params p" by (rule prepared_sized [OF assms(2) v(1) assms(6,7)])
  have ne: "pr_initramfs p \<noteq> []" using prepare_inputs_shape(3) [OF assms(2)] assms(5) by simp
  note facts = snp_place_facts [OF assms(1) sized assms(8,4)]
  have len: "length (pr_setup p) = 0x2f000" using sized by (simp add: sized_def)
  obtain acpi blob tables stack zero shim_page where
    parts: "snp_measured_parts params acpi blob tables stack"
    and placed: "placed = snp_finished params p acpi blob tables stack zero shim_page"
    and fixed: "snp_fixed_parts acpi blob tables stack zero shim_page"
    and zero: "zero_page (pr_setup p) (pr_info p) (length (pr_initramfs p)) ACPI_BASE
       (e820 placed (p_memory params)) SNP_CC_BLOB = Inr zero"
    by (rule snp_placeE [OF assms(1) v(1) len assms(8)]) (rule that)
  from facts have va: "validate placed (p_memory params) = Inr ()" and pp: "proper placed"
    by (simp_all add: snp_launch_facts_def)
  note e = e820_is_map_type [OF va pp snp_finished_types [OF fixed sized, folded placed]]
  have h: "mem_holds ?mem b data" if "placed_measured b name t data \<in> set placed" for b name t data
    using snp_memory_holds [OF facts ne that, of data] by simp
  have m: "placed_measured ZERO_PAGE [] RESERVED zero \<in> set placed"
    "placed_measured CMDLINE (lit ''command_line'') RESERVED (pr_command p) \<in> set placed"
    "placed_measured ACPI_BASE (lit ''acpi'') ACPI acpi \<in> set placed"
    "placed_measured KERNEL_BASE (lit ''kernel'') RAM (pr_kernel p) \<in> set placed"
    "placed_measured INITRAMFS_BASE (lit ''initramfs'') RAM (pr_initramfs p) \<in> set placed"
    "placed_measured SNP_CC_BLOB (lit ''cc_blob'') RAM blob \<in> set placed"
    "placed_host SNP_CPUID \<in> set (sort_key pl_base placed)"
    "placed_host SNP_SECRETS \<in> set (sort_key pl_base placed)"
    unfolding placed set_sort snp_finished_members by blast+
  have acpi: "acpi_build (p_vcpus params) False = Some acpi" "cc_blob = Some blob"
    using parts by (simp_all add: snp_measured_parts_def)
  from finds_from_regions [OF assms(2) zero acpi(1) m(1-5) [THEN h] v(1)
      prepared_ramdisk_size [OF assms(2,6,7) v(2) assms(9)] v(3) assms(9) e]
  show "finds_inputs ?mem ZERO_PAGE params kf ir False snp_reserved" .
  have "0x290 \<le> length (pr_setup p)" using len by simp
  from zero_page_fields [OF this zero] have "get64 HDR_SETUP_DATA zero = Some SNP_CC_BLOB"
    "length zero = 4096" by blast+
  from cc_from_regions [OF h [OF m(1)] this(1) h [OF m(6)] acpi(2) this(2)]
  show "boot_cc ?mem ZERO_PAGE = Some (SNP_SECRETS, ucast PAGE, SNP_CPUID, ucast PAGE)" .
  have "SNP_SECRETS \<noteq> SNP_CPUID" by (simp add: layout_consts)
  then show "special_page (snp_pages (sort_key pl_base placed)) SNP_SECRETS SECRETS"
    "special_page (snp_pages (sort_key pl_base placed)) SNP_CPUID CPUID_DATA"
    using host_page_is_special [OF m(8)] host_page_is_special [OF m(7)] by simp_all
qed

section \<open>The manifest\<close>

text \<open>A component of a manifest as a verifier reads it: the address is hexadecimal after \<open>0x\<close>.\<close>

definition states_memory :: "('f, 'k) externs \<Rightarrow> (u64 \<times> bytes) list \<Rightarrow> component \<Rightarrow> bool" where
  "states_memory ex pgs c \<longleftrightarrow>
     (\<exists>a data. take 2 (co_address c) = lit ''0x'' \<and> from_str_radix (drop 2 (co_address c)) 16 = Inr a \<and>
        read_mem pgs a (co_size c) = Some data \<and> co_sha256 c = ex_hex ex (ex_sha256 ex data))"

lemma components_Some:
  assumes "components ex ps n = Some c"
  shows "\<exists>q\<in>set ps. pl_name q = n \<and> n \<noteq> [] \<and> c = component_of ex (pl_base q) (placed_data q)"
proof -
  have "foldl (\<lambda>m p. m(pl_name p \<mapsto> component_of ex (pl_base p) (placed_data p))) m qs n = Some c \<Longrightarrow>
      m n = Some c \<or> (\<exists>q\<in>set qs. pl_name q = n \<and> c = component_of ex (pl_base q) (placed_data q))"
    for m and qs :: "placed list"
  proof (induction qs arbitrary: m)
    case (Cons q qs)
    from Cons.IH [of "m(pl_name q \<mapsto> component_of ex (pl_base q) (placed_data q))"] Cons.prems
    show ?case by (cases "pl_name q = n") auto
  qed simp
  from this [OF assms [unfolded components_def]] show ?thesis by auto
qed

lemma dom_components: "dom (components ex ps) = pl_name ` set ps - {[]}"
proof -
  have "dom (foldl (\<lambda>m p. m(pl_name p \<mapsto> component_of ex (pl_base p) (placed_data p))) m qs) =
      dom m \<union> pl_name ` set qs" for m and qs :: "placed list"
    by (induction qs arbitrary: m) auto
  then show ?thesis by (auto simp: components_def)
qed

lemma parse_digits_zeros: "parse_digits 16 0 (replicate k 48 @ cs) = parse_digits 16 0 cs"
  by (induction k) (simp_all add: to_digit_def)

lemma from_str_radix_fmt_hex: "from_str_radix (fmt_hex w (unat v)) 16 = Inr (v :: u64)"
proof (cases "w - length (show_radix 16 (unat v))")
  case 0
  then show ?thesis by (simp add: fmt_hex_def from_str_radix_show)
next
  case (Suc k)
  let ?s = "show_radix 16 (unat v)"
  have "from_str_radix (48 # replicate k 48 @ ?s) 16 =
      map_sum id of_nat (parse_digits 16 0 (replicate (Suc k) 48 @ ?s))"
    by (simp add: from_str_radix_def)
  also have "\<dots> = Inr v"
    using unat_u64_less [of v] by (simp only: parse_digits_zeros) (simp add: parse_digits_show_radix)
  finally show ?thesis using Suc by (simp add: fmt_hex_def)
qed

lemma component_states_memory:
  assumes "mem_holds pgs b data"
  shows "states_memory ex pgs (component_of ex b data)"
  using mem_holdsD(5) [OF assms] from_str_radix_fmt_hex [of 8 b]
  by (simp add: states_memory_def component_of_def)

end
