(* ===== verification/Kernel_View.thy ===== *)
theory Kernel_View
  imports Handover
begin

text \<open>
  The properties of a published image as a whole: loaded, it gives the kernel the inputs of
  the build, and its manifest describes the memory it loads, component by component.
\<close>

section \<open>TDX\<close>

text \<open>What a successful build fixes, with the memory of the image it wrote.\<close>

definition tdx_published ::
  "('f, 'k) externs \<Rightarrow> rstr \<Rightarrow> fs \<Rightarrow> fs \<Rightarrow> (u64 \<times> bytes) list \<Rightarrow> tdx_manifest \<Rightarrow> bool" where
  "tdx_published ex out s s' pgs manifest \<longleftrightarrow>
     (\<exists>img json. igvm_pages ex img = Inr pgs \<and> ex_json_tdx ex manifest = Inr json \<and>
        s' = s\<lparr>fs_files := (fs_files s)(out := Inr img, manifest_path out := Inr (json @ [10]))\<rparr>)"

lemma tdx_published_memory:
  assumes "build_tdx ex kernel_path initramfs_path out params config_hash s = (Inr (), s')"
    and "fs_files s kernel_path = Inr kf" "fs_files s initramfs_path = Inr ir"
  obtains p placed owned mrtd field where "prepare_inputs kf ir params = Inr p"
    "tdx_place ex params p = Inr (placed, owned)"
    "tdx_published ex out s s' (tdx_load (sort_key pl_base placed))
       (tdx_manifest_of ex params p (sort_key pl_base placed) owned mrtd field)"
proof -
  obtain field p placed owned pgs img mrtd json where
    a: "prepare_inputs kf ir params = Inr p" "tdx_place ex params p = Inr (placed, owned)"
    and f: "tdx_file ex (sort_key pl_base placed) = Inr (pgs, img, mrtd)"
    and w: "ex_json_tdx ex (tdx_manifest_of ex params p (sort_key pl_base placed) owned mrtd field)
        = Inr json"
      "s' = s\<lparr>fs_files := (fs_files s)(out := Inr img, manifest_path out := Inr (json @ [10]))\<rparr>"
    using assms unfolding build_tdx_Inr_conv by auto
  from f have "igvm_pages ex img = Inr pgs" "launch_pages (sort_key pl_base placed) = Inr pgs"
    by (simp_all add: tdx_file_Inr_conv)
  moreover from launch_pages_addresses [OF this(2)] have "pgs = tdx_load (sort_key pl_base placed)"
    by (simp add: tdx_load_def)
  ultimately show thesis using that a w unfolding tdx_published_def by blast
qed

text \<open>C5: take a successful TDX build whose initramfs is not empty, whose command line is shorter than a
  page (a longer one is cut) and whose apertures do not wrap around the address space, with the
  one-page shim the build script makes and files no longer than Rust allows. Whoever loads the
  published image and follows the boot protocol from the zero page finds its inputs: the kernel's
  payload at its load address, the initramfs and the command line byte for byte through the
  pointers of the zero page, every processor and the wakeup mailbox through the checksummed ACPI
  tables, and an E820 map with the right type for every address: none beyond the memory and in
  the apertures, ACPI on the tables, reserved on the pages the builder keeps, RAM elsewhere.\<close>

theorem tdx_kernel_finds_its_inputs:
  assumes "build_tdx ex kernel_path initramfs_path out params config_hash s = (Inr (), s')"
    and "tdx_params ram vcpus cmdline holes = Inr params" "apertures_ok params"
    and "fs_files s kernel_path = Inr kf" "fs_files s initramfs_path = Inr ir" "ir \<noteq> []"
    and "vec_len_ok kf" "vec_len_ok ir" "length (ex_reset_shim ex) = 4096"
    and "length (utf8 (p_cmdline params)) < 4096"
  shows "\<exists>pgs manifest. tdx_published ex out s s' pgs manifest \<and>
    finds_inputs pgs ZERO_PAGE params kf ir True tdx_reserved"
proof -
  obtain p placed owned mrtd field where r: "prepare_inputs kf ir params = Inr p"
    "tdx_place ex params p = Inr (placed, owned)"
    "tdx_published ex out s s' (tdx_load (sort_key pl_base placed))
       (tdx_manifest_of ex params p (sort_key pl_base placed) owned mrtd field)"
    by (rule tdx_published_memory [OF assms(1,4,5)])
  from tdx_place_finds [OF r(2,1) assms(2,3,6-10)] r(3) show ?thesis by blast
qed

theorem tdx_kernel_finds_its_inputs_witness:
  "\<exists>s' pgs manifest. build_tdx demo_externs (lit ''k'') (lit ''i'') (lit ''o'') default_params None
       demo_fs = (Inr (), s') \<and>
     tdx_published demo_externs (lit ''o'') demo_fs s' pgs manifest \<and>
     boot_ramdisk pgs ZERO_PAGE = Some [1, 2, 3] \<and>
     boot_command pgs ZERO_PAGE = Some (utf8 (lit ''panic=-1 no5lvl'')) \<and>
     (\<exists>emap. boot_e820 pgs ZERO_PAGE = Some emap \<and> e820_type emap 0x100000 = Some RESERVED)"
proof -
  obtain s' where
    b: "build_tdx demo_externs (lit ''k'') (lit ''i'') (lit ''o'') default_params None demo_fs = (Inr (), s')"
    using demo_build by blast
  have map_at: "Some RESERVED = map_type default_params tdx_reserved 0x100000"
    by (simp add: map_type_def tdx_reserved_def default_params_def in_aperture_def layout_consts)
  have "[1, 2, 3 :: u8] \<noteq> []" "length (ex_reset_shim demo_externs) = 4096"
    "length (utf8 (p_cmdline default_params)) < 4096"
    by (simp_all add: demo_externs_def default_params_facts)
  from tdx_kernel_finds_its_inputs [OF b default_params demo_inputs(3) demo_facts(1,2) this(1)
      demo_facts(3,4) this(2,3)] b
  have "\<exists>pgs manifest. tdx_published demo_externs (lit ''o'') demo_fs s' pgs manifest \<and>
      boot_ramdisk pgs ZERO_PAGE = Some [1, 2, 3] \<and>
      boot_command pgs ZERO_PAGE = Some (utf8 (p_cmdline default_params)) \<and>
      (\<exists>emap. boot_e820 pgs ZERO_PAGE = Some emap \<and> e820_type emap 0x100000 = Some RESERVED)"
    unfolding finds_inputs_def using map_at by metis
  with b show ?thesis by (simp only: default_params_def params.simps) blast
qed

lemma tdx_named_regions:
  assumes "q \<in> set (tdx_finished params p acpi tables stack zero shim_page)" "pl_name q \<noteq> []"
  shows "pl_fill q = Measured (placed_data q)"
  using assms by (auto simp: tdx_finished_members)

lemma tdx_names:
  "pl_name ` set (tdx_finished params p acpi tables stack zero shim_page) - {[]} =
     {lit ''command_line'', lit ''acpi'', lit ''kernel_setup'', lit ''kernel'', lit ''initramfs'',
      lit ''shim''}"
  by (auto simp: tdx_finished_members image_iff)

text \<open>C7: for a successful TDX build with a non-empty initramfs and no aperture that wraps around, every
  component of the manifest is true of the image: at the address it prints, the loaded image has exactly as many bytes as it states with the digest it states; and the manifest names
  the command line, the ACPI tables, the two parts of the kernel, the initramfs and the shim.\<close>

theorem tdx_manifest_describes_the_image:
  assumes "build_tdx ex kernel_path initramfs_path out params config_hash s = (Inr (), s')"
    and "tdx_params ram vcpus cmdline holes = Inr params" "apertures_ok params"
    and "fs_files s kernel_path = Inr kf" "fs_files s initramfs_path = Inr ir" "ir \<noteq> []"
    and "vec_len_ok kf" "vec_len_ok ir" "length (ex_reset_shim ex) = 4096"
  shows "\<exists>pgs manifest. tdx_published ex out s s' pgs manifest \<and>
    dom (tm_components manifest) = {lit ''command_line'', lit ''acpi'', lit ''kernel_setup'',
      lit ''kernel'', lit ''initramfs'', lit ''shim''} \<and>
    (\<forall>c\<in>ran (tm_components manifest). states_memory ex pgs c)"
proof -
  note np = assms(2) [unfolded tdx_params_def]
  obtain p placed owned mrtd field where prep: "prepare_inputs kf ir params = Inr p"
    and pl: "tdx_place ex params p = Inr (placed, owned)"
    and pub: "tdx_published ex out s s' (tdx_load (sort_key pl_base placed))
       (tdx_manifest_of ex params p (sort_key pl_base placed) owned mrtd field)"
    by (rule tdx_published_memory [OF assms(1,4,5)])
  have v: "p_vcpus params \<le> MAX_VCPUS" using np by (elim new_paramsE) simp
  have sized: "sized params p" by (rule prepared_sized [OF prep v assms(7,8)])
  have ne: "pr_initramfs p \<noteq> []" using prepare_inputs_shape(3) [OF prep] assms(6) by simp
  note facts = tdx_place_facts [OF pl sized assms(9,3)]
  have len: "length (pr_setup p) = 0x2f000" using sized by (simp add: sized_def)
  obtain acpi tables stack zero shim_page where
    placed: "placed = tdx_finished params p acpi tables stack zero shim_page"
    by (rule tdx_placeE [OF pl v len assms(9)])
  let ?m = "tdx_manifest_of ex params p (sort_key pl_base placed) owned mrtd field"
  have comps: "tm_components ?m = components ex (sort_key pl_base placed)"
    by (simp add: tdx_manifest_of_def)
  have "states_memory ex (tdx_load (sort_key pl_base placed)) c" if "c \<in> ran (tm_components ?m)" for c
  proof -
    from that obtain n where "components ex (sort_key pl_base placed) n = Some c"
      by (auto simp: comps ran_def)
    from components_Some [OF this] obtain q where q: "q \<in> set placed" "pl_name q \<noteq> []"
      "c = component_of ex (pl_base q) (placed_data q)" by auto
    have "pl_fill q = Measured (placed_data q)"
      using tdx_named_regions q(1,2) unfolding placed by blast
    from component_states_memory [OF tdx_memory_holds [OF facts ne q(1) this]] q(3)
    show ?thesis by simp
  qed
  moreover have "dom (tm_components ?m) = pl_name ` set placed - {[]}"
    by (simp add: comps dom_components)
  ultimately show ?thesis using pub tdx_names unfolding placed by metis
qed

theorem tdx_manifest_describes_the_image_witness:
  "\<exists>s' pgs manifest c. build_tdx demo_externs (lit ''k'') (lit ''i'') (lit ''o'') default_params None
       demo_fs = (Inr (), s') \<and>
     tdx_published demo_externs (lit ''o'') demo_fs s' pgs manifest \<and>
     tm_components manifest (lit ''kernel'') = Some c \<and> states_memory demo_externs pgs c"
proof -
  obtain s' where
    b: "build_tdx demo_externs (lit ''k'') (lit ''i'') (lit ''o'') default_params None demo_fs = (Inr (), s')"
    using demo_build by blast
  have "[1, 2, 3 :: u8] \<noteq> []" "length (ex_reset_shim demo_externs) = 4096"
    by (simp_all add: demo_externs_def)
  from tdx_manifest_describes_the_image [OF b default_params demo_inputs(3) demo_facts(1,2) this(1)
      demo_facts(3,4) this(2)]
  obtain pgs manifest where m: "tdx_published demo_externs (lit ''o'') demo_fs s' pgs manifest"
    and d: "lit ''kernel'' \<in> dom (tm_components manifest)"
    and c: "\<forall>c\<in>ran (tm_components manifest). states_memory demo_externs pgs c"
    by blast
  from d obtain c0 where "tm_components manifest (lit ''kernel'') = Some c0" by blast
  moreover from this c have "states_memory demo_externs pgs c0" by (blast intro: ranI)
  ultimately show ?thesis using b m by blast
qed

section \<open>SNP\<close>

text \<open>The components of an SNP manifest: those of the regions, and the processor states.\<close>

definition snp_components ::
  "('f, 'k) externs \<Rightarrow> params \<Rightarrow> placed list \<Rightarrow> bytes \<Rightarrow> bytes \<Rightarrow> rstr \<rightharpoonup> component" where
  "snp_components ex params placed vmsa ap =
     (let cs = (components ex placed)(lit ''vmsa'' \<mapsto> component_of ex SNP_VMSA vmsa)
      in if 1 < p_vcpus params then cs(lit ''vmsa_ap'' \<mapsto> component_of ex SNP_VMSA ap) else cs)"

lemma two_updates:
  assumes "v \<noteq> w" "m w = None" "(if b then m(v \<mapsto> x, w \<mapsto> y) else m(v \<mapsto> x)) n = Some c"
  shows "n = v \<and> c = x \<or> n = w \<and> n \<noteq> v \<and> b \<and> c = y \<or> n \<noteq> v \<and> n \<noteq> w \<and> m n = Some c"
  using assms by (auto split: if_splits)

lemma snp_published_memory:
  assumes "build_snp ex kernel_path initramfs_path out params config_hash id_key guest_svn s = (Inr (), s')"
    and "fs_files s kernel_path = Inr kf" "fs_files s initramfs_path = Inr ir"
    and "0 < unat (p_vcpus params)" "unat (p_vcpus params) < 65536"
  obtains p placed emap owned ds manifest vmsa ap where "prepare_inputs kf ir params = Inr p"
    "snp_place ex params p = Inr (placed, emap, owned)" "snp_published ex out s s' ds manifest"
    "filter (\<lambda>d. page_gpa d \<noteq> []) ds = page_directives (snp_pages (sort_key pl_base placed))"
    "sm_components manifest = snp_components ex params (sort_key pl_base placed) vmsa ap"
    "vmsa_page ex (bsp_vmsa ex) = Some vmsa" "vmsa_page ex (ap_vmsa ex) = Some ap"
    "concat (map context_vmsa ds) =
       bsp_vmsa ex # replicate (unat (p_vcpus params) - 1) (ap_vmsa ex)"
proof -
  obtain p placed emap headers ld img manifest json where
    r: "snp_run ex kernel_path initramfs_path params config_hash id_key guest_svn s p placed emap
      headers ld img manifest"
    and w: "ex_json_snp ex manifest = Inr json"
      "s' = s\<lparr>fs_files := (fs_files s)(out := Inr img, manifest_path out := Inr (json @ [10]))\<rparr>"
    using assms(1) unfolding build_snp_Inr_conv by blast
  let ?pgs = "snp_pages (sort_key pl_base placed)"
  let ?ds = "snp_directives ex params emap ?pgs headers"
  from r assms(2,3) obtain owned sealed vmsa ap field where pr: "prepare_inputs kf ir params = Inr p"
    and pl: "snp_place ex params p = Inr (placed, emap, owned)"
    and sg: "snp_sign ex id_key ld guest_svn s = (Inr (headers, sealed), s)"
    and sf: "snp_file ex ?ds = Inr img"
    and ms: "snp_measured ex params (sort_key pl_base placed) = Inr (?pgs, vmsa, ap, ld)"
    and mf: "manifest = snp_manifest_of ex params p (sort_key pl_base placed) owned vmsa ap ld
      field guest_svn sealed"
    unfolding snp_run_def by auto
  note h = snp_sign_headers [OF sg]
  have "sm_components manifest = snp_components ex params (sort_key pl_base placed) vmsa ap"
    by (simp add: mf snp_manifest_of_def snp_components_def Let_def)
  moreover have "snp_published ex out s s' ?ds manifest"
    unfolding snp_published_def using sf w by blast
  ultimately show thesis
    using that pr pl snp_directives_pages [OF h] directives_vmsas [OF h assms(4,5)]
      snp_measured_Inr(1,2) [OF ms] by blast
qed

text \<open>C6: take a successful SNP build whose initramfs is not empty, whose command line is shorter than a
  page (a longer one is cut) and whose apertures do not wrap around the address space, with the
  one-page shim the build script makes and files no longer than Rust allows. Whoever loads the
  published image and follows the boot protocol from the zero page finds its inputs as under TDX,
  with no wakeup mailbox and an E820 map of the same kind (nothing in the apertures and beyond
  the memory, ACPI on the tables, reserved on the pages the SNP builder keeps, RAM elsewhere),
  and one confidential-computing record whose blob names the secrets page and the CPUID page,
  both of which the image has, each with its own type, for the firmware to fill.\<close>

theorem snp_kernel_finds_its_inputs:
  assumes "build_snp ex kernel_path initramfs_path out params config_hash id_key guest_svn s = (Inr (), s')"
    and "snp_params ram vcpus cbit cmdline holes = Inr params" "apertures_ok params"
    and "fs_files s kernel_path = Inr kf" "fs_files s initramfs_path = Inr ir" "ir \<noteq> []"
    and "vec_len_ok kf" "vec_len_ok ir" "length (ex_snp_shim ex) = 4096"
    and "length (utf8 (p_cmdline params)) < 4096"
  shows "\<exists>ds pgs manifest. snp_published ex out s s' ds manifest \<and>
    filter (\<lambda>d. page_gpa d \<noteq> []) ds = page_directives pgs \<and>
    finds_inputs (launch_memory pgs) ZERO_PAGE params kf ir False snp_reserved \<and>
    boot_cc (launch_memory pgs) ZERO_PAGE = Some (SNP_SECRETS, ucast PAGE, SNP_CPUID, ucast PAGE) \<and>
    special_page pgs SNP_SECRETS SECRETS \<and> special_page pgs SNP_CPUID CPUID_DATA"
proof -
  note pf = snp_params_facts [OF assms(2)]
  obtain p placed emap owned ds manifest where r: "prepare_inputs kf ir params = Inr p"
    "snp_place ex params p = Inr (placed, emap, owned)" "snp_published ex out s s' ds manifest"
    "filter (\<lambda>d. page_gpa d \<noteq> []) ds = page_directives (snp_pages (sort_key pl_base placed))"
    by (rule snp_published_memory [OF assms(1,4,5) pf(1,3)])
  from snp_place_finds [OF r(2,1) assms(2,3,6-10)] r(3,4) show ?thesis
    unfolding snp_load_def by blast
qed

theorem snp_kernel_finds_its_inputs_witness:
  "\<exists>s' ds pgs manifest. build_snp demo_externs (lit ''k'') (lit ''i'') (lit ''o'') default_params None
       None 0 snp_demo_fs = (Inr (), s') \<and>
     snp_published demo_externs (lit ''o'') snp_demo_fs s' ds manifest \<and>
     boot_ramdisk (launch_memory pgs) ZERO_PAGE = Some [1, 2, 3] \<and>
     boot_cc (launch_memory pgs) ZERO_PAGE = Some (SNP_SECRETS, ucast PAGE, SNP_CPUID, ucast PAGE)"
proof -
  have "key_usable demo_externs snp_demo_fs None" by (simp add: key_usable_def)
  then obtain s' where b: "build_snp demo_externs (lit ''k'') (lit ''i'') (lit ''o'') default_params None
      None 0 snp_demo_fs = (Inr (), s')"
    using snp_demo_build by blast
  have "length (utf8 (p_cmdline default_params)) < 4096" by (simp add: default_params_facts)
  from snp_kernel_finds_its_inputs [OF b snp_default_params demo_inputs(3) snp_demo_facts(1,2,3)
      demo_facts(3,4) snp_demo_facts(6) this] b
  show ?thesis unfolding finds_inputs_def by blast
qed

lemma snp_named_regions:
  assumes "q \<in> set (snp_finished params p acpi blob tables stack zero shim_page)" "pl_name q \<noteq> []"
  shows "pl_fill q = Measured (placed_data q)"
  using assms by (auto simp: snp_finished_members)

lemma snp_names:
  "pl_name ` set (snp_finished params p acpi blob tables stack zero shim_page) - {[]} =
     {lit ''command_line'', lit ''acpi'', lit ''cc_blob'', lit ''kernel_setup'', lit ''kernel'',
      lit ''initramfs'', lit ''shim''}"
  by (auto simp: snp_finished_members image_iff)

text \<open>The state of one processor context of the image, page and address.\<close>

definition states_context :: "('f, 'k) externs \<Rightarrow> directive list \<Rightarrow> nat \<Rightarrow> component \<Rightarrow> bool" where
  "states_context ex ds i c \<longleftrightarrow>
     (let contexts = concat (map context_vmsa ds)
      in i < length contexts \<and>
         (\<exists>page. vmsa_page ex (contexts ! i) = Some page \<and> c = component_of ex SNP_VMSA page))"

lemma snp_region_components:
  assumes "snp_launch_facts ex params p placed emap" "pr_initramfs p \<noteq> []"
    "placed = snp_finished params p acpi blob tables stack zero shim_page"
    "components ex (sort_key pl_base placed) n = Some c"
  shows "states_memory ex (snp_load (sort_key pl_base placed)) c"
proof -
  from components_Some [OF assms(4)] obtain q where q: "q \<in> set placed" "pl_name q \<noteq> []"
    "c = component_of ex (pl_base q) (placed_data q)" by auto
  have "pl_fill q = Measured (placed_data q)"
    using snp_named_regions q(1,2) unfolding assms(3) by blast
  from component_states_memory [OF snp_memory_holds [OF assms(1,2) q(1) this]] q(3)
  show ?thesis by simp
qed

text \<open>C8: for a successful SNP build with a non-empty initramfs and no aperture that wraps around, every
  component of the manifest is true of the image: the loaded image has the bytes it states, by address, size and digest, or, for the two processor states, the image's first and
  second context are the pages it states; the manifest names the components of a TDX manifest,
  the confidential-computing blob and the state of every kind of processor it has.\<close>

theorem snp_manifest_describes_the_image:
  assumes "build_snp ex kernel_path initramfs_path out params config_hash id_key guest_svn s = (Inr (), s')"
    and "snp_params ram vcpus cbit cmdline holes = Inr params" "apertures_ok params"
    and "fs_files s kernel_path = Inr kf" "fs_files s initramfs_path = Inr ir" "ir \<noteq> []"
    and "vec_len_ok kf" "vec_len_ok ir" "length (ex_snp_shim ex) = 4096"
  shows "\<exists>ds pgs manifest. snp_published ex out s s' ds manifest \<and>
    filter (\<lambda>d. page_gpa d \<noteq> []) ds = page_directives pgs \<and>
    dom (sm_components manifest) = {lit ''command_line'', lit ''acpi'', lit ''cc_blob'',
      lit ''kernel_setup'', lit ''kernel'', lit ''initramfs'', lit ''shim'', lit ''vmsa''}
      \<union> (if 1 < p_vcpus params then {lit ''vmsa_ap''} else {}) \<and>
    (\<forall>n c. sm_components manifest n = Some c \<longrightarrow>
       (if n = lit ''vmsa'' then states_context ex ds 0 c
        else if n = lit ''vmsa_ap'' then states_context ex ds 1 c
        else states_memory ex (launch_memory pgs) c))"
proof -
  note pf = snp_params_facts [OF assms(2)]
  obtain p placed emap owned ds manifest vmsa ap where prep: "prepare_inputs kf ir params = Inr p"
    and pl: "snp_place ex params p = Inr (placed, emap, owned)"
    and pub: "snp_published ex out s s' ds manifest"
      "filter (\<lambda>d. page_gpa d \<noteq> []) ds = page_directives (snp_pages (sort_key pl_base placed))"
    and comps: "sm_components manifest = snp_components ex params (sort_key pl_base placed) vmsa ap"
    and pages: "vmsa_page ex (bsp_vmsa ex) = Some vmsa" "vmsa_page ex (ap_vmsa ex) = Some ap"
    and ctx: "concat (map context_vmsa ds) =
       bsp_vmsa ex # replicate (unat (p_vcpus params) - 1) (ap_vmsa ex)"
    by (rule snp_published_memory [OF assms(1,4,5) pf(1,3)])
  have sized: "sized params p" by (rule prepared_sized [OF prep pf(2) assms(7,8)])
  have ne: "pr_initramfs p \<noteq> []" using prepare_inputs_shape(3) [OF prep] assms(6) by simp
  note facts = snp_place_facts [OF pl sized assms(9,3)]
  have len: "length (pr_setup p) = 0x2f000" using sized by (simp add: sized_def)
  obtain acpi blob tables stack zero shim_page where
    placed: "placed = snp_finished params p acpi blob tables stack zero shim_page"
    by (rule snp_placeE [OF pl pf(2) len assms(9)])
  have two: "1 < p_vcpus params \<longleftrightarrow> 1 < unat (p_vcpus params)" by (simp add: word_less_nat_alt)
  let ?v = "lit ''vmsa''" and ?va = "lit ''vmsa_ap''" and ?cs = "components ex (sort_key pl_base placed)"
  have doms: "dom ?cs = {lit ''command_line'', lit ''acpi'', lit ''cc_blob'', lit ''kernel_setup'',
      lit ''kernel'', lit ''initramfs'', lit ''shim''}"
    using snp_names unfolding dom_components set_sort placed .
  have "?va \<notin> dom ?cs" unfolding doms by simp
  then have no: "?cs ?va = None" by blast
  have neq: "?v \<noteq> ?va" by simp
  have "if n = ?v then states_context ex ds 0 c
      else if n = ?va then states_context ex ds 1 c
      else states_memory ex (launch_memory (snp_pages (sort_key pl_base placed))) c"
    if c: "sm_components manifest n = Some c" for n c
  proof -
    from two_updates [OF neq no c [unfolded comps snp_components_def Let_def]]
    consider "n = ?v" "c = component_of ex SNP_VMSA vmsa"
      | "n = ?va" "n \<noteq> ?v" "1 < p_vcpus params" "c = component_of ex SNP_VMSA ap"
      | "n \<noteq> ?v" "n \<noteq> ?va" "?cs n = Some c"
      by blast
    then show ?thesis
    proof cases
      case 1
      then have "states_context ex ds 0 c" using pages(1) by (simp add: states_context_def ctx)
      then show ?thesis by (simp only: 1(1) if_True simp_thms)
    next
      case 2
      then have "states_context ex ds 1 c" using pages(2) two by (simp add: states_context_def ctx)
      then show ?thesis by (simp only: 2(1) neq [symmetric] if_True if_False simp_thms)
    next
      case 3
      from snp_region_components [OF facts ne placed 3(3)] show ?thesis
        by (simp only: snp_load_def 3(1,2) if_False)
    qed
  qed
  moreover have "dom (sm_components manifest) = {lit ''command_line'', lit ''acpi'', lit ''cc_blob'',
      lit ''kernel_setup'', lit ''kernel'', lit ''initramfs'', lit ''shim'', ?v} \<union>
      (if 1 < p_vcpus params then {?va} else {})"
    unfolding comps snp_components_def Let_def if_distrib [of dom] dom_fun_upd doms
    by (simp add: insert_commute)
  ultimately show ?thesis
    using pub by (intro exI [of _ ds] exI [of _ "snp_pages (sort_key pl_base placed)"]
        exI [of _ manifest] conjI allI impI)
qed

theorem snp_manifest_describes_the_image_witness:
  "\<exists>s' ds pgs manifest. build_snp demo_externs (lit ''k'') (lit ''i'') (lit ''o'') default_params None
       None 0 snp_demo_fs = (Inr (), s') \<and>
     snp_published demo_externs (lit ''o'') snp_demo_fs s' ds manifest \<and>
     (\<exists>c. sm_components manifest (lit ''initramfs'') = Some c \<and>
        states_memory demo_externs (launch_memory pgs) c) \<and>
     (\<exists>c. sm_components manifest (lit ''vmsa'') = Some c \<and> states_context demo_externs ds 0 c)"
proof -
  have "key_usable demo_externs snp_demo_fs None" by (simp add: key_usable_def)
  then obtain s' where b: "build_snp demo_externs (lit ''k'') (lit ''i'') (lit ''o'') default_params None
      None 0 snp_demo_fs = (Inr (), s')"
    using snp_demo_build by blast
  have neq: "lit ''initramfs'' \<noteq> lit ''vmsa''" "lit ''initramfs'' \<noteq> lit ''vmsa_ap''" by simp_all
  from snp_manifest_describes_the_image [OF b snp_default_params demo_inputs(3) snp_demo_facts(1,2,3)
      demo_facts(3,4) snp_demo_facts(6)]
  show ?thesis
  proof (elim exE conjE, goal_cases)
    case (1 ds pgs manifest)
    have "lit ''initramfs'' \<in> dom (sm_components manifest)" "lit ''vmsa'' \<in> dom (sm_components manifest)"
      unfolding 1(3) by blast+
    then obtain c1 c2 where cs: "sm_components manifest (lit ''initramfs'') = Some c1"
      "sm_components manifest (lit ''vmsa'') = Some c2" by blast
    from 1(4) [rule_format, OF cs(1)] neq have "states_memory demo_externs (launch_memory pgs) c1"
      by (simp only: if_False)
    moreover from 1(4) [rule_format, OF cs(2)] have "states_context demo_externs ds 0 c2"
      by (simp only: if_True simp_thms)
    ultimately show ?thesis using b 1(1) cs by (intro exI conjI)
  qed
qed

text \<open>C14: for a successful SNP build with a non-empty initramfs and no aperture that wraps around, every
  directive of the published image is one the format admits: pages are aligned and whole,
  required memory is in whole pages, no page address and no processor number occurs twice, there
  is at most one ID block, and the processors are numbered from zero without a gap.\<close>

theorem snp_directives_are_well_formed:
  assumes "build_snp ex kernel_path initramfs_path out params config_hash id_key guest_svn s = (Inr (), s')"
    and "snp_params ram vcpus cbit cmdline holes = Inr params" "apertures_ok params"
    and "fs_files s kernel_path = Inr kf" "fs_files s initramfs_path = Inr ir" "ir \<noteq> []"
    and "vec_len_ok kf" "vec_len_ok ir" "length (ex_snp_shim ex) = 4096"
  shows "\<exists>ds manifest. snp_published ex out s s' ds manifest \<and> directives_ok ds \<and>
    concat (map vp_number ds) = map of_nat [0..<unat (p_vcpus params)]"
proof -
  note pf = snp_params_facts [OF assms(2)]
  obtain p placed emap headers ld img manifest json where
    r: "snp_run ex kernel_path initramfs_path params config_hash id_key guest_svn s p placed emap
      headers ld img manifest"
    and w: "ex_json_snp ex manifest = Inr json"
      "s' = s\<lparr>fs_files := (fs_files s)(out := Inr img, manifest_path out := Inr (json @ [10]))\<rparr>"
    using assms(1) unfolding build_snp_Inr_conv by blast
  let ?ds = "snp_directives ex params emap (snp_pages (sort_key pl_base placed)) headers"
  from r assms(4,5) obtain owned sealed where prep: "prepare_inputs kf ir params = Inr p"
    and pl: "snp_place ex params p = Inr (placed, emap, owned)"
    and sg: "snp_sign ex id_key ld guest_svn s = (Inr (headers, sealed), s)"
    and sf: "snp_file ex ?ds = Inr img"
    unfolding snp_run_def by auto
  have sized: "sized params p" by (rule prepared_sized [OF prep pf(2) assms(7,8)])
  have ne: "pr_initramfs p \<noteq> []" using prepare_inputs_shape(3) [OF prep] assms(6) by simp
  note h = snp_sign_headers [OF sg]
  have "directives_ok ?ds"
    by (rule snp_directives_ok [OF snp_place_facts [OF pl sized assms(9,3)] ne pf(5,6,1,2) h])
  moreover have "concat (map vp_number ?ds) = map of_nat [0..<unat (p_vcpus params)]"
    by (simp only: snp_directives_parts [OF h] vp_contexts_eq(2) [OF pf(1,3)])
  moreover have "snp_published ex out s s' ?ds manifest"
    unfolding snp_published_def using sf w by blast
  ultimately show ?thesis by blast
qed

theorem snp_directives_are_well_formed_witness:
  "\<exists>s' ds manifest. build_snp demo_externs (lit ''k'') (lit ''i'') (lit ''o'') default_params None
       (Some (lit ''p'')) 7 snp_demo_fs = (Inr (), s') \<and>
     snp_published demo_externs (lit ''o'') snp_demo_fs s' ds manifest \<and> directives_ok ds \<and>
     concat (map vp_number ds) = [0, 1, 2, 3]"
proof -
  obtain s' where b: "build_snp demo_externs (lit ''k'') (lit ''i'') (lit ''o'') default_params None
      (Some (lit ''p'')) 7 snp_demo_fs = (Inr (), s')"
    using snp_demo_build [OF snp_demo_key] by blast
  have "map of_nat [0..<unat (p_vcpus default_params)] = [0, 1, 2, 3 :: u16]"
    by (simp add: default_params_def DEFAULT_VCPUS_def upt_rec)
  with snp_directives_are_well_formed [OF b snp_default_params demo_inputs(3) snp_demo_facts(1,2,3)
      demo_facts(3,4) snp_demo_facts(6)] b
  show ?thesis by metis
qed

end
