(* ===== verification/Reproducible.thy ===== *)
theory Reproducible
  imports Program
begin

text \<open>
  The promise of the program's name for its images: they are deterministic. A run depends on
  the contents of the files its command names and on the other arguments, and on nothing else
  of the file system, neither where the files are nor what else there is.
\<close>

section \<open>Two commands for one image\<close>

definition same_inputs :: "common \<Rightarrow> fs \<Rightarrow> common \<Rightarrow> fs \<Rightarrow> bool" where
  "same_inputs c s c' t \<longleftrightarrow>
     c_ram c' = c_ram c \<and> c_vcpus c' = c_vcpus c \<and> c_cmdline c' = c_cmdline c \<and>
     c_mmio_hole c' = c_mmio_hole c \<and>
     fs_files t (c_kernel c') = fs_files s (c_kernel c) \<and>
     fs_files t (c_initramfs c') = fs_files s (c_initramfs c)"

fun common_of :: "command \<Rightarrow> common" where
  "common_of (BuildTdx c h) = c"
| "common_of (BuildSnp c h cbit key svn) = c"

fun same_request :: "command \<Rightarrow> fs \<Rightarrow> command \<Rightarrow> fs \<Rightarrow> bool" where
  "same_request (BuildTdx c h) s (BuildTdx c' h') t \<longleftrightarrow> same_inputs c s c' t \<and> h' = h"
| "same_request (BuildSnp c h cbit key svn) s (BuildSnp c' h' cbit' key' svn') t \<longleftrightarrow>
     same_inputs c s c' t \<and> h' = h \<and> cbit' = cbit \<and> svn' = svn \<and>
     map_option (fs_files t) key' = map_option (fs_files s) key"
| "same_request _ _ _ _ \<longleftrightarrow> False"

text \<open>The bytes of the image and of its manifest.\<close>

definition outputs :: "command \<Rightarrow> fs \<Rightarrow> (string + bytes) \<times> (string + bytes)" where
  "outputs command s =
     (let out = c_output (common_of command) in (fs_files s out, fs_files s (manifest_path out)))"

definition writable :: "command \<Rightarrow> fs \<Rightarrow> bool" where
  "writable command s \<longleftrightarrow>
     (let out = c_output (common_of command)
      in fs_write_error s out = None \<and> fs_write_error s (manifest_path out) = None)"

lemma manifest_path_neq: "manifest_path out \<noteq> out" "out \<noteq> manifest_path out"
  by (simp_all add: manifest_path_def)

lemma build_tdx_reproducible:
  assumes "build_tdx ex kp ip out params h s = (Inr (), s')"
    and "fs_files t kp' = fs_files s kp" "fs_files t ip' = fs_files s ip"
    and "fs_write_error t out' = None" "fs_write_error t (manifest_path out') = None"
  shows "\<exists>t'. build_tdx ex kp' ip' out' params h t = (Inr (), t') \<and>
    fs_files t' out' = fs_files s' out \<and>
    fs_files t' (manifest_path out') = fs_files s' (manifest_path out)"
proof -
  obtain field kf ir p placed owned pgs img mrtd json where
    r: "config_field h 48 = Inr field" "fs_files s kp = Inr kf" "fs_files s ip = Inr ir"
      "prepare_inputs kf ir params = Inr p" "tdx_place ex params p = Inr (placed, owned)"
      "tdx_file ex (sort_key pl_base placed) = Inr (pgs, img, mrtd)"
      "ex_json_tdx ex (tdx_manifest_of ex params p (sort_key pl_base placed) owned mrtd field)
         = Inr json"
    and s': "s' = s\<lparr>fs_files := (fs_files s)(out := Inr img, manifest_path out := Inr (json @ [10]))\<rparr>"
    using assms(1) unfolding build_tdx_Inr_conv by blast
  let ?t = "t\<lparr>fs_files := (fs_files t)(out' := Inr img, manifest_path out' := Inr (json @ [10]))\<rparr>"
  have "build_tdx ex kp' ip' out' params h t = (Inr (), ?t)"
    unfolding build_tdx_Inr_conv using r(1,4-) assms(4,5) r(2,3) assms(2,3)
    by (intro exI conjI) (assumption | rule refl | simp only:)+
  then show ?thesis using s' by (simp add: manifest_path_neq)
qed

lemma snp_sign_reproducible:
  assumes "snp_sign ex key ld svn s = (Inr (headers, sealed), s)"
    and "map_option (fs_files t) key' = map_option (fs_files s) key"
  shows "snp_sign ex key' ld svn t = (Inr (headers, sealed), t)"
  using assms by (cases key; cases key') (auto simp: snp_sign_Inr_conv)

lemma build_snp_reproducible:
  assumes "build_snp ex kp ip out params h key svn s = (Inr (), s')"
    and "fs_files t kp' = fs_files s kp" "fs_files t ip' = fs_files s ip"
    and "map_option (fs_files t) key' = map_option (fs_files s) key"
    and "fs_write_error t out' = None" "fs_write_error t (manifest_path out') = None"
  shows "\<exists>t'. build_snp ex kp' ip' out' params h key' svn t = (Inr (), t') \<and>
    fs_files t' out' = fs_files s' out \<and>
    fs_files t' (manifest_path out') = fs_files s' (manifest_path out)"
proof -
  obtain p placed emap headers ld img manifest json where
    r: "snp_run ex kp ip params h key svn s p placed emap headers ld img manifest"
    and j: "ex_json_snp ex manifest = Inr json"
    and s': "s' = s\<lparr>fs_files := (fs_files s)(out := Inr img, manifest_path out := Inr (json @ [10]))\<rparr>"
    using assms(1) unfolding build_snp_Inr_conv by blast
  have k: "key' = None \<longleftrightarrow> key = None" using assms(4) by (cases key; cases key') auto
  have "snp_run ex kp' ip' params h key' svn t p placed emap headers ld img manifest"
    using r snp_sign_reproducible [OF _ assms(4)] assms(2,3) k unfolding snp_run_def by metis
  then have "build_snp ex kp' ip' out' params h key' svn t = (Inr (),
      t\<lparr>fs_files := (fs_files t)(out' := Inr img, manifest_path out' := Inr (json @ [10]))\<rparr>)"
    unfolding build_snp_Inr_conv using j assms(5,6) by blast
  then show ?thesis using s' by (simp add: manifest_path_neq)
qed

section \<open>Property\<close>

text \<open>C13: images are reproducible: if one run succeeds, then so does any run for the same image, on
  another machine and under other paths, that can write its outputs, and it leaves the same
  bytes in the image and in the manifest, signature included.\<close>

theorem runs_are_reproducible:
  assumes "run ex command s = (Inr (), s')" "same_request command s command' t" "writable command' t"
  shows "\<exists>t'. run ex command' t = (Inr (), t') \<and> outputs command' t' = outputs command s'"
  using assms(2)
proof (cases rule: same_request.cases [of "(command, s, command', t)"])
  case (1 c h s c' h' t)
  then show ?thesis
    using assms build_tdx_reproducible
    by (fastforce simp: run_def io_bind_Inr_conv io_lift_Inr_conv same_inputs_def writable_def
        outputs_def Let_def simp del: io_lift_conv)
next
  case (2 c h cbit key svn s c' h' cbit' key' svn' t)
  then show ?thesis
    using assms build_snp_reproducible
    by (fastforce simp: run_def io_bind_Inr_conv io_lift_Inr_conv same_inputs_def writable_def
        outputs_def Let_def simp del: io_lift_conv)
qed auto

theorem runs_are_reproducible_witness:
  "let here = BuildSnp (default_common (lit ''k'') (lit ''i'') (lit ''o'')) None DEFAULT_CBIT
         (Some (lit ''p'')) 7;
       there = BuildSnp (default_common (lit ''kernel'') (lit ''i'') (lit ''image'')) None DEFAULT_CBIT
         (Some (lit ''p'')) 7;
       t = snp_demo_fs\<lparr>fs_files := (fs_files snp_demo_fs)(lit ''kernel'' := Inr test_kernel)\<rparr>
   in \<exists>s' t'. run demo_externs here snp_demo_fs = (Inr (), s') \<and>
        run demo_externs there t = (Inr (), t') \<and> outputs there t' = outputs here s'"
proof -
  let ?here = "BuildSnp (default_common (lit ''k'') (lit ''i'') (lit ''o'')) None DEFAULT_CBIT
    (Some (lit ''p'')) 7"
  let ?there = "BuildSnp (default_common (lit ''kernel'') (lit ''i'') (lit ''image'')) None DEFAULT_CBIT
    (Some (lit ''p'')) 7"
  let ?t = "snp_demo_fs\<lparr>fs_files := (fs_files snp_demo_fs)(lit ''kernel'' := Inr test_kernel)\<rparr>"
  obtain s' where "build_snp demo_externs (lit ''k'') (lit ''i'') (lit ''o'') default_params None
      (Some (lit ''p'')) 7 snp_demo_fs = (Inr (), s')"
    using snp_demo_build [OF snp_demo_key] by blast
  then have r: "run demo_externs ?here snp_demo_fs = (Inr (), s')"
    by (simp add: run_def default_common_def snp_default_params io_bind_Inr_conv)
  have "same_request ?here snp_demo_fs ?there ?t" "writable ?there ?t"
    by (simp_all add: same_inputs_def default_common_def snp_demo_fs_def writable_def)
  from runs_are_reproducible [OF r this] r show ?thesis unfolding Let_def by blast
qed

end
