(* ===== verification/Conformance_Boot.thy ===== *)
theory Conformance_Boot
  imports Boot_Protocol Acpi Tdx_Build
begin

text \<open>
  The repository's own tests of src/src/boot.rs and src/src/acpi.rs, as propositions about the
  model: the body of a test with every assertion as a conjunct, an index out of range failing
  it as it would there. The lemmas say that the model passes them.
\<close>

section \<open>The placement map\<close>

definition map_of_tests :: "placed list" where
  "map_of_tests =
     [placed_measured ZERO_PAGE [] RESERVED (replicate (unat PAGE) 0),
      placed_measured ACPI_BASE [] ACPI (replicate (unat PAGE) 0),
      placed_host SNP_SECRETS,
      placed_measured KERNEL_BASE [] RAM (replicate (unat PAGE) 0)]"

definition e820_tiles_the_whole_span_without_gaps :: bool where
  "e820_tiles_the_whole_span_without_gaps \<longleftrightarrow>
     (let e = e820 map_of_tests DEFAULT_RAM
      in e \<noteq> [] \<and> fst (hd e) = 0 \<and> fst (last e) + fst (snd (last e)) = DEFAULT_RAM \<and>
         (\<forall>(a, b)\<in>set (windows2 e). fst a + fst (snd a) = fst b) \<and>
         (\<exists>x\<in>set e. fst x = ACPI_BASE \<and> snd (snd x) = ACPI) \<and>
         \<not> (\<exists>x\<in>set e. fst x = KERNEL_BASE))"

definition accept_ranges_are_exactly_the_complement :: bool where
  "accept_ranges_are_exactly_the_complement \<longleftrightarrow>
     (let ranges = accept_ranges map_of_tests DEFAULT_RAM;
          placed = map (\<lambda>p. (pl_base p, pl_base p + span p)) map_of_tests;
          covered = sum_list (map (\<lambda>(l, h). h - l) ranges);
          taken = sum_list (map (\<lambda>(l, h). h - l) placed)
      in (\<forall>(lo, hi)\<in>set ranges. \<forall>(a, b)\<in>set placed. hi \<le> a \<or> lo \<ge> b) \<and>
         covered + taken = DEFAULT_RAM)"

definition a_declared_mmio_hole_is_absent :: bool where
  "a_declared_mmio_hole_is_absent \<longleftrightarrow>
     (let ps = map_of_tests @ [placed_mmio 0x300000 0x20000]
      in (\<forall>(b, n, k)\<in>set (e820 ps DEFAULT_RAM). b + n \<le> 0x300000 \<or> b \<ge> 0x320000) \<and>
         (\<forall>(l, h)\<in>set (accept_ranges ps DEFAULT_RAM). h \<le> 0x300000 \<or> l \<ge> 0x320000))"

definition overlapping_placement_is_rejected :: bool where
  "overlapping_placement_is_rejected \<longleftrightarrow>
     (let ps = map_of_tests @ [placed_mmio ACPI_BASE PAGE]
      in (\<exists>e. validate ps DEFAULT_RAM = Inl e) \<and> validate (take 1 ps) DEFAULT_RAM = Inr ())"

lemma map_of_tests_spans:
  "spans map_of_tests =
     [(0x7000, 0x8000, RESERVED), (0xe0000, 0xe1000, ACPI), (0xf1000, 0xf2000, RESERVED),
      (0x1000000, 0x1001000, RAM)]"
  by (simp add: map_of_tests_def spans_def span_of_def one_page_span layout_consts)

text \<open>One region at a time, each intermediate map evaluated before the next.\<close>

lemma e820_loop_step:
  assumes "lo < memory" "e820_push out at lo RAM = out1"
    "(if kind \<noteq> ABSENT then e820_push out1 (max lo at) (min hi memory) kind else out1) = out2"
  shows "e820_loop memory at out ((lo, hi, kind) # rest) = e820_loop memory (max at hi) out2 rest"
  using assms by (auto dest: leD)

lemma map_of_tests_e820:
  "e820 map_of_tests DEFAULT_RAM =
     [(0, 0x7000, RAM), (0x7000, 0x1000, RESERVED), (0x8000, 0xd8000, RAM), (0xe0000, 0x1000, ACPI),
      (0xe1000, 0x10000, RAM), (0xf1000, 0x1000, RESERVED), (0xf2000, 0x3ff0e000, RAM)]"
  unfolding e820_def map_of_tests_spans
  by (simp add: e820_loop_step e820_push_def layout_consts del: e820_loop.simps(2))

lemma map_of_tests_accepts:
  "accept_ranges map_of_tests DEFAULT_RAM =
     [(0, 0x7000), (0x8000, 0xe0000), (0xe1000, 0xf1000), (0xf2000, 0x1000000), (0x1001000, 0x40000000)]"
  by (simp add: accept_ranges_def map_of_tests_spans layout_consts)

text \<open>With the aperture of the third test.\<close>

lemma map_with_hole_spans:
  "spans (map_of_tests @ [placed_mmio 0x300000 0x20000]) =
     [(0x7000, 0x8000, RESERVED), (0xe0000, 0xe1000, ACPI), (0xf1000, 0xf2000, RESERVED),
      (0x300000, 0x320000, ABSENT), (0x1000000, 0x1001000, RAM)]"
  by (simp add: map_of_tests_def spans_def span_of_def one_page_span layout_consts)

lemma map_with_hole_e820:
  "e820 (map_of_tests @ [placed_mmio 0x300000 0x20000]) DEFAULT_RAM =
     [(0, 0x7000, RAM), (0x7000, 0x1000, RESERVED), (0x8000, 0xd8000, RAM), (0xe0000, 0x1000, ACPI),
      (0xe1000, 0x10000, RAM), (0xf1000, 0x1000, RESERVED), (0xf2000, 0x20e000, RAM),
      (0x320000, 0x3fce0000, RAM)]"
  unfolding e820_def map_with_hole_spans
  by (simp add: e820_loop_step e820_push_def layout_consts del: e820_loop.simps(2))

lemma map_with_hole_accepts:
  "accept_ranges (map_of_tests @ [placed_mmio 0x300000 0x20000]) DEFAULT_RAM =
     [(0, 0x7000), (0x8000, 0xe0000), (0xe1000, 0xf1000), (0xf2000, 0x300000), (0x320000, 0x1000000),
      (0x1001000, 0x40000000)]"
  by (simp add: accept_ranges_def map_with_hole_spans layout_consts)

lemma boot_map_tests_pass:
  "e820_tiles_the_whole_span_without_gaps" "accept_ranges_are_exactly_the_complement"
  "a_declared_mmio_hole_is_absent" "overlapping_placement_is_rejected"
proof -
  show "e820_tiles_the_whole_span_without_gaps"
    unfolding e820_tiles_the_whole_span_without_gaps_def map_of_tests_e820 Let_def
    by (simp add: layout_consts)
  show "accept_ranges_are_exactly_the_complement"
    unfolding accept_ranges_are_exactly_the_complement_def map_of_tests_accepts Let_def
    by (simp add: map_of_tests_def one_page_span layout_consts)
  show "a_declared_mmio_hole_is_absent"
    unfolding a_declared_mmio_hole_is_absent_def Let_def map_with_hole_e820 map_with_hole_accepts
    by simp
  have "spans (map_of_tests @ [placed_mmio ACPI_BASE PAGE]) =
      [(0x7000, 0x8000, RESERVED), (0xe0000, 0xe1000, ABSENT), (0xe0000, 0xe1000, ACPI),
       (0xf1000, 0xf2000, RESERVED), (0x1000000, 0x1001000, RAM)]"
    by (simp add: map_of_tests_def spans_def span_of_def one_page_span layout_consts)
  moreover have "spans (take 1 map_of_tests) = [(0x7000, 0x8000, RESERVED)]"
    by (simp add: map_of_tests_def spans_def span_of_def one_page_span layout_consts)
  ultimately show "overlapping_placement_is_rejected"
    by (simp add: overlapping_placement_is_rejected_def validate_def Let_def)
      (simp add: map_of_tests_def layout_consts is_multiple_of_def)
qed

section \<open>The descriptor table and the kernel header\<close>

text \<open>\<open>v[at..at + n]\<close> with the value it must have.\<close>

definition gdt_is_addressed_by_its_own_selectors :: bool where
  "gdt_is_addressed_by_its_own_selectors \<longleftrightarrow> (case gdt_stack of
       None \<Rightarrow> False
     | Some v \<Rightarrow>
         let at = unat (GDT_PTR - BSP_STACK)
         in length v = unat BSP_STACK_SIZE \<and> peek 0 8 v = Some (replicate 8 0) \<and>
            map_option (\<lambda>b. b AND 0x20) (read_at (unat BOOT_CS + 6) v) = Some 0x20 \<and>
            map_option ucast (get16 at v) = Some GDT_LIMIT \<and> get64 (at + 2) v = Some BSP_STACK)"

definition malformed_kernel_is_rejected :: bool where
  "malformed_kernel_is_rejected \<longleftrightarrow> (\<exists>e. parse_bzimage (replicate 0x300 0) = Inl e)"

lemma boot_format_tests_pass:
  "gdt_is_addressed_by_its_own_selectors" "malformed_kernel_is_rejected"
proof -
  have first: "peek 0 8 (replicate 65536 0) = Some (replicate 8 (0 :: u8))" by (simp add: peek_def)
  show "gdt_is_addressed_by_its_own_selectors"
    by (simp add: gdt_is_addressed_by_its_own_selectors_def gdt_stack_def layout_consts
        peek_blit_other first) (simp add: read_at_def nth_blit)
  have "\<not> bootable (replicate 0x300 0)"
    using setup_bytes_bounds [of "hdr8 HDR_SETUP_SECTS (replicate 0x300 0)"]
    by (simp add: bootable_def ENTRY_64_OFFSET_def)
  then have "parse_bzimage (replicate 0x300 0) \<noteq> Inr info" for info
    by (simp only: parse_bzimage_Inr_iff simp_thms)
  then show "malformed_kernel_is_rejected"
    unfolding malformed_kernel_is_rejected_def by (metis sumE)
qed

section \<open>The ACPI tables\<close>

text \<open>The byte sum of a slice, and the length field of the MADT.\<close>

definition byte_sum :: "nat \<Rightarrow> nat \<Rightarrow> bytes \<Rightarrow> u8 option" where
  "byte_sum at n v = map_option (foldl (+) 0) (peek at n v)"

definition tables_have_valid_checksums_and_wakeup :: bool where
  "tables_have_valid_checksums_and_wakeup \<longleftrightarrow> (case acpi_build DEFAULT_VCPUS True of
       None \<Rightarrow> False
     | Some a \<Rightarrow>
         let mo = unat ACPI_MADT
         in byte_sum 0 (unat RSDP_LEN) a = Some 0 \<and>
            (\<exists>len. get32 (mo + 4) a = Some len \<and> byte_sum mo (unat len) a = Some 0) \<and>
            read_at (mo + unat (madt_len DEFAULT_VCPUS False)) a = Some MADT_WAKEUP)"

definition snp_madt_scales_with_the_processor_count :: bool where
  "snp_madt_scales_with_the_processor_count \<longleftrightarrow> (\<forall>cpus\<in>{1, 2, 16}. case acpi_build cpus False of
       None \<Rightarrow> False
     | Some a \<Rightarrow> map_option ucast (get32 (unat ACPI_MADT + 4) a) = Some (madt_len cpus False) \<and>
         madt_len cpus False = MADT_HEADER_LEN + ucast cpus * MADT_LAPIC_LEN)"

definition the_largest_allowed_madt_still_fits :: bool where
  "the_largest_allowed_madt_still_fits \<longleftrightarrow> (case acpi_build MAX_VCPUS True of
       None \<Rightarrow> False
     | Some a \<Rightarrow> (\<exists>len. get32 (unat ACPI_MADT + 4) a = Some len \<and>
         unat ACPI_MADT + unat len \<le> unat PAGE))"

lemma byte_sum_zero: "sums_to_zero at n v \<longleftrightarrow> byte_sum at n v = Some 0"
proof -
  have "foldl (+) a t = a + sum_list t" for a and t :: bytes
    by (induction t arbitrary: a) (simp_all add: add.assoc)
  then show ?thesis by (auto simp: sums_to_zero_def byte_sum_def)
qed

lemma built_madt:
  assumes "cpus \<le> MAX_VCPUS"
  obtains a where "acpi_build cpus wakeup = Some a" "acpi_page_ok cpus wakeup a"
    "get32 (unat ACPI_MADT + 4) a = Some (of_nat (unat (madt_len cpus wakeup)))"
  using acpi_build_ok [OF assms, of wakeup] that by (auto simp: acpi_page_ok_def table_ok_def)

lemma acpi_tests_pass:
  "tables_have_valid_checksums_and_wakeup" "snp_madt_scales_with_the_processor_count"
  "the_largest_allowed_madt_still_fits"
proof -
  have m: "DEFAULT_VCPUS \<le> MAX_VCPUS" "MAX_VCPUS \<le> MAX_VCPUS" by (simp_all add: layout_consts)
  have len: "unat (madt_len DEFAULT_VCPUS True) = 92" "unat (madt_len DEFAULT_VCPUS False) = 76"
    "unat (madt_len MAX_VCPUS True) = 2812"
    using unat_madt_len [OF m(1), of True] unat_madt_len [OF m(1), of False]
      unat_madt_len [OF m(2), of True]
    by (simp_all add: layout_consts)
  obtain a where a: "acpi_build DEFAULT_VCPUS True = Some a" "acpi_page_ok DEFAULT_VCPUS True a"
    "get32 (unat ACPI_MADT + 4) a = Some (of_nat (unat (madt_len DEFAULT_VCPUS True)))"
    by (rule built_madt [OF m(1)])
  then have "get32 (unat ACPI_MADT + 4) a = Some 92" by (simp only: len of_nat_numeral)
  with a(1,2) show "tables_have_valid_checksums_and_wakeup"
    using len by (simp add: tables_have_valid_checksums_and_wakeup_def acpi_page_ok_def table_ok_def
        madt_entries_def byte_sum_zero layout_consts)
  show "snp_madt_scales_with_the_processor_count"
    unfolding snp_madt_scales_with_the_processor_count_def
  proof
    fix cpus :: u32 assume "cpus \<in> {1, 2, 16}"
    then have c: "cpus \<le> MAX_VCPUS" by (auto simp: layout_consts)
    obtain a where "acpi_build cpus False = Some a"
      "get32 (unat ACPI_MADT + 4) a = Some (of_nat (unat (madt_len cpus False)))"
      by (rule built_madt [OF c])
    moreover have "madt_len cpus False = MADT_HEADER_LEN + ucast cpus * MADT_LAPIC_LEN"
      by (simp add: madt_len_def)
    ultimately show "case acpi_build cpus False of None \<Rightarrow> False
      | Some a \<Rightarrow> map_option ucast (get32 (unat ACPI_MADT + 4) a) = Some (madt_len cpus False) \<and>
         madt_len cpus False = MADT_HEADER_LEN + ucast cpus * MADT_LAPIC_LEN"
      using \<open>cpus \<in> {1, 2, 16}\<close> by (auto simp: layout_consts)
  qed
  obtain b where "acpi_build MAX_VCPUS True = Some b"
    "get32 (unat ACPI_MADT + 4) b = Some (of_nat (unat (madt_len MAX_VCPUS True)))"
    by (rule built_madt [OF m(2)])
  moreover from this(2) have "get32 (unat ACPI_MADT + 4) b = Some 2812"
    by (simp only: len of_nat_numeral)
  ultimately show "the_largest_allowed_madt_still_fits"
    by (simp add: the_largest_allowed_madt_still_fits_def ACPI_MADT_def PAGE_def)
qed

end
