(* ===== verification/Conformance_Formats.thy ===== *)
theory Conformance_Formats
  imports Conformance_Boot Tdx_Publish Shim_Walk
begin

text \<open>
  The repository's own tests of src/src/image.rs that build no image: the page tables, the
  configuration field, the parameters, the PCI aperture and the launch block of the manifest,
  as propositions about the model, and that the model passes them.
\<close>

section \<open>The page tables\<close>

definition pdpte :: "bytes \<Rightarrow> u64 \<Rightarrow> u64 option" where
  "pdpte table gpa = get64 (unat (PAGE + gpa div GIB * 8)) table"

definition identity_map_reaches_the_bound_memory_is_held_to :: bool where
  "identity_map_reaches_the_bound_memory_is_held_to \<longleftrightarrow>
     (case (identity_map 0 False, identity_map (ucast DEFAULT_CBIT) False) of
        (Some p, Some e) \<Rightarrow>
          get64 0 p = Some ((PAGE_TABLES + PAGE) OR 3) \<and> pdpte p 0 = Some 0x83 \<and>
          pdpte p (MAP_LIMIT - GIB) = Some ((MAP_LIMIT - GIB) OR 0x83) \<and>
          map_option (\<lambda>x. x AND 1) (pdpte p RESET_ALIAS) = Some 1 \<and> length p = length e \<and>
          (\<forall>i<length p div 8. case (get64 (8 * i) p, get64 (8 * i) e) of
             (Some plain, Some enc) \<Rightarrow>
               enc = (if plain = 0 then 0 else plain OR push_bit (unat DEFAULT_CBIT) 1)
           | _ \<Rightarrow> False)
      | _ \<Rightarrow> False)"

definition the_shared_alias_maps_gib_zero_unencrypted :: bool where
  "the_shared_alias_maps_gib_zero_unencrypted \<longleftrightarrow> (case identity_map (ucast DEFAULT_CBIT) True of
       None \<Rightarrow> False
     | Some m \<Rightarrow>
         length m = 3 * unat PAGE \<and>
         get64 8 m = Some ((PAGE_TABLES + 2 * PAGE) OR push_bit (unat DEFAULT_CBIT) 1 OR 3) \<and>
         (let aliased = drop (2 * unat PAGE) m
          in get64 0 aliased = Some 0x83 \<and> (\<forall>b\<in>set (drop 8 aliased). b = 0)) \<and>
         SHARED_ALIAS = 512 * GIB)"

definition every_range_the_shim_is_told_to_touch_is_mapped :: bool where
  "every_range_the_shim_is_told_to_touch_is_mapped \<longleftrightarrow>
     (\<forall>ram\<in>{DEFAULT_RAM, 16 * GIB, MAX_RAM}.
        case snp_params ram DEFAULT_VCPUS DEFAULT_CBIT [] [] of
          Inl e \<Rightarrow> False
        | Inr params \<Rightarrow> (case identity_map (ucast (p_cbit params)) True of
              None \<Rightarrow> False
            | Some table \<Rightarrow>
                let placed = [placed_measured KERNEL_BASE [] RAM (replicate (unat PAGE) 0)]
                in \<forall>(lo, hi)\<in>set (accept_ranges placed (p_memory params)).
                     map_option (\<lambda>x. x AND 1) (pdpte table (hi - PAGE)) = Some 1)) \<and>
     (\<exists>e. snp_params (MAX_RAM + PAGE) DEFAULT_VCPUS DEFAULT_CBIT [] [] = Inl e)"

lemma pdpte_entry:
  assumes "identity_map c shared = Some v" "gpa < MAP_LIMIT"
  shows "pdpte v gpa = Some (pdpt_entry (c_mask c) (unat gpa div 2 ^ 30))"
proof -
  let ?g = "unat gpa div 2 ^ 30"
  have g: "?g < 512"
    using assms(2) by (simp add: word_less_nat_alt layout_consts div_less_iff_less_mult)
  have "unat (gpa div GIB) = ?g" by (simp add: unat_div layout_consts)
  then have "gpa div GIB = of_nat ?g" by (metis of_nat_unat ucast_id)
  then have "PAGE + gpa div GIB * 8 = of_nat (4096 + 8 * ?g)" by (simp add: PAGE_def)
  moreover have "unat (of_nat (4096 + 8 * ?g) :: u64) = 4096 + 8 * ?g"
    using g by (intro unat_of_nat_u64) simp
  ultimately have "unat (PAGE + gpa div GIB * 8) = 4096 + 8 * ?g" by (simp only:)
  then show ?thesis
    using identity_map_entries [of c shared] assms(1) g by (auto simp: pdpte_def)
qed

lemma pdpt_entry_present: "pdpt_entry c g AND 1 = 1" "pdpt_entry 0 g \<noteq> 0"
proof -
  have b: "bit (pdpt_entry c g) 0" for c by (simp add: pdpt_entry_def bit_or_iff small_constant_bits)
  then show "pdpt_entry c g AND 1 = 1" by (simp add: and_one_eq mod_2_eq_odd flip: bit_0)
  show "pdpt_entry 0 g \<noteq> 0" using b [of 0] by auto
qed

lemma default_c_mask: "c_mask (ucast DEFAULT_CBIT) = push_bit (unat DEFAULT_CBIT) 1"
  by (simp add: c_mask_def layout_consts)

lemma get64_zero_bytes:
  assumes "get64 at v = Some 0" "k < 8"
  shows "v ! (at + k) = 0"
proof -
  from assms(1) have len: "at + 8 \<le> length v" and z: "le_word (take 8 (drop at v)) = (0 :: u64)"
    by (auto simp: get64_def peek_def split: if_splits)
  have "le_bytes 8 (le_word (take 8 (drop at v)) :: u64) = take 8 (drop at v)"
    using len by (intro le_bytes_le_word) simp_all
  then have "take 8 (drop at v) = le64 0" by (simp only: z)
  then have "take 8 (drop at v) ! k = 0" using assms(2) by simp
  then show ?thesis using len assms(2) by simp
qed

text \<open>Any range the builder lists ends in a mapped gibibyte.\<close>

lemma listed_range_is_mapped:
  assumes "identity_map c shared = Some table" "aligned placed" "is_multiple_of memory PAGE"
    "memory \<le> MAP_LIMIT" "(lo, hi) \<in> set (accept_ranges placed memory)"
  shows "map_option (\<lambda>x. x AND 1) (pdpte table (hi - PAGE)) = Some 1"
proof -
  have "mapped_range lo hi" using accept_ranges_mapped [OF assms(2-4)] assms(5) by auto
  moreover have "lo < hi" using accept_ranges_bounds [OF assms(5)] by simp
  ultimately have hi: "4096 dvd unat hi" "0 < unat hi" "hi \<le> MAP_LIMIT"
    by (auto simp: mapped_range_def PAGE_aligned_iff word_less_nat_alt)
  then have "4096 \<le> unat hi" by (simp add: dvd_imp_le)
  then have "unat (hi - PAGE) = unat hi - 4096"
    by (subst unat_sub) (simp_all add: PAGE_def word_le_nat_alt)
  then have "hi - PAGE < MAP_LIMIT"
    using hi \<open>4096 \<le> unat hi\<close> by (simp add: word_less_nat_alt word_le_nat_alt)
  then show ?thesis using pdpte_entry [OF assms(1)] by (simp add: pdpt_entry_present(1))
qed

lemma page_table_tests_pass:
  "identity_map_reaches_the_bound_memory_is_held_to" "the_shared_alias_maps_gib_zero_unencrypted"
  "every_range_the_shim_is_told_to_touch_is_mapped"
proof -
  let ?c = "c_mask (ucast DEFAULT_CBIT)"
  obtain p e where p: "identity_map 0 False = Some p" "length p = 8192"
      "get64 0 p = Some ((PAGE_TABLES + PAGE) OR c_mask 0 OR 3)"
      "\<forall>g<512. get64 (4096 + 8 * g) p = Some (pdpt_entry (c_mask 0) g)"
      "\<forall>i<512. i \<noteq> 0 \<longrightarrow> get64 (8 * i) p = Some 0"
    and e: "identity_map (ucast DEFAULT_CBIT) False = Some e" "length e = 8192"
      "get64 0 e = Some ((PAGE_TABLES + PAGE) OR ?c OR 3)"
      "\<forall>g<512. get64 (4096 + 8 * g) e = Some (pdpt_entry ?c g)"
      "\<forall>i<512. i \<noteq> 0 \<longrightarrow> get64 (8 * i) e = Some 0"
    using identity_map_entries [of 0 False] identity_map_entries [of "ucast DEFAULT_CBIT" False] by auto
  have z: "c_mask 0 = 0" by (simp add: c_mask_def)
  have "\<exists>plain enc. get64 (8 * i) p = Some plain \<and> get64 (8 * i) e = Some enc \<and>
      enc = (if plain = 0 then 0 else plain OR ?c)" if i: "i < 1024" for i
  proof -
    consider "i = 0" | "0 < i" "i < 512" | "512 \<le> i" by linarith
    then show ?thesis
    proof cases
      case 1
      have "(PAGE_TABLES + PAGE) OR 3 \<noteq> 0" by (simp add: layout_consts)
      then show ?thesis using p(3) e(3) 1 by (simp add: z or.assoc or.commute or.left_commute)
    next
      case 2
      then show ?thesis using p(5) e(5) by simp
    next
      case 3
      then obtain g where g: "i = 512 + g" "g < 512" using i le_Suc_ex by force
      then have "8 * i = 4096 + 8 * g" by simp
      then show ?thesis
        using p(4) e(4) g pdpt_entry_present(2) [of g]
        by (simp add: z pdpt_entry_def or.assoc or.commute or.left_commute)
    qed
  qed
  note all = this
  have lim: "MAP_LIMIT - GIB < MAP_LIMIT" "RESET_ALIAS < MAP_LIMIT" "0 < MAP_LIMIT"
    "unat (MAP_LIMIT - GIB) div 2 ^ 30 = 511" by (simp_all add: layout_consts)
  have "pdpt_entry 0 511 = (MAP_LIMIT - GIB) OR 0x83" "pdpt_entry 0 0 = 0x83"
    by (simp_all add: pdpt_entry_def layout_consts)
  then have d: "pdpte p 0 = Some 0x83" "pdpte p (MAP_LIMIT - GIB) = Some ((MAP_LIMIT - GIB) OR 0x83)"
    "map_option (\<lambda>x. x AND 1) (pdpte p RESET_ALIAS) = Some 1"
    using lim(4) pdpt_entry_present(1) pdpte_entry [OF p(1) lim(1)] pdpte_entry [OF p(1) lim(2)]
      pdpte_entry [OF p(1) lim(3)] by (simp_all add: z)
  have "case (get64 (8 * i) p, get64 (8 * i) e) of
      (Some plain, Some enc) \<Rightarrow> enc = (if plain = 0 then 0 else plain OR push_bit (unat DEFAULT_CBIT) 1)
    | _ \<Rightarrow> False" if "i < length p div 8" for i
    using all [of i] that p(2) by (auto simp: default_c_mask)
  with d p(3) show "identity_map_reaches_the_bound_memory_is_held_to"
    unfolding identity_map_reaches_the_bound_memory_is_held_to_def p(1) e(1)
    by (simp add: z p(2) e(2))
  obtain m where m: "identity_map (ucast DEFAULT_CBIT) True = Some m" "length m = 12288"
      "get64 8 m = Some ((PAGE_TABLES + 2 * PAGE) OR ?c OR 3)" "get64 8192 m = Some 0x83"
      "\<forall>j<512. j \<noteq> 0 \<longrightarrow> get64 (8192 + 8 * j) m = Some 0"
    using identity_map_entries [of "ucast DEFAULT_CBIT" True] by auto
  have "m ! i = 0" if i: "8200 \<le> i" "i < 12288" for i
  proof -
    define j where "j = (i - 8192) div 8"
    have "j < 512" "j \<noteq> 0" "i = 8192 + 8 * j + (i - 8192) mod 8"
      using i by (simp_all add: j_def div_less_iff_less_mult div_eq_0_iff)
    with m(5) get64_zero_bytes [of "8192 + 8 * j" m "(i - 8192) mod 8"] show ?thesis by simp
  qed
  then have rest: "\<forall>b\<in>set (drop 8200 m). b = 0" using m(2) by (auto simp: in_set_conv_nth)
  have head: "get64 0 (drop 8192 m) = get64 8192 m" using m(2) by (simp add: get64_def peek_def)
  show "the_shared_alias_maps_gib_zero_unencrypted"
    unfolding the_shared_alias_maps_gib_zero_unencrypted_def m(1) option.case Let_def
    using m(2-4) rest head default_c_mask by (simp add: layout_consts)
  have ex: "\<exists>params. snp_params ram DEFAULT_VCPUS DEFAULT_CBIT [] [] = Inr params"
    if "ram \<in> {DEFAULT_RAM, 16 * GIB, MAX_RAM}" for ram
    using that by (auto simp: snp_params_def new_params_def full_cmdline_def trim_def trim_start_def
        DEFAULT_CMDLINE_def REQUIRED_CMDLINE_def utf8_def utf8_char_def layout_consts
        is_multiple_of_def)
  have "case snp_params ram DEFAULT_VCPUS DEFAULT_CBIT [] [] of
      Inl e \<Rightarrow> False
    | Inr params \<Rightarrow> (case identity_map (ucast (p_cbit params)) True of
          None \<Rightarrow> False
        | Some table \<Rightarrow>
            let placed = [placed_measured KERNEL_BASE [] RAM (replicate (unat PAGE) 0)]
            in \<forall>(lo, hi)\<in>set (accept_ranges placed (p_memory params)).
                 map_option (\<lambda>x. x AND 1) (pdpte table (hi - PAGE)) = Some 1)"
    if ram: "ram \<in> {DEFAULT_RAM, 16 * GIB, MAX_RAM}" for ram
  proof -
    obtain params where pr: "snp_params ram DEFAULT_VCPUS DEFAULT_CBIT [] [] = Inr params"
      using ex [OF ram] by blast
    note np = new_params_memory [OF pr [unfolded snp_params_def]]
    obtain table where t: "identity_map (ucast (p_cbit params)) True = Some table"
      using identity_map_entries [of "ucast (p_cbit params)" True] by blast
    have al: "aligned [placed_measured KERNEL_BASE [] RAM (replicate (unat PAGE) 0)]"
      by (simp add: aligned_def one_page_span layout_consts is_multiple_of_def)
    show ?thesis
      using listed_range_is_mapped [OF t al] np by (auto simp: pr t)
  qed
  moreover have "\<exists>e. snp_params (MAX_RAM + PAGE) DEFAULT_VCPUS DEFAULT_CBIT [] [] = Inl e"
    by (simp add: snp_params_def new_params_def layout_consts is_multiple_of_def)
  ultimately show "every_range_the_shim_is_told_to_touch_is_mapped"
    unfolding every_range_the_shim_is_told_to_touch_is_mapped_def by blast
qed

section \<open>The configuration field and the parameters\<close>

definition config_hash_is_pinned_or_zero :: bool where
  "config_hash_is_pinned_or_zero \<longleftrightarrow>
     config_field None 32 = Inr (zeros 32) \<and>
     config_field (Some (concat (replicate 32 (lit ''AB'')))) 32 =
       Inr (concat (replicate 32 (lit ''ab''))) \<and>
     (\<exists>e. config_field (Some (lit ''abcd'')) 32 = Inl e) \<and>
     (\<exists>e. config_field (Some (concat (replicate 32 (lit ''zz'')))) 32 = Inl e)"

definition required_cmdline_is_appended :: bool where
  "required_cmdline_is_appended \<longleftrightarrow>
     map_sum id p_cmdline (tdx_params DEFAULT_RAM DEFAULT_VCPUS [] []) = Inr (lit ''panic=-1 no5lvl'') \<and>
     map_sum id p_cmdline (tdx_params DEFAULT_RAM 1 (lit ''quiet'') []) = Inr (lit ''quiet no5lvl'') \<and>
     map_sum id p_cmdline (tdx_params DEFAULT_RAM 1 (lit ''no5lvl x'') []) = Inr (lit ''no5lvl x'') \<and>
     (\<exists>e. tdx_params DEFAULT_RAM 0 [] [] = Inl e) \<and> (\<exists>e. tdx_params 0x1000 1 [] [] = Inl e) \<and>
     (\<exists>e. tdx_params DEFAULT_RAM (MAX_VCPUS + 1) [] [] = Inl e)"

definition the_pci_aperture_follows_the_ram_the_machine_has :: bool where
  "the_pci_aperture_follows_the_ram_the_machine_has \<longleftrightarrow>
     (case (tdx_params (2 * GIB) 1 [] [], tdx_params (3 * GIB) 1 [] [], tdx_params (8 * GIB) 1 [] [],
            snp_params (8 * GIB) DEFAULT_VCPUS DEFAULT_CBIT [] []) of
        (Inr small, Inr mid, Inr p, Inr snp) \<Rightarrow>
          p_memory small = 2 * GIB \<and> length (p_mmio small) = 0 \<and> p_memory mid = 5 * GIB \<and>
          p_memory p = 10 * GIB \<and> p_mmio p = [(2 * GIB, RESET_ALIAS - 2 * GIB)] \<and>
          p_mmio snp = [(2 * GIB, 2 * GIB)] \<and>
          (let placed = map (\<lambda>(b, n). placed_mmio b n) (p_mmio p) @
             [placed_measured RESET_ALIAS [] RESERVED (replicate (unat PAGE) 0)];
               e = e820 placed (p_memory p)
           in (\<forall>(b, n, k)\<in>set e. k \<noteq> RAM \<or> b + n \<le> 2 * GIB \<or> b \<ge> 4 * GIB) \<and>
              (4 * GIB, 6 * GIB, RAM) \<in> set e)
      | _ \<Rightarrow> False)"

lemma replicate_32: "replicate 32 x = [x,x,x,x,x,x,x,x,x,x,x,x,x,x,x,x,x,x,x,x,x,x,x,x,x,x,x,x,x,x,x,x]"
  by (simp add: numeral_eq_Suc)

lemma parameter_tests_pass:
  "config_hash_is_pinned_or_zero" "required_cmdline_is_appended"
  "the_pci_aperture_follows_the_ram_the_machine_has"
proof -
  show "config_hash_is_pinned_or_zero"
    unfolding config_hash_is_pinned_or_zero_def replicate_32
    by (simp add: config_field_def trim_def trim_start_def
        is_whitespace_def to_ascii_lowercase_def utf8_def utf8_char_def is_ascii_hexdigit_def)
  show "required_cmdline_is_appended"
    by (simp add: required_cmdline_is_appended_def tdx_params_def new_params_def full_cmdline_def
        trim_def trim_start_def is_whitespace_def split_whitespace_def DEFAULT_CMDLINE_def
        REQUIRED_CMDLINE_def utf8_def utf8_char_def layout_consts is_multiple_of_def)
  have pr: "map_sum id (\<lambda>p. (p_memory p, p_mmio p)) (tdx_params (2 * GIB) 1 [] []) = Inr (2 * GIB, [])"
    "map_sum id (\<lambda>p. (p_memory p, p_mmio p)) (tdx_params (3 * GIB) 1 [] []) =
       Inr (5 * GIB, [(2 * GIB, RESET_ALIAS - 2 * GIB)])"
    "map_sum id (\<lambda>p. (p_memory p, p_mmio p)) (tdx_params (8 * GIB) 1 [] []) =
       Inr (10 * GIB, [(2 * GIB, RESET_ALIAS - 2 * GIB)])"
    "map_sum id (\<lambda>p. (p_memory p, p_mmio p)) (snp_params (8 * GIB) DEFAULT_VCPUS DEFAULT_CBIT [] []) =
       Inr (10 * GIB, [(2 * GIB, 2 * GIB)])"
    by (simp_all add: tdx_params_def snp_params_def new_params_def full_cmdline_def trim_def
        trim_start_def DEFAULT_CMDLINE_def REQUIRED_CMDLINE_def utf8_def utf8_char_def layout_consts
        is_multiple_of_def)
  let ?placed = "[placed_mmio (2 * GIB) (RESET_ALIAS - 2 * GIB),
    placed_measured RESET_ALIAS [] RESERVED (replicate (unat PAGE) 0)]"
  have "spans ?placed = [(0x80000000, 0xfffff000, ABSENT), (0xfffff000, 0x100000000, RESERVED)]"
    by (simp add: spans_def span_of_def one_page_span layout_consts)
  then have e: "e820 ?placed (10 * GIB) =
      [(0, 0x80000000, RAM), (0xfffff000, 0x1000, RESERVED), (0x100000000, 0x180000000, RAM)]"
    unfolding e820_def
    by (simp add: e820_loop_step e820_push_def layout_consts del: e820_loop.simps(2))
  have in_sum: "\<exists>x. r = Inr x \<and> f x = y" if "map_sum id f r = Inr y"
    for r :: "params result" and f :: "params \<Rightarrow> u64 \<times> (u64 \<times> u64) list" and y
    using that by (cases r) simp_all
  from in_sum [OF pr(1)] in_sum [OF pr(2)] in_sum [OF pr(3)] in_sum [OF pr(4)]
  obtain small mid p snp where
    "tdx_params (2 * GIB) 1 [] [] = Inr small" "tdx_params (3 * GIB) 1 [] [] = Inr mid"
    "tdx_params (8 * GIB) 1 [] [] = Inr p" "snp_params (8 * GIB) DEFAULT_VCPUS DEFAULT_CBIT [] [] = Inr snp"
    "p_memory small = 2 * GIB" "p_mmio small = []" "p_memory mid = 5 * GIB" "p_memory p = 10 * GIB"
    "p_mmio p = [(2 * GIB, RESET_ALIAS - 2 * GIB)]" "p_mmio snp = [(2 * GIB, 2 * GIB)]"
    by (elim exE conjE) (simp only: prod.inject)
  then show "the_pci_aperture_follows_the_ram_the_machine_has"
    unfolding the_pci_aperture_follows_the_ram_the_machine_has_def Let_def
    using e by (simp add: layout_consts)
qed

section \<open>The launch block\<close>

definition the_launch_block_states_nothing_the_host_chooses ::
  "('f, 'k) externs \<Rightarrow> bool" where
  "the_launch_block_states_nothing_the_host_chooses ex \<longleftrightarrow>
     (let r = tdx_launch ex (replicate 48 7) (zeros 48)
      in (\<forall>host_chosen\<in>{lit ''attributes'', lit ''attributes_mask'', lit ''xfam'', lit ''mrowner'',
            lit ''mrownerconfig'', lit ''servtd_hash'', lit ''tee_tcb_svn''}. host_chosen \<notin> dom r) \<and>
         dom r = {lit ''mrconfigid'', lit ''mrtd'', lit ''rtmr0'', lit ''rtmr1'', lit ''rtmr2'', lit ''rtmr3''} \<and>
         r (lit ''mrtd'') = Some (ex_hex ex (replicate 48 7)) \<and> r (lit ''mrconfigid'') = Some (zeros 48) \<and>
         (\<forall>rtmr\<in>{lit ''rtmr0'', lit ''rtmr1'', lit ''rtmr2'', lit ''rtmr3''}. r rtmr = Some (zeros 48)))"

lemma launch_block_test_passes: "the_launch_block_states_nothing_the_host_chooses ex"
  by (simp add: the_launch_block_states_nothing_the_host_chooses_def tdx_launch_def insert_commute)

end
