(* ===== verification/Conformance_Image.thy ===== *)
theory Conformance_Image
  imports Conformance_Formats Kernel_View Reproducible Apertures
begin

text \<open>
  The repository's own tests of src/src/image.rs that build an image and read it back, as
  propositions about the model, and that the model passes them whatever the crates do within
  what they document.
\<close>

section \<open>Building from the stub inputs\<close>

definition tests_fs :: fs where
  "tests_fs = \<lparr>fs_files = (\<lambda>path. if path = lit ''bzImage'' then Inr test_kernel
      else if path = lit ''initrd'' then Inr (replicate 100000 7) else Inl ''No such file or directory''),
    fs_write_error = (\<lambda>path. None)\<rparr>"

text \<open>The file a build leaves; a test fails where the Rust code would unwrap an error.\<close>

definition built :: "('f, 'k) externs \<Rightarrow> params \<Rightarrow> bytes option" where
  "built ex params =
     (case build_tdx ex (lit ''bzImage'') (lit ''initrd'') (lit ''out.igvm'') params None tests_fs of
        (Inl e, s) \<Rightarrow> None
      | (Inr u, s) \<Rightarrow> (case fs_files s (lit ''out.igvm'') of Inl m \<Rightarrow> None | Inr img \<Rightarrow> Some img))"

definition reset_page :: "('f, 'k) externs \<Rightarrow> bytes \<Rightarrow> bytes option" where
  "reset_page ex img = (case igvm_pages ex img of
       Inl e \<Rightarrow> None
     | Inr pgs \<Rightarrow>
         if pgs = [] then None
         else (let (gpa, page) = last pgs in if gpa = RESET_ALIAS then Some page else None))"

text \<open>The entry and the ranges of a shim page, as the tests read them.\<close>

definition packed_ranges :: "bytes \<Rightarrow> (u64 \<times> (u64 \<times> u64) list) option" where
  "packed_ranges page = do {
     entry \<leftarrow> get64 (unat SHIM_DATA) page;
     ranges \<leftarrow> shim_ranges page (unat SHIM_DATA + 8);
     Some (entry, ranges)
   }"

section \<open>The tests\<close>

definition builds_a_byte_identical_loadable_igvm_file :: "('f, 'k) externs \<Rightarrow> bool" where
  "builds_a_byte_identical_loadable_igvm_file ex \<longleftrightarrow> (case built ex default_params of
       None \<Rightarrow> False
     | Some one \<Rightarrow>
         built ex default_params = Some one \<and>
         (case igvm_pages ex one of
            Inl e \<Rightarrow> False
          | Inr pgs \<Rightarrow> \<forall>(v, w)\<in>set (windows2 pgs). fst v + PAGE \<le> fst w) \<and>
         (case reset_page ex one of
            None \<Rightarrow> False
          | Some page \<Rightarrow> read_at (unat PAGE - 16) page = Some 0xe9))"

definition the_shim_accepts_exactly_what_the_builder_did_not_place ::
  "('f, 'k) externs \<Rightarrow> bool" where
  "the_shim_accepts_exactly_what_the_builder_did_not_place ex \<longleftrightarrow>
     (\<exists>img page entry ranges pgs. built ex default_params = Some img \<and> reset_page ex img = Some page \<and>
        packed_ranges page = Some (entry, ranges) \<and> igvm_pages ex img = Inr pgs \<and>
        entry = KERNEL_BASE + 0x200 \<and>
        (let loaded = filter (\<lambda>gpa. gpa < p_memory default_params) (map fst pgs);
             accepted = sum_list (map (\<lambda>(l, h). h - l) ranges)
         in (\<forall>(lo, hi)\<in>set ranges. lo < hi \<and> hi \<le> p_memory default_params \<and>
               \<not> (\<exists>gpa\<in>set loaded. gpa \<ge> lo \<and> gpa < hi)) \<and>
            (\<forall>(v, w)\<in>set (windows2 ranges). snd v \<in> set loaded) \<and>
            accepted + of_nat (length loaded) * PAGE = p_memory default_params \<and>
            ranges \<noteq> [] \<and> fst (hd ranges) = 0 \<and> snd (last ranges) = p_memory default_params))"

definition a_large_guest_leaves_the_reset_page_out_of_its_ram :: "('f, 'k) externs \<Rightarrow> bool" where
  "a_large_guest_leaves_the_reset_page_out_of_its_ram ex \<longleftrightarrow>
     (\<exists>params img page entry ranges. tdx_params (8 * GIB) DEFAULT_VCPUS [] [] = Inr params \<and>
        built ex params = Some img \<and> reset_page ex img = Some page \<and>
        packed_ranges page = Some (entry, ranges) \<and>
        (\<forall>(lo, hi)\<in>set ranges. hi \<le> RESET_ALIAS \<or> lo \<ge> RESET_ALIAS + PAGE) \<and>
        ranges \<noteq> [] \<and> last ranges = (RESET_ALIAS + PAGE, p_memory params) \<and>
        (\<exists>(b, n, k)\<in>set (e820 [placed_measured RESET_ALIAS [] RESERVED (replicate (unat PAGE) 0)]
             (p_memory params)). b = RESET_ALIAS \<and> n = PAGE \<and> k = RESERVED))"

section \<open>What a build of the stub inputs is\<close>

definition tdx_crates_ok :: "('f, 'k) externs \<Rightarrow> bool" where
  "tdx_crates_ok ex \<longleftrightarrow> igvm_round_trip ex \<and> blank_shim (ex_reset_shim ex) \<and>
     (\<forall>m. \<exists>json. ex_json_tdx ex m = Inr json)"

lemma demo_crates: "tdx_crates_ok demo_externs"
  using demo_round_trip demo_facts by (simp add: tdx_crates_ok_def demo_externs_def blank_shim_def)

lemma stub_inputs:
  "vec_len_ok test_kernel" "vec_len_ok (replicate 100000 (7 :: u8))"
  "fs_files tests_fs (lit ''bzImage'') = Inr test_kernel"
  "fs_files tests_fs (lit ''initrd'') = Inr (replicate 100000 7)"
  "fs_write_error tests_fs path = None"
  by (simp_all add: vec_len_ok_def tests_fs_def)

lemma stub_prepared:
  assumes "is_multiple_of (p_memory params) PAGE" "0x30000000 \<le> p_memory params"
    "length (utf8 (p_cmdline params)) < 0x800"
  shows "\<exists>p. prepare_inputs test_kernel (replicate 100000 7) params = Inr p"
proof -
  have "prepare_fits (info_of test_kernel) 5632 100000 params"
    using assms(2,3) by (simp add: prepare_fits_def test_kernel_bootable word_le_nat_alt)
  then show ?thesis
    using prepare_inputs_Inr_iff [OF stub_inputs(1,2) assms(1)] assms(3)
    by (simp add: Let_def test_kernel_bootable)
qed

text \<open>What a placement loads, in ascending order and outside its accept list.\<close>

lemma loaded_outside_accept_list:
  assumes "tdx_launch_facts ex params p placed" "pr_initramfs p \<noteq> []"
  defines "addresses \<equiv> map fst (tdx_load (sort_key pl_base placed))"
  shows "addresses = loaded_addresses (sort_key pl_base placed)" "sorted_wrt (<) addresses"
    "\<forall>a\<in>set addresses. is_multiple_of a PAGE \<and> \<not> accepted (accept_ranges placed (p_memory params)) a"
proof -
  obtain pgs where pgs: "launch_pages (sort_key pl_base placed) = Inr pgs"
    "map fst pgs = loaded_addresses (sort_key pl_base placed)"
    using tdx_loaded [OF assms(1)] .
  from launch_pages_addresses [OF pgs(1)] pgs(2)
  show a: "addresses = loaded_addresses (sort_key pl_base placed)"
    by (simp add: addresses_def tdx_load_def)
  have wp: "well_placed placed (p_memory params)" and ld: "\<forall>q\<in>set placed. loadable q"
    and pp: "proper placed"
    using assms(1,2) validate_well_placed [of placed "p_memory params"]
    by (simp_all add: tdx_launch_facts_def)
  then show "sorted_wrt (<) addresses"
    unfolding a by (intro loaded_ascending [of _ "p_memory params"]) (simp_all add: sort_key_placement)
  show "\<forall>a\<in>set addresses. is_multiple_of a PAGE \<and> \<not> accepted (accept_ranges placed (p_memory params)) a"
  proof
    fix x assume x: "x \<in> set addresses"
    then have m: "is_multiple_of x PAGE"
      using wp unfolding a loaded_addresses_def well_placed_def by (auto intro: region_addresses_aligned)
    have "x \<in> set (loaded_addresses placed)" using x by (simp add: a loaded_addresses_def)
    then have "\<exists>q\<in>set placed. covers q x" using loaded_iff_covered [OF wp pp ld m] by auto
    then show "is_multiple_of x PAGE \<and> \<not> accepted (accept_ranges placed (p_memory params)) x"
      using m by (simp add: accepted_def accept_ranges_mem)
  qed
qed

text \<open>The apertures the tests use: none, the one of a large machine, and one that is declared.\<close>

definition known_holes :: "params \<Rightarrow> bool" where
  "known_holes params \<longleftrightarrow>
     p_mmio params \<in> {[], [(0x80000000, RESET_ALIAS - 0x80000000)], [(0xa0000, 0x20000)]}"

lemma known_holes_clear:
  assumes "known_holes params"
  shows "apertures_ok params" "length (p_mmio params) \<le> 50"
    "length (pr_kernel p) = 5632 \<Longrightarrow> length (pr_initramfs p) = 100000 \<Longrightarrow>
       apertures_clear (tdx_image p) (p_mmio params)"
proof -
  show "apertures_ok params" "length (p_mmio params) \<le> 50"
    using assms by (auto simp: known_holes_def apertures_ok_def layout_consts)
  assume "length (pr_kernel p) = 5632" "length (pr_initramfs p) = 100000"
  then have "contents_at KERNEL_BASE (pr_kernel p) = (0x1000000, 0x1002000)"
    "contents_at INITRAMFS_BASE (pr_initramfs p) = (0x20000000, 0x20019000)"
    by (simp_all add: contents_at_def fill_span_def align_up_def div_ceil_def layout_consts)
  then show "apertures_clear (tdx_image p) (p_mmio params)"
    using assms unfolding known_holes_def tdx_image_def insert_iff empty_iff
    by (elim disjE FalseE) (simp_all add: apertures_clear_def page_at_def apart_def layout_consts)
qed

lemma stub_lengths:
  assumes "prepare_inputs test_kernel (replicate 100000 7) params = Inr p"
  shows "length (pr_setup p) = 0x2f000" "length (pr_command p) = 4096"
    "length (pr_kernel p) = 5632" "length (pr_initramfs p) = 100000" "pr_initramfs p \<noteq> []"
  using prepare_inputs_shape [OF assms] by (simp_all add: test_kernel_bootable)

lemma stub_cmdline:
  assumes "new_params ram vcpus [] cbit holes hole_end = Inr params"
  shows "p_cmdline params = lit ''panic=-1 no5lvl''" "length (utf8 (p_cmdline params)) = 15"
proof -
  show "p_cmdline params = lit ''panic=-1 no5lvl''"
    using assms by (elim new_paramsE) (simp add: full_cmdline_def trim_def trim_start_def
        DEFAULT_CMDLINE_def REQUIRED_CMDLINE_def)
  then show "length (utf8 (p_cmdline params)) = 15" by (simp add: utf8_def utf8_char_def)
qed

text \<open>A build of the stub inputs succeeds and leaves the image of a placement.\<close>

lemma stub_published:
  assumes "tdx_crates_ok ex" "tdx_params ram vcpus [] holes = Inr params" "0x30000000 \<le> p_memory params"
    "known_holes params"
  obtains s p placed owned mrtd field where
    "build_tdx ex (lit ''bzImage'') (lit ''initrd'') (lit ''out.igvm'') params None tests_fs = (Inr (), s)"
    "prepare_inputs test_kernel (replicate 100000 7) params = Inr p"
    "tdx_place ex params p = Inr (placed, owned)"
    "tdx_published ex (lit ''out.igvm'') tests_fs s (tdx_load (sort_key pl_base placed))
       (tdx_manifest_of ex params p (sort_key pl_base placed) owned mrtd field)"
proof -
  note pf = tdx_params_facts [OF assms(2)]
  note c = stub_cmdline(2) [OF assms(2) [unfolded tdx_params_def]]
  from assms(1) have ok: "igvm_round_trip ex" "blank_shim (ex_reset_shim ex)"
    "\<And>m. \<exists>json. ex_json_tdx ex m = Inr json"
    by (simp_all add: tdx_crates_ok_def)
  obtain q where q: "prepare_inputs test_kernel (replicate 100000 7) params = Inr q"
    using stub_prepared [OF pf(3) assms(3)] c by auto
  have "if apertures_clear (tdx_image q) (p_mmio params)
    then \<exists>s'. build_tdx ex (lit ''bzImage'') (lit ''initrd'') (lit ''out.igvm'') params None tests_fs
      = (Inr (), s')
    else \<exists>e. build_tdx ex (lit ''bzImage'') (lit ''initrd'') (lit ''out.igvm'') params None tests_fs
      = (Inl (Place e), tests_fs)"
    by (rule tdx_build_outcome [OF assms(2) known_holes_clear(1,2) [OF assms(4)] stub_inputs(3,4) q
        stub_inputs(1,2) _ _ ok(2,1,3) stub_inputs(5,5)]) (simp_all add: c config_field_def)
  then obtain s where b: "build_tdx ex (lit ''bzImage'') (lit ''initrd'') (lit ''out.igvm'') params None
      tests_fs = (Inr (), s)"
    using known_holes_clear(3) [OF assms(4) stub_lengths(3,4) [OF q]] by auto
  from tdx_published_memory [OF b stub_inputs(3,4)] that [OF b] show thesis by blast
qed

text \<open>The page it puts at the reset vector holds the accept list of its map.\<close>

lemma stub_build:
  assumes "tdx_crates_ok ex" "tdx_params ram vcpus [] holes = Inr params" "0x30000000 \<le> p_memory params"
    "known_holes params"
  obtains p placed acpi tables stack zero page img where
    "built ex params = Some img"
    "igvm_pages ex img = Inr (tdx_load (sort_key pl_base placed))"
    "placed = tdx_finished params p acpi tables stack zero page"
    "fixed_parts acpi tables stack zero page" "length (pr_setup p) = 0x2f000"
    "length (pr_command p) = 4096" "length (pr_kernel p) = 5632" "length (pr_initramfs p) = 100000"
    "packed_ranges page = Some (KERNEL_BASE + 0x200, accept_ranges placed (p_memory params))"
    "map fst (tdx_load (sort_key pl_base placed)) = loaded_addresses (sort_key pl_base placed)"
    "sorted_wrt (<) (map fst (tdx_load (sort_key pl_base placed)))"
    "\<forall>a\<in>set (map fst (tdx_load (sort_key pl_base placed))). is_multiple_of a PAGE \<and>
       \<not> accepted (accept_ranges placed (p_memory params)) a"
    "read_at 4080 page = read_at 4080 (ex_reset_shim ex)"
proof -
  note pf = tdx_params_facts [OF assms(2)]
  have ok: "length (ex_reset_shim ex) = 4096" using assms(1) by (simp add: tdx_crates_ok_def blank_shim_def)
  obtain s p placed owned mrtd field where
    b: "build_tdx ex (lit ''bzImage'') (lit ''initrd'') (lit ''out.igvm'') params None tests_fs = (Inr (), s)"
    and prep: "prepare_inputs test_kernel (replicate 100000 7) params = Inr p"
    and pl: "tdx_place ex params p = Inr (placed, owned)"
    and pub: "tdx_published ex (lit ''out.igvm'') tests_fs s (tdx_load (sort_key pl_base placed))
       (tdx_manifest_of ex params p (sort_key pl_base placed) owned mrtd field)"
    by (rule stub_published [OF assms]) (rule that)
  from pub obtain img where img: "fs_files s (lit ''out.igvm'') = Inr img"
    "igvm_pages ex img = Inr (tdx_load (sort_key pl_base placed))"
    by (auto simp: tdx_published_def manifest_path_def)
  have built: "built ex params = Some img" by (simp only: built_def b img prod.case sum.case)
  note lens = stub_lengths [OF prep]
  have sized: "sized params p" by (rule prepared_sized [OF prep pf(1) stub_inputs(1,2)])
  note loaded = loaded_outside_accept_list
    [OF tdx_place_facts [OF pl sized ok known_holes_clear(1) [OF assms(4)]] lens(5)]
  obtain acpi tables stack zero page where placed: "placed = tdx_finished params p acpi tables stack zero page"
    and parts: "tdx_measured_parts params acpi tables stack" "length zero = 4096" "length page = 4096"
    and shim: "shim (ex_reset_shim ex) (pr_entry p) (accept_ranges placed (p_memory params)) = Inr page"
    by (rule tdx_placeE [OF pl pf(1) lens(1) ok]) (rule that)
  have fx: "fixed_parts acpi tables stack zero page"
    using parts fixed_lengths(1) [OF pf(1), of True acpi] fixed_lengths(2) [of 0 False tables]
      fixed_lengths(3) [of stack]
    by (simp add: fixed_parts_def tdx_measured_parts_def)
  have asc: "\<forall>r\<in>set (accept_ranges placed (p_memory params)). fst r < snd r"
    using accept_ranges_bounds by fastforce
  note contents = shim_page_contents [OF ok shim asc]
  have pk: "packed_ranges page = Some (KERNEL_BASE + 0x200, accept_ranges placed (p_memory params))"
    using contents prepare_inputs_shape(4) [OF prep]
    by (simp add: packed_ranges_def shim_entry_def layout_consts)
  have "drop 0xff0 page ! 0 = drop 0xff0 (ex_reset_shim ex) ! 0" using contents by simp
  then have tail: "read_at 4080 page = read_at 4080 (ex_reset_shim ex)"
    using parts(3) ok by (simp add: read_at_def)
  show thesis
    by (rule that [OF built img(2) placed fx lens(1-4) pk loaded tail])
qed

section \<open>The model passes the tests\<close>

text \<open>The map of a stub build in the order of its bases: the reset page comes last.\<close>

lemma stub_sorted:
  assumes "known_holes params"
  shows "\<exists>before. sort_key pl_base (tdx_finished params p acpi tables stack zero page) =
    before @ [placed_measured RESET_ALIAS (lit ''shim'') RESERVED page]"
  using assms unfolding known_holes_def insert_iff empty_iff
  by (elim disjE) (simp_all add: tdx_finished_def layout_consts)

lemma stub_reset_page:
  assumes "igvm_pages ex img = Inr (tdx_load (sort_key pl_base placed))"
    "placed = tdx_finished params p acpi tables stack zero page" "length page = 4096"
    "known_holes params"
  shows "reset_page ex img = Some page"
proof -
  obtain before where b: "sort_key pl_base placed =
      before @ [placed_measured RESET_ALIAS (lit ''shim'') RESERVED page]"
    using stub_sorted [OF assms(4)] unfolding assms(2) by blast
  have "region_pages (placed_measured RESET_ALIAS (lit ''shim'') RESERVED page) = [(RESET_ALIAS, page)]"
    using assms(3) by (simp add: region_pages_def one_page)
  then have "tdx_load (sort_key pl_base placed) = concat (map region_pages before) @ [(RESET_ALIAS, page)]"
    unfolding tdx_load_def b by simp
  then show ?thesis using assms(1) by (simp add: reset_page_def)
qed

lemma stub_params:
  "is_multiple_of (p_memory default_params) PAGE" "p_memory default_params = 0x40000000"
  "known_holes default_params"
  by (simp_all add: default_params_def layout_consts is_multiple_of_def known_holes_def)

lemma windows2_members:
  assumes "(v, w) \<in> set (windows2 xs)"
  shows "v \<in> set xs" "w \<in> set xs"
proof -
  from assms have "v \<in> set xs" "w \<in> set (tl xs)"
    by (auto simp: windows2_def dest: set_zip_leftD set_zip_rightD)
  then show "v \<in> set xs" "w \<in> set xs" by (cases xs; simp)+
qed

lemma byte_identical_test_passes:
  assumes "tdx_crates_ok ex" "read_at 4080 (ex_reset_shim ex) = Some 0xe9"
  shows "builds_a_byte_identical_loadable_igvm_file ex"
proof -
  have m: "0x30000000 \<le> p_memory default_params" by (simp add: stub_params)
  obtain p placed acpi tables stack zero page img where b: "built ex default_params = Some img"
    and i: "igvm_pages ex img = Inr (tdx_load (sort_key pl_base placed))"
    and pl: "placed = tdx_finished default_params p acpi tables stack zero page"
    and fx: "fixed_parts acpi tables stack zero page"
    and s: "sorted_wrt (<) (map fst (tdx_load (sort_key pl_base placed)))"
    and al: "\<forall>a\<in>set (map fst (tdx_load (sort_key pl_base placed))). is_multiple_of a PAGE \<and>
       \<not> accepted (accept_ranges placed (p_memory default_params)) a"
    and tail: "read_at 4080 page = read_at 4080 (ex_reset_shim ex)"
    by (rule stub_build [OF assms(1) default_params m stub_params(3)]) (rule that)
  have "reset_page ex img = Some page"
    using stub_reset_page [OF i pl _ stub_params(3)] fx by (simp add: fixed_parts_def)
  moreover have "fst v + PAGE \<le> fst w"
    if vw: "(v, w) \<in> set (windows2 (tdx_load (sort_key pl_base placed)))" for v w
  proof -
    have "fst v < fst w" using windows2_sorted [OF s [unfolded sorted_wrt_map] vw] .
    moreover have "is_multiple_of (fst v) PAGE" "is_multiple_of (fst w) PAGE"
      using al windows2_members [OF vw] by simp_all
    ultimately show ?thesis by (intro page_after)
  qed
  ultimately show ?thesis
    using b i tail assms(2)
    by (auto simp: builds_a_byte_identical_loadable_igvm_file_def PAGE_def)
qed

lemma kernel_and_initramfs_spans:
  assumes "length (pr_kernel p) = 5632" "length (pr_initramfs p) = 100000"
  shows "fill_span (Measured (pr_kernel p)) = 0x2000" "fill_span (Measured (pr_initramfs p)) = 0x19000"
  using assms by (simp_all add: fill_span_def align_up_def div_ceil_def PAGE_def)

lemma stub_spans:
  assumes "fixed_parts acpi tables stack zero page" "length (pr_setup p) = 0x2f000"
    "length (pr_command p) = 4096" "length (pr_kernel p) = 5632" "length (pr_initramfs p) = 100000"
  shows "p_mmio params = [] \<Longrightarrow> spans (tdx_finished params p acpi tables stack zero page) =
    [(0x7000, 0x8000, RESERVED), (0x20000, 0x21000, RESERVED), (0xe0000, 0xe1000, ACPI),
     (0xf0000, 0xf1000, RESERVED), (0x100000, 0x102000, RESERVED), (0x107000, 0x117000, RESERVED),
     (0x121000, 0x150000, RESERVED), (0x1000000, 0x1002000, RAM), (0x20000000, 0x20019000, RAM),
     (0xfffff000, 0x100000000, RESERVED)]"
    and "p_mmio params = [(0x80000000, 0x7ffff000)] \<Longrightarrow>
      spans (tdx_finished params p acpi tables stack zero page) =
    [(0x7000, 0x8000, RESERVED), (0x20000, 0x21000, RESERVED), (0xe0000, 0xe1000, ACPI),
     (0xf0000, 0xf1000, RESERVED), (0x100000, 0x102000, RESERVED), (0x107000, 0x117000, RESERVED),
     (0x121000, 0x150000, RESERVED), (0x1000000, 0x1002000, RAM), (0x20000000, 0x20019000, RAM),
     (0x80000000, 0xfffff000, ABSENT), (0xfffff000, 0x100000000, RESERVED)]"
  using assms kernel_and_initramfs_spans [OF assms(4,5)] unfolding fixed_parts_def
  by (simp_all add: tdx_finished_def spans_def span_of_def one_page_span fixed_spans layout_consts)

text \<open>The pages a build of the default parameters loads, in the order they are loaded.\<close>

definition stub_pages :: "u64 list" where
  "stub_pages = [0x7000, 0x20000, 0xe0000, 0xf0000] @ map (\<lambda>i. 0x100000 + of_nat i * 0x1000) [0..<2]
     @ map (\<lambda>i. 0x107000 + of_nat i * 0x1000) [0..<16]
     @ map (\<lambda>i. 0x121000 + of_nat i * 0x1000) [0..<47]
     @ map (\<lambda>i. 0x1000000 + of_nat i * 0x1000) [0..<2]
     @ map (\<lambda>i. 0x20000000 + of_nat i * 0x1000) [0..<25] @ [0xfffff000]"

lemma stub_addresses:
  assumes "fixed_parts acpi tables stack zero page" "length (pr_setup p) = 0x2f000"
    "length (pr_command p) = 4096" "length (pr_kernel p) = 5632" "length (pr_initramfs p) = 100000"
    "p_mmio params = []"
  shows "loaded_addresses (sort_key pl_base (tdx_finished params p acpi tables stack zero page)) =
    stub_pages"
  using assms unfolding fixed_parts_def stub_pages_def
  by (simp add: tdx_finished_def loaded_addresses_def region_addresses_def map_fst_pages layout_consts)

definition stub_ranges :: "(u64 \<times> u64) list" where
  "stub_ranges =
     [(0, 0x7000), (0x8000, 0x20000), (0x21000, 0xe0000), (0xe1000, 0xf0000), (0xf1000, 0x100000),
      (0x102000, 0x107000), (0x117000, 0x121000), (0x150000, 0x1000000), (0x1002000, 0x20000000),
      (0x20019000, 0x40000000)]"

lemma stub_accepts:
  assumes "fixed_parts acpi tables stack zero page" "length (pr_setup p) = 0x2f000"
    "length (pr_command p) = 4096" "length (pr_kernel p) = 5632" "length (pr_initramfs p) = 100000"
    "p_mmio params = []"
  shows "accept_ranges (tdx_finished params p acpi tables stack zero page) 0x40000000 = stub_ranges"
  by (simp add: accept_ranges_def stub_spans(1) [OF assms] stub_ranges_def)

lemma stub_pages_and_ranges:
  "\<forall>(lo, hi)\<in>set stub_ranges. lo < hi \<and> hi \<le> 0x40000000"
  "\<forall>(v, w)\<in>set (windows2 stub_ranges). snd v \<in> set (filter (\<lambda>a. a < 0x40000000) stub_pages)"
  "length (filter (\<lambda>a. a < 0x40000000) stub_pages) = 96"
  "sum_list (map (\<lambda>(l, h). h - l) stub_ranges) + 96 * PAGE = 0x40000000"
  by (simp_all add: stub_pages_def stub_ranges_def windows2_def upt_rec PAGE_def)

lemma accept_list_test_passes:
  assumes "tdx_crates_ok ex"
  shows "the_shim_accepts_exactly_what_the_builder_did_not_place ex"
proof -
  have m: "0x30000000 \<le> p_memory default_params" by (simp add: stub_params)
  have io: "p_mmio default_params = []" by (simp add: default_params_def)
  obtain p placed acpi tables stack zero page img where b: "built ex default_params = Some img"
    and i: "igvm_pages ex img = Inr (tdx_load (sort_key pl_base placed))"
    and pl: "placed = tdx_finished default_params p acpi tables stack zero page"
    and fx: "fixed_parts acpi tables stack zero page"
    and lens: "length (pr_setup p) = 0x2f000" "length (pr_command p) = 4096"
      "length (pr_kernel p) = 5632" "length (pr_initramfs p) = 100000"
    and pk: "packed_ranges page = Some (KERNEL_BASE + 0x200, accept_ranges placed (p_memory default_params))"
    and a: "map fst (tdx_load (sort_key pl_base placed)) = loaded_addresses (sort_key pl_base placed)"
    and out: "\<forall>a\<in>set (map fst (tdx_load (sort_key pl_base placed))). is_multiple_of a PAGE \<and>
       \<not> accepted (accept_ranges placed (p_memory default_params)) a"
    by (rule stub_build [OF assms default_params m stub_params(3)]) (rule that)
  have r: "reset_page ex img = Some page"
    using stub_reset_page [OF i pl _ stub_params(3)] fx by (simp add: fixed_parts_def)
  have a': "map fst (tdx_load (sort_key pl_base placed)) = stub_pages"
    using a stub_addresses [OF fx lens io] by (simp only: pl)
  have acc: "accept_ranges placed (p_memory default_params) = stub_ranges"
    using stub_accepts [OF fx lens io] by (simp only: pl stub_params)
  have k: "packed_ranges page = Some (KERNEL_BASE + 0x200, stub_ranges)"
    using pk by (simp only: acc)
  have apart: "\<forall>(lo, hi)\<in>set stub_ranges. lo < hi \<and> hi \<le> 0x40000000 \<and>
      \<not> (\<exists>gpa\<in>set (filter (\<lambda>a. a < 0x40000000) stub_pages). gpa \<ge> lo \<and> gpa < hi)"
    using out stub_pages_and_ranges(1) unfolding acc a' by (fastforce simp: accepted_def)
  have ends: "stub_ranges \<noteq> []" "fst (hd stub_ranges) = 0" "snd (last stub_ranges) = 0x40000000"
    by (simp_all add: stub_ranges_def)
  have sum: "sum_list (map (\<lambda>(l, h). h - l) stub_ranges)
      + of_nat (length (filter (\<lambda>a. a < 0x40000000) stub_pages)) * PAGE = 0x40000000"
    unfolding stub_pages_and_ranges(3) of_nat_numeral by (rule stub_pages_and_ranges(4))
  show ?thesis
    unfolding the_shim_accepts_exactly_what_the_builder_did_not_place_def Let_def
    by (rule exI [of _ img], rule exI [of _ page], rule exI, rule exI, rule exI, intro conjI,
        rule b, rule r, rule k, rule i, rule refl, unfold a' stub_params(2),
        rule apart, rule stub_pages_and_ranges(2), rule sum)
      (simp_all add: ends)
qed

lemma large_guest_test_passes:
  assumes "tdx_crates_ok ex"
  shows "a_large_guest_leaves_the_reset_page_out_of_its_ram ex"
proof -
  obtain params where np: "tdx_params (8 * GIB) DEFAULT_VCPUS [] [] = Inr params"
      "p_memory params = 10 * GIB" "p_mmio params = [(2 * GIB, RESET_ALIAS - 2 * GIB)]"
    by (simp add: tdx_params_def new_params_def full_cmdline_def trim_def
        trim_start_def DEFAULT_CMDLINE_def REQUIRED_CMDLINE_def utf8_def utf8_char_def layout_consts
        is_multiple_of_def)
  have m: "0x30000000 \<le> p_memory params" by (simp add: np layout_consts)
  have io: "known_holes params" by (simp add: known_holes_def np layout_consts)
  obtain p placed acpi tables stack zero page img where b: "built ex params = Some img"
    and i: "igvm_pages ex img = Inr (tdx_load (sort_key pl_base placed))"
    and pl: "placed = tdx_finished params p acpi tables stack zero page"
    and fx: "fixed_parts acpi tables stack zero page"
    and lens: "length (pr_setup p) = 0x2f000" "length (pr_command p) = 4096"
      "length (pr_kernel p) = 5632" "length (pr_initramfs p) = 100000"
    and pk: "packed_ranges page = Some (KERNEL_BASE + 0x200, accept_ranges placed (p_memory params))"
    by (rule stub_build [OF assms np(1) m io]) (rule that)
  have r: "reset_page ex img = Some page"
    using stub_reset_page [OF i pl _ io] fx by (simp add: fixed_parts_def)
  have "spans placed =
    [(0x7000, 0x8000, RESERVED), (0x20000, 0x21000, RESERVED), (0xe0000, 0xe1000, ACPI),
     (0xf0000, 0xf1000, RESERVED), (0x100000, 0x102000, RESERVED), (0x107000, 0x117000, RESERVED),
     (0x121000, 0x150000, RESERVED), (0x1000000, 0x1002000, RAM), (0x20000000, 0x20019000, RAM),
     (0x80000000, 0xfffff000, ABSENT), (0xfffff000, 0x100000000, RESERVED)]"
    using stub_spans(2) [OF fx lens] np(3) by (simp add: pl layout_consts)
  then have k: "packed_ranges page = Some (KERNEL_BASE + 0x200,
     [(0, 0x7000), (0x8000, 0x20000), (0x21000, 0xe0000), (0xe1000, 0xf0000), (0xf1000, 0x100000),
      (0x102000, 0x107000), (0x117000, 0x121000), (0x150000, 0x1000000), (0x1002000, 0x20000000),
      (0x20019000, 0x80000000), (0x100000000, 0x280000000)])"
    using pk by (simp add: accept_ranges_def np(2) layout_consts)
  have "spans [placed_measured RESET_ALIAS [] RESERVED (replicate (unat PAGE) 0)] =
      [(0xfffff000, 0x100000000, RESERVED)]"
    by (simp add: spans_def span_of_def one_page_span layout_consts)
  then have "e820 [placed_measured RESET_ALIAS [] RESERVED (replicate (unat PAGE) 0)] (10 * GIB) =
      [(0, 0xfffff000, RAM), (0xfffff000, 0x1000, RESERVED), (0x100000000, 0x180000000, RAM)]"
    unfolding e820_def
    by (simp add: e820_loop_step e820_push_def layout_consts del: e820_loop.simps(2))
  then have e: "(RESET_ALIAS, PAGE, RESERVED)
      \<in> set (e820 [placed_measured RESET_ALIAS [] RESERVED (replicate (unat PAGE) 0)] (p_memory params))"
    unfolding np(2) by (simp only:) (simp add: layout_consts)
  show ?thesis
    unfolding a_large_guest_leaves_the_reset_page_out_of_its_ram_def
    by (rule exI [of _ params], rule exI [of _ img], rule exI [of _ page], rule exI, rule exI,
        intro conjI, rule np(1), rule b, rule r, rule k)
      (use e in \<open>auto simp: np(2) layout_consts\<close>)
qed

end
