(* ===== verification/Conformance_Manifest.thy ===== *)
theory Conformance_Manifest
  imports Conformance_Image
begin

text \<open>
  The tests of src/src/image.rs that build an image with a declared aperture or read the
  manifest beside an image, as propositions about the model, and that the model passes them.
\<close>

section \<open>The image with a declared aperture\<close>

definition a_declared_mmio_hole_reaches_the_image_and_the_shim :: "('f, 'k) externs \<Rightarrow> bool" where
  "a_declared_mmio_hole_reaches_the_image_and_the_shim ex \<longleftrightarrow>
     (let (base, len) = (0xa0000, 0x20000) in
      \<exists>with_hole plain held page entry ranges page' entry' ranges'.
        tdx_params DEFAULT_RAM DEFAULT_VCPUS [] [(base, len)] = Inr with_hole \<and>
        built ex default_params = Some plain \<and> built ex with_hole = Some held \<and> plain \<noteq> held \<and>
        mmio_holes with_hole = [lit ''0x000a0000:0x20000''] \<and>
        reset_page ex plain = Some page \<and> packed_ranges page = Some (entry, ranges) \<and>
        (\<exists>(l, h)\<in>set ranges. l \<le> base \<and> h \<ge> base + len) \<and>
        reset_page ex held = Some page' \<and> packed_ranges page' = Some (entry', ranges') \<and>
        (\<forall>(l, h)\<in>set ranges'. h \<le> base \<or> l \<ge> base + len))"

lemma stub_shim:
  assumes "tdx_crates_ok ex" "tdx_params ram vcpus [] holes = Inr params" "0x30000000 \<le> p_memory params"
    "known_holes params"
  obtains p acpi tables stack zero page img where
    "built ex params = Some img" "reset_page ex img = Some page"
    "packed_ranges page = Some (KERNEL_BASE + 0x200,
       accept_ranges (tdx_finished params p acpi tables stack zero page) (p_memory params))"
    "fixed_parts acpi tables stack zero page" "length (pr_setup p) = 0x2f000"
    "length (pr_command p) = 4096" "length (pr_kernel p) = 5632" "length (pr_initramfs p) = 100000"
proof -
  obtain p placed acpi tables stack zero page img where b: "built ex params = Some img"
    and i: "igvm_pages ex img = Inr (tdx_load (sort_key pl_base placed))"
    and pl: "placed = tdx_finished params p acpi tables stack zero page"
    and fx: "fixed_parts acpi tables stack zero page"
    and lens: "length (pr_setup p) = 0x2f000" "length (pr_command p) = 4096"
      "length (pr_kernel p) = 5632" "length (pr_initramfs p) = 100000"
    and pk: "packed_ranges page = Some (KERNEL_BASE + 0x200, accept_ranges placed (p_memory params))"
    by (rule stub_build [OF assms]) (rule that)
  have "reset_page ex img = Some page"
    using stub_reset_page [OF i pl _ assms(4)] fx by (simp add: fixed_parts_def)
  from that [OF b this pk [unfolded pl] fx lens] show thesis .
qed

lemma hole_accepts:
  assumes "fixed_parts acpi tables stack zero page" "length (pr_setup p) = 0x2f000"
    "length (pr_command p) = 4096" "length (pr_kernel p) = 5632" "length (pr_initramfs p) = 100000"
    "p_mmio params = [(0xa0000, 0x20000)]"
  shows "accept_ranges (tdx_finished params p acpi tables stack zero page) 0x40000000 =
     [(0, 0x7000), (0x8000, 0x20000), (0x21000, 0xa0000), (0xc0000, 0xe0000), (0xe1000, 0xf0000),
      (0xf1000, 0x100000), (0x102000, 0x107000), (0x117000, 0x121000), (0x150000, 0x1000000),
      (0x1002000, 0x20000000), (0x20019000, 0x40000000)]"
proof -
  have "spans (tdx_finished params p acpi tables stack zero page) =
    [(0x7000, 0x8000, RESERVED), (0x20000, 0x21000, RESERVED), (0xa0000, 0xc0000, ABSENT),
     (0xe0000, 0xe1000, ACPI), (0xf0000, 0xf1000, RESERVED), (0x100000, 0x102000, RESERVED),
     (0x107000, 0x117000, RESERVED), (0x121000, 0x150000, RESERVED), (0x1000000, 0x1002000, RAM),
     (0x20000000, 0x20019000, RAM), (0xfffff000, 0x100000000, RESERVED)]"
    using assms kernel_and_initramfs_spans [OF assms(4,5)] unfolding fixed_parts_def
    by (simp add: tdx_finished_def spans_def span_of_def one_page_span fixed_spans layout_consts)
  then show ?thesis by (simp add: accept_ranges_def)
qed

lemma hole_text: "mmio_holes (demo_holes [(0xa0000, 0x20000)]) = [lit ''0x000a0000:0x20000'']"
proof -
  have "show_radix 16 655360 = lit ''a0000''" "show_radix 16 131072 = lit ''20000''"
    by (simp_all add: show_radix.simps [of 16 655360] show_radix.simps [of 16 40960]
        show_radix.simps [of 16 2560] show_radix.simps [of 16 160] show_radix.simps [of 16 10]
        show_radix.simps [of 16 131072] show_radix.simps [of 16 8192] show_radix.simps [of 16 512]
        show_radix.simps [of 16 32] show_radix.simps [of 16 2] digit_char_def)
  then show ?thesis by (simp add: mmio_holes_def demo_holes_def fmt_hex_def numeral_3_eq_3)
qed

lemma hole_test_passes:
  assumes "tdx_crates_ok ex"
  shows "a_declared_mmio_hole_reaches_the_image_and_the_shim ex"
proof -
  let ?with = "demo_holes [(0xa0000, 0x20000)]"
  have m: "p_memory default_params = 0x40000000" "p_memory ?with = 0x40000000"
    "0x30000000 \<le> p_memory default_params" "0x30000000 \<le> p_memory ?with"
    by (simp_all add: stub_params demo_holes_def)
  have io: "p_mmio default_params = []" "p_mmio ?with = [(0xa0000, 0x20000)]" "known_holes ?with"
    by (simp_all add: default_params_def demo_holes_def known_holes_def)
  note w = demo_holes_params(1) [of "[(0xa0000, 0x20000)]", simplified]
  obtain p1 ac1 tb1 st1 z1 page plain where plain: "built ex default_params = Some plain"
    "reset_page ex plain = Some page" "packed_ranges page = Some (KERNEL_BASE + 0x200,
       accept_ranges (tdx_finished default_params p1 ac1 tb1 st1 z1 page) (p_memory default_params))"
    and fx1: "fixed_parts ac1 tb1 st1 z1 page" "length (pr_setup p1) = 0x2f000"
    "length (pr_command p1) = 4096" "length (pr_kernel p1) = 5632" "length (pr_initramfs p1) = 100000"
    by (rule stub_shim [OF assms default_params m(3) stub_params(3)]) (rule that)
  obtain p2 ac2 tb2 st2 z2 page' held where held: "built ex ?with = Some held"
    "reset_page ex held = Some page'" "packed_ranges page' = Some (KERNEL_BASE + 0x200,
       accept_ranges (tdx_finished ?with p2 ac2 tb2 st2 z2 page') (p_memory ?with))"
    and fx2: "fixed_parts ac2 tb2 st2 z2 page'" "length (pr_setup p2) = 0x2f000"
    "length (pr_command p2) = 4096" "length (pr_kernel p2) = 5632" "length (pr_initramfs p2) = 100000"
    by (rule stub_shim [OF assms w m(4) io(3)]) (rule that)
  note r1 = plain(3) [unfolded m stub_accepts [OF fx1 io(1)] stub_ranges_def]
  note r2 = held(3) [unfolded m hole_accepts [OF fx2 io(2)]]
  have ne: "plain \<noteq> held" using plain(2) held(2) r1 r2 by auto
  show ?thesis
    unfolding a_declared_mmio_hole_reaches_the_image_and_the_shim_def Let_def prod.case
    by (intro exI conjI, rule w, rule plain, rule held, rule ne, rule hole_text, rule plain,
        rule r1, simp, rule held, rule r2, simp)
qed

section \<open>The manifest beside the image\<close>

text \<open>
  The tests read the manifest back with the JSON crate; \<open>read\<close> is that reader, and what is
  documented of it is that it returns the value that was written, whatever white space follows.
  A map of the Rust code is finite.
\<close>

definition reads_back :: "('f, 'k) externs \<Rightarrow> (bytes \<Rightarrow> tdx_manifest option) \<Rightarrow> bool" where
  "reads_back ex read \<longleftrightarrow> (\<forall>m json. finite (dom (tm_components m)) \<and> finite (dom (tm_launch m)) \<and>
     ex_json_tdx ex m = Inr json \<longrightarrow> read (json @ [10]) = Some m)"

definition built_manifest ::
  "('f, 'k) externs \<Rightarrow> (bytes \<Rightarrow> tdx_manifest option) \<Rightarrow> params \<Rightarrow> tdx_manifest option" where
  "built_manifest ex read params =
     (case build_tdx ex (lit ''bzImage'') (lit ''initrd'') (lit ''out.igvm'') params None tests_fs of
        (Inl e, s) \<Rightarrow> None
      | (Inr u, s) \<Rightarrow> (case fs_files s (lit ''out.igvm.manifest.json'') of
            Inl m \<Rightarrow> None | Inr bytes \<Rightarrow> read bytes))"

text \<open>That the measurement is a string is its type here.\<close>

definition a_manifest_names_the_platform_it_measured ::
  "('f, 'k) externs \<Rightarrow> (bytes \<Rightarrow> tdx_manifest option) \<Rightarrow> bool" where
  "a_manifest_names_the_platform_it_measured ex read \<longleftrightarrow>
     map_option tm_platform (built_manifest ex read default_params) = Some (lit ''tdx'')"

text \<open>Collecting whole pages until there are enough bytes; a page that is not loaded panics.\<close>

partial_function (option) gather ::
  "(u64 \<Rightarrow> bytes option) \<Rightarrow> u64 \<Rightarrow> nat \<Rightarrow> bytes \<Rightarrow> bytes option" where
  "gather loaded gpa n bytes =
     (if length bytes < n then
        (case loaded (gpa + of_nat (length bytes)) of
           None \<Rightarrow> None
         | Some page \<Rightarrow> gather loaded gpa n (bytes @ page))
      else Some bytes)"

definition every_component_hashes_the_bytes_at_the_address_it_names ::
  "('f, 'k) externs \<Rightarrow> (bytes \<Rightarrow> tdx_manifest option) \<Rightarrow> bool" where
  "every_component_hashes_the_bytes_at_the_address_it_names ex read \<longleftrightarrow>
     (case (built ex default_params, built_manifest ex read default_params) of
        (Some file, Some manifest) \<Rightarrow> (case igvm_pages ex file of
            Inl e \<Rightarrow> False
          | Inr pgs \<Rightarrow>
              let loaded = map_of (rev pgs); comps = tm_components manifest
              in card (dom comps) = 6 \<and>
                 (\<forall>c\<in>ran comps. \<exists>gpa bytes.
                    from_str_radix (trim_start_0x (co_address c)) 16 = Inr gpa \<and>
                    gather loaded gpa (co_size c) [] = Some bytes \<and>
                    ex_hex ex (ex_sha256 ex (take (co_size c) bytes)) = co_sha256 c))
      | _ \<Rightarrow> False)"

lemma gather_pages:
  assumes "\<And>k. k < c \<Longrightarrow> loaded (gpa + of_nat (k * 4096)) = Some (pg k)"
    and "\<And>k. k < c \<Longrightarrow> length (pg k) = 4096"
    and "n \<le> c * 4096" "(c - 1) * 4096 < n \<or> c = 0" "j \<le> c"
  shows "gather loaded gpa n (concat (map pg [0..<j])) = Some (concat (map pg [0..<c]))"
  using assms(5)
proof (induction "c - j" arbitrary: j)
  case 0
  have "length (concat (map pg [0..<j])) = j * 4096" if "j \<le> c" for j
    using that assms(2) by (induction j) simp_all
  then show ?case using 0 assms(3) by (subst gather.simps) simp
next
  case (Suc d)
  have len: "length (concat (map pg [0..<j])) = j * 4096"
    using Suc.prems assms(2) by (induction j) simp_all
  have "j < c" using Suc.hyps(2) by linarith
  then have "j * 4096 < n" using assms(4) by (auto simp: less_eq_Suc_le)
  moreover have "gather loaded gpa n (concat (map pg [0..<Suc j])) = Some (concat (map pg [0..<c]))"
    using Suc.hyps(2) \<open>j < c\<close> by (intro Suc.hyps(1)) linarith+
  ultimately show ?case
    using assms(1) [OF \<open>j < c\<close>] len by (subst gather.simps) simp
qed

text \<open>Gathering the pages of a region gives its contents and the zeros that pad them.\<close>

lemma gather_region:
  assumes "distinct (map fst pgs)" "set (pages b data) \<subseteq> set pgs"
  shows "\<exists>zeros. gather (map_of (rev pgs)) b (length data) [] = Some (data @ zeros)"
proof -
  let ?c = "length (pages b data)"
  have "map_of (rev pgs) (b + of_nat (k * 4096)) = Some (snd (pages b data ! k))" if k: "k < ?c" for k
  proof -
    have "pages b data ! k \<in> set (rev pgs)" using nth_mem [OF k] assms(2) by auto
    moreover have "fst (pages b data ! k) = b + of_nat (k * 4096)"
      using k by (simp add: nth_pages PAGE_def)
    moreover have "distinct (map fst (rev pgs))" using assms(1) by (simp add: rev_map [symmetric])
    ultimately show ?thesis by (metis map_of_is_SomeI prod.collapse)
  qed
  moreover have "length (snd (pages b data ! k)) = 4096" if "k < ?c" for k
    using pages_page_length [of "fst (pages b data ! k)" "snd (pages b data ! k)"] nth_mem [OF that]
    by simp
  moreover have "length data \<le> ?c * 4096" "(?c - 1) * 4096 < length data \<or> ?c = 0"
    by (simp_all add: length_pages) linarith+
  ultimately have "gather (map_of (rev pgs)) b (length data) (concat (map (\<lambda>k. snd (pages b data ! k)) [0..<0]))
      = Some (concat (map (\<lambda>k. snd (pages b data ! k)) [0..<?c]))"
    by (intro gather_pages) simp_all
  moreover have "map (\<lambda>k. snd (pages b data ! k)) [0..<?c] = map snd (pages b data)"
    by (rule nth_equalityI) simp_all
  ultimately show ?thesis by (simp add: concat_pages)
qed

lemma fmt_hex_lower: "\<forall>c\<in>set (fmt_hex w n). lower_hex c"
proof -
  have "lower_hex c" if c: "c \<in> set (show_radix 16 n)" for c
    using show_radix_digits [OF _ _ c] by (auto simp: lower_hex_def digit_char_def split: if_splits)
  moreover have "lower_hex 48" by (simp add: lower_hex_def)
  ultimately show ?thesis by (auto simp: fmt_hex_def)
qed

lemma component_gathered:
  assumes "distinct (map fst pgs)" "set (pages b data) \<subseteq> set pgs"
  shows "\<exists>gpa bytes.
    from_str_radix (trim_start_0x (co_address (component_of ex b data))) 16 = Inr gpa \<and>
    gather (map_of (rev pgs)) gpa (co_size (component_of ex b data)) [] = Some bytes \<and>
    ex_hex ex (ex_sha256 ex (take (co_size (component_of ex b data)) bytes)) =
      co_sha256 (component_of ex b data)"
proof -
  have "trim_start_0x (co_address (component_of ex b data)) = fmt_hex 8 (unat b)"
    using lower_hex_text(2) [OF fmt_hex_lower] by (simp add: component_of_def)
  then show ?thesis
    using gather_region [OF assms] from_str_radix_fmt_hex [of 8 b] by (auto simp: component_of_def)
qed

lemma manifest_tests_pass:
  assumes "tdx_crates_ok ex" "reads_back ex read"
  shows "a_manifest_names_the_platform_it_measured ex read"
    "every_component_hashes_the_bytes_at_the_address_it_names ex read"
proof -
  have m: "0x30000000 \<le> p_memory default_params" by (simp add: stub_params)
  note pf = tdx_params_facts [OF default_params]
  have ok: "length (ex_reset_shim ex) = 4096" using assms(1) by (simp add: tdx_crates_ok_def blank_shim_def)
  obtain s p placed owned mrtd field where
    b: "build_tdx ex (lit ''bzImage'') (lit ''initrd'') (lit ''out.igvm'') default_params None tests_fs =
      (Inr (), s)"
    and prep: "prepare_inputs test_kernel (replicate 100000 7) default_params = Inr p"
    and pl: "tdx_place ex default_params p = Inr (placed, owned)"
    and pub: "tdx_published ex (lit ''out.igvm'') tests_fs s (tdx_load (sort_key pl_base placed))
       (tdx_manifest_of ex default_params p (sort_key pl_base placed) owned mrtd field)"
    by (rule stub_published [OF assms(1) default_params m stub_params(3)]) (rule that)
  let ?m = "tdx_manifest_of ex default_params p (sort_key pl_base placed) owned mrtd field"
  let ?pgs = "tdx_load (sort_key pl_base placed)"
  from pub obtain img json where img: "igvm_pages ex img = Inr ?pgs" "ex_json_tdx ex ?m = Inr json"
    "s = tests_fs\<lparr>fs_files := (fs_files tests_fs)(lit ''out.igvm'' := Inr img,
       manifest_path (lit ''out.igvm'') := Inr (json @ [10]))\<rparr>"
    unfolding tdx_published_def by blast
  have files: "fs_files s (lit ''out.igvm'') = Inr img"
    "fs_files s (lit ''out.igvm.manifest.json'') = Inr (json @ [10])"
    by (simp_all add: img(3) manifest_path_def)
  have comps: "tm_components ?m = components ex (sort_key pl_base placed)"
    by (simp add: tdx_manifest_of_def)
  have fin: "finite (dom (tm_components ?m))" "finite (dom (tm_launch ?m))"
    by (simp_all only: comps dom_components finite_Diff finite_imageI finite_set)
      (simp add: tdx_manifest_of_def tdx_launch_def)
  have built: "built ex default_params = Some img" "built_manifest ex read default_params = Some ?m"
    using assms(2) [unfolded reads_back_def, rule_format, OF conjI [OF fin(1) conjI [OF fin(2) img(2)]]]
    by (simp_all only: built_def built_manifest_def b files prod.case sum.case)
  show "a_manifest_names_the_platform_it_measured ex read"
    by (simp add: a_manifest_names_the_platform_it_measured_def built tdx_manifest_of_def)
  note lens = stub_lengths [OF prep]
  have sized: "sized default_params p" by (rule prepared_sized [OF prep pf(1) stub_inputs(1,2)])
  have dist: "distinct (map fst ?pgs)"
    using loaded_outside_accept_list(2) [OF tdx_place_facts [OF pl sized ok
        known_holes_clear(1) [OF stub_params(3)]] lens(5)] by (simp add: strict_sorted_iff)
  obtain acpi tables stack zero page where
    placed: "placed = tdx_finished default_params p acpi tables stack zero page"
    by (rule tdx_placeE [OF pl pf(1) lens(1) ok])
  have "dom (tm_components ?m) = {lit ''command_line'', lit ''acpi'', lit ''kernel_setup'',
      lit ''kernel'', lit ''initramfs'', lit ''shim''}"
    using tdx_names unfolding comps dom_components set_sort unfolding placed by blast
  then have six: "card (dom (tm_components ?m)) = 6" by simp
  have each: "\<exists>gpa bytes. from_str_radix (trim_start_0x (co_address c)) 16 = Inr gpa \<and>
      gather (map_of (rev ?pgs)) gpa (co_size c) [] = Some bytes \<and>
      ex_hex ex (ex_sha256 ex (take (co_size c) bytes)) = co_sha256 c"
    if "c \<in> ran (tm_components ?m)" for c
  proof -
    from that obtain n where "components ex (sort_key pl_base placed) n = Some c"
      by (auto simp: comps ran_def)
    from components_Some [OF this] obtain q where q: "q \<in> set placed" "pl_name q \<noteq> []"
      "c = component_of ex (pl_base q) (placed_data q)" by auto
    have "pl_fill q = Measured (placed_data q)"
      using tdx_named_regions q(1,2) unfolding placed by blast
    then have "set (pages (pl_base q) (placed_data q)) \<subseteq> set ?pgs"
      using q(1) by (intro tdx.load_measured) simp_all
    from component_gathered [OF dist this] show ?thesis by (simp only: q(3))
  qed
  show "every_component_hashes_the_bytes_at_the_address_it_names ex read"
    using six each
    by (simp only: every_component_hashes_the_bytes_at_the_address_it_names_def built img(1)
        prod.case option.case sum.case Let_def) simp
qed

end
