(* ===== verification/Conformance_Snp.thy ===== *)
theory Conformance_Snp
  imports Conformance_Image Snp_Live
begin

text \<open>
  The repository's own tests of src/src/snp.rs, as propositions about the model, and that the
  model passes them. The tests that expect two measurements to differ pass unless SHA-384
  collides on, or maps to the all-zero digest, a block that is hashed on the way.
\<close>

section \<open>The processors and the CC blob\<close>

definition vmsa_is_the_pinned_reset_state :: "('f, 'k) externs \<Rightarrow> bool" where
  "vmsa_is_the_pinned_reset_state ex \<longleftrightarrow>
     (let v = bsp_vmsa ex; idtr = v_idtr v; cs = v_cs v; ds = v_ds v; gdtr = v_gdtr v;
          ok = (\<lambda>v. validate_vmsa v SHIM_BASE BSP_STACK_TOP ZERO_PAGE = Inr ())
      in map_option length (vmsa_page ex v) = Some 4096 \<and>
         v_cr0 v = 0x31 \<and> v_cr3 v = 0 \<and> v_cr4 v = 0x60 \<and> v_efer v = 0x1000 \<and> v_rdx v = 0 \<and>
         sel_selector (v_cs v) = ucast BOOT_CS32 \<and> sel_attrib (v_cs v) = 0x0c9b \<and>
         v_mxcsr v = 0x1f80 \<and> v_x87_fcw v = 0x037f \<and> v_rsi v = ZERO_PAGE \<and> ok v \<and>
         (\<forall>w\<in>{v\<lparr>v_dr6 := 0\<rparr>, v\<lparr>v_dr7 := 0\<rparr>, v\<lparr>v_pat := 0\<rparr>, v\<lparr>v_xcr0 := 0\<rparr>, v\<lparr>v_mxcsr := 0\<rparr>,
             v\<lparr>v_x87_fcw := 0\<rparr>, v\<lparr>v_cr4 := 0\<rparr>, v\<lparr>v_efer := 0\<rparr>, v\<lparr>v_rsp := 0\<rparr>, v\<lparr>v_rflags := 0\<rparr>,
             v\<lparr>v_gdtr := gdtr\<lparr>sel_base := 0\<rparr>\<rparr>, v\<lparr>v_idtr := idtr\<lparr>sel_limit := 1\<rparr>\<rparr>,
             v\<lparr>v_cs := cs\<lparr>sel_attrib := 0\<rparr>\<rparr>, v\<lparr>v_ds := ds\<lparr>sel_selector := 0\<rparr>\<rparr>}.
            \<not> ok w))"

definition cc_blob_points_to_special_pages :: bool where
  "cc_blob_points_to_special_pages \<longleftrightarrow> (case cc_blob of
       None \<Rightarrow> False
     | Some c \<Rightarrow>
         get32 8 c = Some 7 \<and> map_option (\<lambda>n. n + SETUP_DATA_HEADER) (get32 12 c) = Some (ucast PAGE) \<and>
         get64 0 c = Some 0 \<and>
         map_option ucast (get32 16 c) = Some (SNP_CC_BLOB + of_nat CC_BLOB_INFO) \<and>
         peek CC_BLOB_INFO 4 c = Some (utf8 (lit ''AMDE'')) \<and>
         get64 (CC_BLOB_INFO + 8) c = Some SNP_SECRETS \<and> get64 (CC_BLOB_INFO + 24) c = Some SNP_CPUID)"

definition an_ap_parks_in_the_shim_and_owns_no_stack :: "('f, 'k) externs \<Rightarrow> bool" where
  "an_ap_parks_in_the_shim_and_owns_no_stack ex \<longleftrightarrow>
     (let ap = ap_vmsa ex; bsp = bsp_vmsa ex
      in v_rip ap = SNP_AP_ENTRY \<and> v_rsp ap = 0 \<and> v_rsi ap = 0 \<and>
         sel_selector (v_cs ap) = sel_selector (v_cs bsp) \<and> v_cr0 ap = v_cr0 bsp \<and>
         v_efer ap = v_efer bsp \<and> v_sev_features ap = SNP_SEV_FEATURES \<and>
         validate_vmsa ap SNP_AP_ENTRY 0 0 = Inr () \<and>
         (\<exists>e. validate_vmsa bsp SNP_AP_ENTRY 0 0 = Inl e))"

lemma processor_tests_pass:
  assumes "snp_crates_ok ex"
  shows "vmsa_is_the_pinned_reset_state ex" "an_ap_parks_in_the_shim_and_owns_no_stack ex"
proof -
  from assms have ok: "ex_with_snp ex = SNP_SEV_FEATURES" "length (ex_vmsa_bytes ex v) \<le> 4096" for v
    by (simp_all add: snp_crates_ok_def)
  have "map_option length (vmsa_page ex (bsp_vmsa ex)) = Some 4096"
    using ok(2) by (simp add: vmsa_page_def PAGE_def)
  then show "vmsa_is_the_pinned_reset_state ex"
    unfolding vmsa_is_the_pinned_reset_state_def Let_def
    by (simp add: vmsa_pinned ok(1))
      (simp add: validate_vmsa_def bsp_vmsa_def zeroed_vmsa_def pinned_segment_def Let_def layout_consts)
  show "an_ap_parks_in_the_shim_and_owns_no_stack ex"
    unfolding an_ap_parks_in_the_shim_and_owns_no_stack_def Let_def
    by (simp add: vmsa_pinned ok(1))
      (simp add: validate_vmsa_def bsp_vmsa_def ap_vmsa_def zeroed_vmsa_def Let_def layout_consts ok(1))
qed

lemma cc_blob_test_passes: "cc_blob_points_to_special_pages"
proof -
  obtain c where c: "cc_blob = Some c" "get64 0 c = Some 0" "get32 SETUP_DATA_TYPE c = Some SETUP_CC_BLOB"
    "get32 SETUP_DATA_LEN c = Some (ucast PAGE - SETUP_DATA_HEADER)"
    "get32 SETUP_DATA_DATA c = Some (ucast SNP_CC_BLOB + of_nat CC_BLOB_INFO)"
    "peek CC_BLOB_INFO 4 c = Some CC_MAGIC"
    "get64 (CC_BLOB_INFO + CC_SECRETS_PHYS) c = Some SNP_SECRETS"
    "get64 (CC_BLOB_INFO + CC_CPUID_PHYS) c = Some SNP_CPUID"
    using cc_blob_points_at_the_special_pages by blast
  then show ?thesis
    unfolding cc_blob_points_to_special_pages_def c(1) option.case
    by (simp add: layout_consts CC_MAGIC_def utf8_def utf8_char_def)
qed

section \<open>The launch measurement\<close>

definition special_pages_are_measured_without_their_contents :: "('f, 'k) externs \<Rightarrow> bool" where
  "special_pages_are_measured_without_their_contents ex \<longleftrightarrow> (case vmsa_page ex (bsp_vmsa ex) of
       None \<Rightarrow> False
     | Some v \<Rightarrow>
         let a = add_special [] SNP_SECRETS SECRETS;
             b = a[0 := (a ! 0)\<lparr>lp_data := (lp_data (a ! 0))[0 := 1]\<rparr>]
         in launch_measurement (ex_sha384 ex) a [v] = launch_measurement (ex_sha384 ex) b [v])"

definition measurement_changes_with_content :: "('f, 'k) externs \<Rightarrow> bool" where
  "measurement_changes_with_content ex \<longleftrightarrow> (case vmsa_page ex (bsp_vmsa ex) of
       None \<Rightarrow> False
     | Some v \<Rightarrow>
         let p = add_normal [] 0x1000 (replicate 4096 0);
             q = p[0 := (p ! 0)\<lparr>lp_data := (lp_data (p ! 0))[0 := 1]\<rparr>]
         in launch_measurement (ex_sha384 ex) p [v] \<noteq> launch_measurement (ex_sha384 ex) q [v])"

definition the_launch_digest_covers_one_vmsa_per_processor :: "('f, 'k) externs \<Rightarrow> bool" where
  "the_launch_digest_covers_one_vmsa_per_processor ex \<longleftrightarrow>
     (case (vmsa_page ex (bsp_vmsa ex), vmsa_page ex (ap_vmsa ex)) of
        (Some bsp, Some ap) \<Rightarrow>
          let pgs = add_normal [] 0x1000 (replicate (unat PAGE) 0);
              m = launch_measurement (ex_sha384 ex) pgs;
              one = m [bsp]; two = m [bsp, ap]; three = m [bsp, ap, ap]
          in one \<noteq> two \<and> two \<noteq> three \<and> two \<noteq> m [ap, bsp]
      | _ \<Rightarrow> False)"

text \<open>
  Everything a measurement hashes. The launches of a test are told apart when the digest
  neither collides on any of it nor maps any of it to the digest the chain starts from.
\<close>

definition hashed :: "(bytes \<Rightarrow> bytes) \<Rightarrow> launch_page list \<Rightarrow> bytes list \<Rightarrow> bytes set" where
  "hashed h pgs vmsas = lp_data ` set pgs \<union> set vmsas \<union>
     set (snp_chain.blocks h (replicate 48 0) (launch_items h pgs vmsas))"

definition tells_apart :: "(bytes \<Rightarrow> bytes) \<Rightarrow> (launch_page list \<times> bytes list) list \<Rightarrow> bool" where
  "tells_apart h launches \<longleftrightarrow> (let strings = (\<Union>(ps, vs)\<in>set launches. hashed h ps vs)
     in inj_on h strings \<and> replicate 48 0 \<notin> h ` strings)"

lemma measurements_differ:
  assumes "\<forall>x. length (h x) = 48" "tells_apart h launches"
    and "(ps, vs) \<in> set launches" "(qs, ws) \<in> set launches"
    and "launch_items h ps vs \<noteq> launch_items h qs ws"
  shows "launch_measurement h ps vs \<noteq> launch_measurement h qs ws"
proof
  assume "launch_measurement h ps vs = launch_measurement h qs ws"
  then have e: "snp_chain.run h (replicate 48 0) (launch_items h ps vs) =
      snp_chain.run h (replicate 48 0) (launch_items h qs ws)"
    by (simp add: launch_measurement_run [OF assms(1)])
  let ?S = "\<Union>(ps, vs)\<in>set launches. hashed h ps vs"
  let ?B = "\<lambda>ps vs. set (snp_chain.blocks h (replicate 48 0) (launch_items h ps vs))"
  have sub: "?B ps vs \<subseteq> ?S" "?B qs ws \<subseteq> ?S"
    using assms(3,4) by (force simp: hashed_def)+
  have inj: "inj_on h ?S" and z: "replicate 48 0 \<notin> h ` ?S"
    using assms(2) by (simp_all add: tells_apart_def Let_def)
  from snp_chain.commits [OF assms(1) _ launch_items_ok [OF assms(1)] launch_items_ok [OF assms(1)] e]
    assms(5)
  consider x y where "x \<in> ?B ps vs" "y \<in> ?B qs ws" "x \<noteq> y" "h x = h y"
    | x where "x \<in> ?B ps vs \<union> ?B qs ws" "h x = replicate 48 0"
    by auto
  then show False
  proof cases
    case 1
    then show False using inj_onD [OF inj] sub by blast
  next
    case 2
    then have "x \<in> ?S" using sub by blast
    then show False using z imageI [of x ?S h] 2(2) by simp
  qed
qed

lemma special_page_test_passes:
  assumes "snp_crates_ok ex"
  shows "special_pages_are_measured_without_their_contents ex"
proof -
  obtain v where v: "vmsa_page ex (bsp_vmsa ex) = Some v"
    using assms by (fastforce simp: snp_crates_ok_def vmsa_page_def PAGE_def)
  have same: "launch_measurement h (p[0 := (p ! 0)\<lparr>lp_data := f (p ! 0)\<rparr>]) vs = launch_measurement h p vs"
    if "p = [\<lparr>lp_gpa = a, lp_data = d, lp_kind = SECRETS\<rparr>]" for h p f a d vs
    by (simp add: that launch_measurement_def extend_digest_def measure_kind_def layout_consts)
  show ?thesis
    unfolding special_pages_are_measured_without_their_contents_def v option.case Let_def
    by (rule same [symmetric], unfold add_special_def append_Nil, rule refl)
qed

lemma content_test_passes:
  assumes "snp_crates_ok ex" "vmsa_page ex (bsp_vmsa ex) = Some v"
    and "p = add_normal [] 0x1000 (replicate 4096 0)"
      "q = p[0 := (p ! 0)\<lparr>lp_data := (lp_data (p ! 0))[0 := 1]\<rparr>]"
    and "tells_apart (ex_sha384 ex) [(p, [v]), (q, [v])]"
  shows "measurement_changes_with_content ex"
proof -
  let ?h = "ex_sha384 ex" and ?zero = "replicate 4096 (0 :: u8)"
  have p: "p = [\<lparr>lp_gpa = 0x1000, lp_data = ?zero, lp_kind = NORMAL\<rparr>]"
    by (simp add: assms(3) add_normal_def one_page)
  then have q: "q = [\<lparr>lp_gpa = 0x1000, lp_data = ?zero[0 := 1], lp_kind = NORMAL\<rparr>]"
    by (simp add: assms(4))
  have ne: "?zero[0 := 1] \<noteq> ?zero" by (metis length_replicate nth_list_update_eq nth_replicate
        zero_less_numeral zero_neq_one)
  have "inj_on ?h (hashed ?h p [v] \<union> hashed ?h q [v])"
    using assms(5) by (simp add: tells_apart_def Let_def)
  then have "?h (?zero[0 := 1]) \<noteq> ?h ?zero"
    using ne by (auto simp: hashed_def p q dest: inj_onD)
  then have "launch_items ?h p [v] \<noteq> launch_items ?h q [v]"
    by (simp add: launch_items_def measured_item_def measure_kind_def p q)
  then have "launch_measurement ?h p [v] \<noteq> launch_measurement ?h q [v]"
    using assms(1) by (intro measurements_differ [OF _ assms(5)]) (simp_all add: snp_crates_ok_def)
  then show ?thesis
    unfolding measurement_changes_with_content_def assms(2) option.case Let_def
    by (simp only: simp_thms assms(4) flip: assms(3))
qed

lemma vmsa_count_test_passes:
  assumes "snp_crates_ok ex" "vmsa_page ex (bsp_vmsa ex) = Some bsp" "vmsa_page ex (ap_vmsa ex) = Some ap"
    and "bsp \<noteq> ap" "pgs = add_normal [] 0x1000 (replicate (unat PAGE) 0)"
    and "tells_apart (ex_sha384 ex)
      [(pgs, [bsp]), (pgs, [bsp, ap]), (pgs, [bsp, ap, ap]), (pgs, [ap, bsp])]"
  shows "the_launch_digest_covers_one_vmsa_per_processor ex"
proof -
  let ?h = "ex_sha384 ex"
  have l: "\<forall>x. length (?h x) = 48" using assms(1) by (simp add: snp_crates_ok_def)
  note differ = measurements_differ [OF l assms(6)]
  have "inj_on ?h (hashed ?h pgs [bsp, ap])"
    using assms(6) by (auto simp: tells_apart_def Let_def elim: inj_on_subset)
  then have "?h bsp \<noteq> ?h ap" using assms(4) by (auto simp: hashed_def dest: inj_onD)
  then have "launch_items ?h pgs [bsp, ap] \<noteq> launch_items ?h pgs [ap, bsp]"
    by (simp add: launch_items_def measured_item_def)
  moreover have "launch_items ?h pgs [bsp] \<noteq> launch_items ?h pgs [bsp, ap]"
    "launch_items ?h pgs [bsp, ap] \<noteq> launch_items ?h pgs [bsp, ap, ap]"
    by (simp_all add: launch_items_def)
  ultimately have "launch_measurement ?h pgs [bsp] \<noteq> launch_measurement ?h pgs [bsp, ap]"
    "launch_measurement ?h pgs [bsp, ap] \<noteq> launch_measurement ?h pgs [bsp, ap, ap]"
    "launch_measurement ?h pgs [bsp, ap] \<noteq> launch_measurement ?h pgs [ap, bsp]"
    by (simp_all add: differ)
  then show ?thesis
    unfolding the_launch_digest_covers_one_vmsa_per_processor_def assms(2,3) prod.case option.case
      Let_def by (simp only: simp_thms flip: assms(5))
qed

section \<open>Building images\<close>

text \<open>A file the crate accepts reads back as the directives it was built from.\<close>

definition snp_reads_back :: "('f, 'k) externs \<Rightarrow> bool" where
  "snp_reads_back ex \<longleftrightarrow>
     (\<forall>ds f bs g. directives_ok ds \<longrightarrow>
        ex_igvm_new ex [snp_platform] [GuestPolicy SNP_GUEST_POLICY SNP_COMPAT] ds = Inr f \<longrightarrow>
        ex_igvm_serialize ex f = Inr bs \<longrightarrow> ex_igvm_parse ex bs = Inr g \<longrightarrow> ex_directives ex g = ds)"

definition an_snp_image_carries_one_vp_context_per_processor :: "('f, 'k) externs \<Rightarrow> bool" where
  "an_snp_image_carries_one_vp_context_per_processor ex \<longleftrightarrow>
     (\<forall>cpus\<in>{1, 2, 4 :: u32}. \<exists>params s bytes igvm.
        snp_params DEFAULT_RAM cpus DEFAULT_CBIT [] [] = Inr params \<and>
        build_snp ex (lit ''bzImage'') (lit ''initrd'') (lit ''out.igvm'') params None None 0 tests_fs
          = (Inr (), s) \<and>
        fs_files s (lit ''out.igvm'') = Inr bytes \<and> ex_igvm_parse ex bytes = Inr igvm \<and>
        (\<forall>d\<in>set (ex_directives ex igvm). case d of
           SnpVpContext gpa m i v \<Rightarrow> gpa = SNP_VMSA | _ \<Rightarrow> True) \<and>
        sort_key id (concat (map vp_number (ex_directives ex igvm))) =
          map of_nat [0..<unat (ucast cpus :: u16)])"

definition builds_reproducible_parseable_snp_images :: "('f, 'k) externs \<Rightarrow> bool" where
  "builds_reproducible_parseable_snp_images ex \<longleftrightarrow>
     (let build = build_snp ex (lit ''bzImage'') (lit ''initrd'') (lit ''out.igvm'') default_params None None 0
      in case build tests_fs of
           (Inl e, s) \<Rightarrow> False
         | (Inr u, s) \<Rightarrow> (case build s of
               (Inl e, t) \<Rightarrow> False
             | (Inr u, t) \<Rightarrow> fs_files s (lit ''out.igvm'') = fs_files t (lit ''out.igvm'')))"

text \<open>The initramfs of this test is a thousand bytes long.\<close>

definition an_unsigned_image_refuses_a_nonzero_guest_svn :: "('f, 'k) externs \<Rightarrow> bool" where
  "an_unsigned_image_refuses_a_nonzero_guest_svn ex \<longleftrightarrow>
     (let s = tests_fs\<lparr>fs_files := (fs_files tests_fs)(lit ''initrd'' := Inr (replicate 1000 7))\<rparr>;
          build = (\<lambda>svn. build_snp ex (lit ''bzImage'') (lit ''initrd'') (lit ''o.igvm'') default_params
            None None svn)
      in fst (build 3 s) = Inl (Snp SvnNeedsKey) \<and> fst (build 0 s) = Inr ())"

lemma stub_snp_build:
  assumes "snp_crates_ok ex" "blank_shim (ex_snp_shim ex)"
    and "snp_params DEFAULT_RAM cpus DEFAULT_CBIT [] [] = Inr params"
    and "fs_files s (lit ''bzImage'') = Inr test_kernel" "fs_files s (lit ''initrd'') = Inr (replicate n 7)"
      "n \<in> {1000, 100000}" "\<And>path. fs_write_error s path = None"
  shows "\<exists>s'. build_snp ex (lit ''bzImage'') (lit ''initrd'') out params None None 0 s = (Inr (), s')"
proof -
  let ?ir = "replicate n (7 :: u8)"
  have np: "p_memory params = DEFAULT_RAM"
    using assms(3) unfolding snp_params_def by (elim new_paramsE) (simp add: layout_consts)
  have ir: "vec_len_ok ?ir" "?ir \<noteq> []" "length ?ir < 0x10000000"
    using assms(6) by (auto simp: vec_len_ok_def)
  have "p_cmdline params = lit ''panic=-1 no5lvl''"
    using assms(3) unfolding snp_params_def by (elim new_paramsE) (simp add: full_cmdline_def trim_def
        trim_start_def DEFAULT_CMDLINE_def REQUIRED_CMDLINE_def)
  then have c: "length (utf8 (p_cmdline params)) = 15" by (simp add: utf8_def utf8_char_def)
  have "prepare_fits (info_of test_kernel) 5632 n params"
    using assms(6) c by (auto simp: prepare_fits_def test_kernel_bootable word_le_nat_alt np layout_consts)
  then obtain p where p: "prepare_inputs test_kernel ?ir params = Inr p"
    using prepare_inputs_Inr_iff [OF stub_inputs(1) ir(1)] c
    by (simp add: Let_def test_kernel_bootable np layout_consts is_multiple_of_def)
  show ?thesis
    by (rule snp_build_ok [OF assms(3-5) ir(2) p stub_inputs(1) ir(1) _ _ _ _ _ assms(2,1) assms(7,7)])
      (use ir(3) c in \<open>simp_all add: config_field_def key_usable_def\<close>)
qed

lemma unsigned_svn_test_passes:
  assumes "snp_crates_ok ex" "blank_shim (ex_snp_shim ex)"
  shows "an_unsigned_image_refuses_a_nonzero_guest_svn ex"
proof -
  let ?s = "tests_fs\<lparr>fs_files := (fs_files tests_fs)(lit ''initrd'' := Inr (replicate 1000 7))\<rparr>"
  have f: "fs_files ?s (lit ''bzImage'') = Inr test_kernel"
    "fs_files ?s (lit ''initrd'') = Inr (replicate 1000 7)" "\<And>path. fs_write_error ?s path = None"
    by (simp_all add: tests_fs_def)
  from stub_snp_build [OF assms snp_default_params f(1,2) _ f(3), of "lit ''o.igvm''"]
  have "\<exists>s'. build_snp ex (lit ''bzImage'') (lit ''initrd'') (lit ''o.igvm'') default_params None None 0 ?s
      = (Inr (), s')" by blast
  then show ?thesis
    unfolding an_unsigned_image_refuses_a_nonzero_guest_svn_def Let_def
    using build_snp_unsigned [of 3 ex "lit ''bzImage''" "lit ''initrd''" "lit ''o.igvm''" default_params
      None ?s] by auto
qed

lemma reproducible_test_passes:
  assumes "snp_crates_ok ex" "blank_shim (ex_snp_shim ex)"
  shows "builds_reproducible_parseable_snp_images ex"
proof -
  let ?k = "lit ''bzImage''" and ?i = "lit ''initrd''" and ?o = "lit ''out.igvm''"
  let ?build = "build_snp ex ?k ?i ?o default_params None None 0"
  obtain s where s: "?build tests_fs = (Inr (), s)"
    using stub_snp_build [OF assms snp_default_params stub_inputs(3,4) _ stub_inputs(5)] by blast
  then have keep: "fs_files s ?k = fs_files tests_fs ?k" "fs_files s ?i = fs_files tests_fs ?i"
    "fs_write_error s ?o = None" "fs_write_error s (manifest_path ?o) = None"
    unfolding build_snp_Inr_conv by (auto simp: manifest_path_def)
  obtain t where "?build s = (Inr (), t)" "fs_files t ?o = fs_files s ?o"
    using build_snp_reproducible [OF s keep(1,2) _ keep(3,4), of None] by auto
  with s show ?thesis
    unfolding builds_reproducible_parseable_snp_images_def Let_def by simp
qed

text \<open>Such a build writes an image that reads back as the directives of a placement.\<close>

lemma stub_snp_image:
  assumes "snp_crates_ok ex" "blank_shim (ex_snp_shim ex)" "snp_reads_back ex"
    and "snp_params DEFAULT_RAM cpus DEFAULT_CBIT [] [] = Inr params"
  obtains s img igvm p placed emap owned headers where
    "build_snp ex (lit ''bzImage'') (lit ''initrd'') (lit ''out.igvm'') params None None 0 tests_fs
      = (Inr (), s)"
    "fs_files s (lit ''out.igvm'') = Inr img" "ex_igvm_parse ex img = Inr igvm"
    "ex_directives ex igvm = snp_directives ex params emap (snp_pages (sort_key pl_base placed)) headers"
    "headers = [] \<or> (\<exists>b. headers = [SnpIdBlock b])"
    "prepare_inputs test_kernel (replicate 100000 7) params = Inr p"
    "snp_place ex params p = Inr (placed, emap, owned)" "snp_launch_facts ex params p placed emap"
    "pr_initramfs p \<noteq> []" "length (pr_setup p) = 0x2f000"
proof -
  obtain s where b: "build_snp ex (lit ''bzImage'') (lit ''initrd'') (lit ''out.igvm'') params None None 0
      tests_fs = (Inr (), s)"
    using stub_snp_build [OF assms(1,2,4) stub_inputs(3,4) _ stub_inputs(5)] by blast
  obtain p placed emap headers ld img manifest where
    r: "snp_run ex (lit ''bzImage'') (lit ''initrd'') params None None 0 tests_fs p placed emap headers ld
      img manifest"
    and img: "fs_files s (lit ''out.igvm'') = Inr img"
    using b unfolding build_snp_Inr_conv by (auto simp: manifest_path_def)
  let ?ds = "snp_directives ex params emap (snp_pages (sort_key pl_base placed)) headers"
  from r stub_inputs(3,4) obtain owned vmsa ap sealed where
    prep: "prepare_inputs test_kernel (replicate 100000 7) params = Inr p"
    and pl: "snp_place ex params p = Inr (placed, emap, owned)"
    and sg: "snp_sign ex None ld 0 tests_fs = (Inr (headers, sealed), tests_fs)"
    and sf: "snp_file ex ?ds = Inr img"
    unfolding snp_run_def by auto
  note pf = snp_params_facts [OF assms(4)] and pa = snp_params_apertures [OF assms(4)]
  have ne: "pr_initramfs p \<noteq> []" using prepare_inputs_shape(3) [OF prep] by simp
  have len: "length (ex_snp_shim ex) = 4096" using assms(2) by (simp add: blank_shim_def)
  have sized: "sized params p" by (rule prepared_sized [OF prep pf(2) stub_inputs(1,2)])
  note facts = snp_place_facts [OF pl sized len pa(3)] and h = snp_sign_headers [OF sg]
  have ok: "directives_ok ?ds" by (rule snp_directives_ok [OF facts ne pf(5,6,1,2) h])
  from sf obtain f g where "ex_igvm_new ex [snp_platform] [GuestPolicy SNP_GUEST_POLICY SNP_COMPAT] ?ds = Inr f"
    "ex_igvm_serialize ex f = Inr img" and g: "ex_igvm_parse ex img = Inr g"
    by (auto simp: snp_file_def bind_result_Inr_conv extern_result_Inr_conv)
  with assms(3) ok have "ex_directives ex g = ?ds" unfolding snp_reads_back_def by blast
  moreover have "length (pr_setup p) = 0x2f000" using sized by (simp add: sized_def)
  ultimately show thesis using that [OF b img g _ h prep pl facts ne] by blast
qed

lemma vp_context_test_passes:
  assumes "snp_crates_ok ex" "blank_shim (ex_snp_shim ex)" "snp_reads_back ex"
  shows "an_snp_image_carries_one_vp_context_per_processor ex"
  unfolding an_snp_image_carries_one_vp_context_per_processor_def
proof
  fix cpus :: u32 assume n: "cpus \<in> {1, 2, 4}"
  have "\<exists>params. snp_params DEFAULT_RAM cpus DEFAULT_CBIT [] [] = Inr params \<and> p_vcpus params = cpus"
    using n by (auto simp: snp_params_def new_params_def full_cmdline_def trim_def trim_start_def
        DEFAULT_CMDLINE_def REQUIRED_CMDLINE_def utf8_def utf8_char_def layout_consts is_multiple_of_def)
  then obtain params where pr: "snp_params DEFAULT_RAM cpus DEFAULT_CBIT [] [] = Inr params" "p_vcpus params = cpus"
    by blast
  note pf = snp_params_facts [OF pr(1)]
  obtain s img g placed emap headers where
    b: "build_snp ex (lit ''bzImage'') (lit ''initrd'') (lit ''out.igvm'') params None None 0 tests_fs
      = (Inr (), s)"
    and img: "fs_files s (lit ''out.igvm'') = Inr img" and g: "ex_igvm_parse ex img = Inr g"
    and ds: "ex_directives ex g = snp_directives ex params emap (snp_pages (sort_key pl_base placed)) headers"
    and h: "headers = [] \<or> (\<exists>b. headers = [SnpIdBlock b])"
    by (rule stub_snp_image [OF assms pr(1)]) (rule that)
  let ?ds = "snp_directives ex params emap (snp_pages (sort_key pl_base placed)) headers"
  have vp: "concat (map vp_number ?ds) = map of_nat [0..<unat cpus]"
    by (simp only: snp_directives_parts(2) [OF h] vp_contexts_eq(2) [OF pf(1,3)]) (simp only: pr(2))
  have gpas: "\<forall>d\<in>set ?ds. case d of SnpVpContext gpa m i v \<Rightarrow> gpa = SNP_VMSA | _ \<Rightarrow> True"
    using h unfolding snp_directives_def
    by (auto simp: vp_contexts_def page_directives_def page_directive_def dest!: required_memory_only)
  have sorted_indexes: "\<forall>c\<in>{1, 2, 4 :: u32}. sort_key id (map of_nat [0..<unat c] :: u16 list) =
      map of_nat [0..<unat (ucast c :: u16)]"
    by (simp, simp add: upt_rec)
  have "sort_key id (concat (map vp_number (ex_directives ex g))) = map of_nat [0..<unat (ucast cpus :: u16)]"
    unfolding ds vp by (rule sorted_indexes [rule_format, OF n])
  with gpas [folded ds] show "\<exists>params s bytes igvm.
        snp_params DEFAULT_RAM cpus DEFAULT_CBIT [] [] = Inr params \<and>
        build_snp ex (lit ''bzImage'') (lit ''initrd'') (lit ''out.igvm'') params None None 0 tests_fs
          = (Inr (), s) \<and>
        fs_files s (lit ''out.igvm'') = Inr bytes \<and> ex_igvm_parse ex bytes = Inr igvm \<and>
        (\<forall>d\<in>set (ex_directives ex igvm). case d of
           SnpVpContext gpa m i v \<Rightarrow> gpa = SNP_VMSA | _ \<Rightarrow> True) \<and>
        sort_key id (concat (map vp_number (ex_directives ex igvm))) =
          map of_nat [0..<unat (ucast cpus :: u16)]"
    by (intro exI [of _ params] exI [of _ s] exI [of _ img] exI [of _ g] conjI)
      (assumption | rule pr(1) b img g)+
qed

section \<open>The launch block\<close>

definition the_snp_launch_block_states_nothing_the_host_chooses :: "('f, 'k) externs \<Rightarrow> bool" where
  "the_snp_launch_block_states_nothing_the_host_chooses ex \<longleftrightarrow>
     (let r = snp_launch ex (replicate 48 0) (zeros 32) 0 None;
          signed_launch = snp_launch ex (replicate 48 0) (zeros 32) 0 (Some (replicate 48 7))
      in (\<forall>host_chosen\<in>{lit ''platform_info_smt_en'', lit ''platform_info_rapl_dis'',
            lit ''platform_info_ciphertext_hiding_en'', lit ''signer_info_mask_chip_key'',
            lit ''reported_tcb'', lit ''vmpl'', lit ''family_id'', lit ''image_id'',
            lit ''author_key_digest''}. host_chosen \<notin> dom r) \<and>
         dom r = {lit ''guest_svn'', lit ''host_data'', lit ''id_key_digest'', lit ''measurement'',
            lit ''policy''} \<and>
         r (lit ''measurement'') = Some (zeros 48) \<and>
         r (lit ''policy'') = Some (lit ''0x'' @ fmt_hex 16 (unat SNP_GUEST_POLICY)) \<and>
         r (lit ''host_data'') = Some (zeros 32) \<and> r (lit ''guest_svn'') = Some (lit ''0'') \<and>
         r (lit ''id_key_digest'') = Some (zeros 48) \<and>
         signed_launch (lit ''id_key_digest'') = Some (ex_hex ex (replicate 48 7)))"

text \<open>The hex crate writes a zero digest as the zeros the builder writes for an absent one.\<close>

lemma snp_launch_block_test_passes:
  assumes "ex_hex ex (replicate 48 0) = zeros 48"
  shows "the_snp_launch_block_states_nothing_the_host_chooses ex"
proof -
  have "show_radix 10 0 = lit ''0''" by (simp add: show_radix.simps digit_char_def)
  with assms show ?thesis
    unfolding the_snp_launch_block_states_nothing_the_host_chooses_def Let_def snp_launch_def
    by (simp add: insert_commute)
qed

end
