(* ===== verification/Qemu_Loader.thy ===== *)
theory Qemu_Loader
  imports Kernel_View
begin

text \<open>
  The C code that src/qemu-patches/qemu-10.1.0-0001-igvm-tdx.patch adds to QEMU, so that a TDX
  guest can be launched from an IGVM file: which platform header of a file is taken, how a page
  becomes a firmware entry, and how the launch goes on without a TD HOB. What the patch does not
  show of QEMU is a parameter: the branches for the SEV platforms, the walk over the directives,
  the parser of TDVF metadata and the loop that hands firmware entries to the TDX module.

  The theorem composes the patch with the builder: the launch of a built image measures exactly
  the pages the builder measured, in its order.
\<close>

section \<open>Choosing a platform\<close>

text \<open>\<open>ConfidentialGuestPlatformType\<close>, with the constructor the patch adds.\<close>

datatype cgs_platform = CGS_PLATFORM_SEV | CGS_PLATFORM_SEV_ES | CGS_PLATFORM_SEV_SNP | CGS_PLATFORM_TDX

datatype igvm_platform_type =
  IGVM_PLATFORM_TYPE_NATIVE | IGVM_PLATFORM_TYPE_SEV_SNP | IGVM_PLATFORM_TYPE_TDX
| IGVM_PLATFORM_TYPE_OTHER nat

record supported_platform =
  sp_type :: igvm_platform_type
  sp_version :: u16
  sp_highest_vtl :: u8
  sp_shared_gpa_boundary :: u64
  sp_compatibility_mask :: u32

definition tdx_cgs_check_support :: "cgs_platform \<Rightarrow> u16 \<Rightarrow> u8 \<Rightarrow> u64 \<Rightarrow> bool" where
  "tdx_cgs_check_support platform platform_version highest_vtl shared_gpa_boundary \<longleftrightarrow>
     platform = CGS_PLATFORM_TDX \<and> platform_version = 1 \<and> highest_vtl = 0 \<and> shared_gpa_boundary = 0"

text \<open>The local variables of \<open>qigvm_supported_platform_compat_mask\<close>.\<close>

record compat_masks =
  cm_sev :: u32
  cm_sev_es :: u32
  cm_sev_snp :: u32
  cm_tdx :: u32
  cm_native :: u32

text \<open>
  One header. \<open>sev\<close> stands for the branches above the one the patch adds, which only know the
  three masks of the SEV platforms.
\<close>

definition platform_step ::
  "(supported_platform \<Rightarrow> u32 \<times> u32 \<times> u32 \<Rightarrow> u32 \<times> u32 \<times> u32) \<Rightarrow>
   (cgs_platform \<Rightarrow> u16 \<Rightarrow> u8 \<Rightarrow> u64 \<Rightarrow> bool) \<Rightarrow> bool \<Rightarrow> compat_masks \<Rightarrow> supported_platform \<Rightarrow> compat_masks" where
  "platform_step sev check_support cgs m p = (case sp_type p of
       IGVM_PLATFORM_TYPE_TDX \<Rightarrow>
         if cgs \<and> check_support CGS_PLATFORM_TDX (sp_version p) (sp_highest_vtl p) (sp_shared_gpa_boundary p)
         then m\<lparr>cm_tdx := sp_compatibility_mask p\<rparr> else m
     | IGVM_PLATFORM_TYPE_NATIVE \<Rightarrow> m\<lparr>cm_native := sp_compatibility_mask p\<rparr>
     | _ \<Rightarrow> (case sev p (cm_sev m, cm_sev_es m, cm_sev_snp m) of
           (a, b, c) \<Rightarrow> m\<lparr>cm_sev := a, cm_sev_es := b, cm_sev_snp := c\<rparr>))"

text \<open>The choice between the technologies below SEV-SNP is not in the patch: \<open>weaker\<close>.\<close>

definition supported_platform_compat_mask ::
  "(supported_platform \<Rightarrow> u32 \<times> u32 \<times> u32 \<Rightarrow> u32 \<times> u32 \<times> u32) \<Rightarrow>
   (compat_masks \<Rightarrow> u32 \<times> igvm_platform_type) \<Rightarrow>
   (cgs_platform \<Rightarrow> u16 \<Rightarrow> u8 \<Rightarrow> u64 \<Rightarrow> bool) \<Rightarrow> bool \<Rightarrow> supported_platform list \<Rightarrow> u32 \<times> igvm_platform_type" where
  "supported_platform_compat_mask sev weaker check_support cgs headers =
     (let m = foldl (platform_step sev check_support cgs)
            \<lparr>cm_sev = 0, cm_sev_es = 0, cm_sev_snp = 0, cm_tdx = 0, cm_native = 0\<rparr> headers
      in if cm_tdx m \<noteq> 0 then (cm_tdx m, IGVM_PLATFORM_TYPE_TDX)
         else if cm_sev_snp m \<noteq> 0 then (cm_sev_snp m, IGVM_PLATFORM_TYPE_SEV_SNP)
         else weaker m)"

section \<open>Firmware entries\<close>

datatype cgs_page_type =
  CGS_PAGE_TYPE_NORMAL | CGS_PAGE_TYPE_ZERO | CGS_PAGE_TYPE_UNMEASURED | CGS_PAGE_TYPE_REQUIRED_MEMORY
| CGS_PAGE_TYPE_OTHER nat

datatype section_type =
  TDVF_SECTION_TYPE_BFV | TDVF_SECTION_TYPE_CFV | TDVF_SECTION_TYPE_TD_HOB | TDVF_SECTION_TYPE_OTHER nat

text \<open>A pointer to memory is the bytes it points to; the fields are those the patch names.\<close>

record fw_entry =
  fe_address :: u64
  fe_size :: u64
  fe_type :: section_type
  fe_attributes :: u32
  fe_mem_ptr :: "bytes option"

record tdx_firmware =
  fw_mem_ptr :: "bytes option"
  fw_entries :: "fw_entry list"

text \<open>What the launch does to the TD and to the memory of the guest, in order.\<close>

datatype tdx_event =
  InitRamEntries
| Section fw_entry
| SortRamEntries
| CreateHob fw_entry
| InitVcpu nat u64
| AddMemory u64 bytes bool
| Discard u64
| FinalizeVm

record tdx_guest =
  tg_tdvf :: tdx_firmware
  tg_tdvf_mr :: "u64 option"
  tg_events :: "tdx_event list"
  tg_ready :: bool

text \<open>\<open>TDVF_SECTION_ATTRIBUTES_MR_EXTEND\<close> is a constant of QEMU, the parameter \<open>mr_extend_bit\<close>.\<close>

definition tdx_cgs_set_guest_state ::
  "u32 \<Rightarrow> u64 \<Rightarrow> bytes \<Rightarrow> u64 \<Rightarrow> cgs_page_type \<Rightarrow> u16 \<Rightarrow> tdx_guest \<Rightarrow> int \<times> tdx_guest" where
  "tdx_cgs_set_guest_state mr_extend_bit gpa data len memory_type cpu_index g =
     (let push = (\<lambda>attributes. (0, g\<lparr>tg_tdvf := (tg_tdvf g)\<lparr>fw_entries := fw_entries (tg_tdvf g) @
            [\<lparr>fe_address = gpa, fe_size = len, fe_type = TDVF_SECTION_TYPE_BFV,
              fe_attributes = attributes, fe_mem_ptr = Some data\<rparr>]\<rparr>\<rparr>))
      in case memory_type of
           CGS_PAGE_TYPE_NORMAL \<Rightarrow> push mr_extend_bit
         | CGS_PAGE_TYPE_ZERO \<Rightarrow> push mr_extend_bit
         | CGS_PAGE_TYPE_UNMEASURED \<Rightarrow> push 0
         | CGS_PAGE_TYPE_REQUIRED_MEMORY \<Rightarrow> (0, g)
         | CGS_PAGE_TYPE_OTHER k \<Rightarrow> (- 1, g))"

text \<open>A failing call ends the load.\<close>

fun set_guest_states ::
  "u32 \<Rightarrow> (u64 \<times> bytes \<times> cgs_page_type) list \<Rightarrow> tdx_guest \<Rightarrow> int \<times> tdx_guest" where
  "set_guest_states mr_extend_bit [] g = (0, g)"
| "set_guest_states mr_extend_bit ((gpa, data, ty) # calls) g =
     (let (r, g') = tdx_cgs_set_guest_state mr_extend_bit gpa data (of_nat (length data)) ty 0 g
      in if r < 0 then (r, g') else set_guest_states mr_extend_bit calls g')"

definition tdx_get_hob_entry :: "tdx_firmware \<Rightarrow> fw_entry option" where
  "tdx_get_hob_entry fw = find (\<lambda>e. fe_type e = TDVF_SECTION_TYPE_TD_HOB) (fw_entries fw)"

text \<open>\<open>parse\<close> is \<open>tdvf_parse_metadata\<close>; \<open>EINVAL\<close> is 22.\<close>

definition tdx_parse_tdvf ::
  "(tdx_firmware \<Rightarrow> bytes \<Rightarrow> int \<times> tdx_firmware) \<Rightarrow> bytes \<Rightarrow> tdx_guest \<Rightarrow> int \<times> tdx_guest" where
  "tdx_parse_tdvf parse flash g =
     (let (r, fw) = parse (tg_tdvf g) flash; g' = g\<lparr>tg_tdvf := fw\<rparr>
      in if r = 0 \<and> tdx_get_hob_entry fw = None then (- 22, g') else (r, g'))"

section \<open>Finalizing the TD\<close>

definition tdx_post_init_vcpus :: "nat list \<Rightarrow> tdx_firmware \<Rightarrow> tdx_event list" where
  "tdx_post_init_vcpus cpus fw =
     (let hob = tdx_get_hob_entry fw
      in map (\<lambda>cpu. InitVcpu cpu (case hob of Some e \<Rightarrow> fe_address e | None \<Rightarrow> 0)) cpus)"

text \<open>
  The loop over the sections of a flash image; \<open>sect\<close> is its switch, which an IGVM image leaves
  at its first entry.
\<close>

fun section_loop ::
  "(bytes \<Rightarrow> fw_entry \<Rightarrow> fw_entry) \<Rightarrow> bytes option \<Rightarrow> fw_entry list \<Rightarrow> fw_entry list \<times> tdx_event list" where
  "section_loop sect flash [] = ([], [])"
| "section_loop sect flash (e # es) = (case flash of
       None \<Rightarrow> (e # es, [])
     | Some bytes \<Rightarrow>
         (let (es', out) = section_loop sect flash es
          in (sect bytes e # es', Section (sect bytes e) # out)))"

text \<open>\<open>add\<close> is the loop of the unpatched function that hands the entries to the TDX module.\<close>

definition tdx_finalize_vm ::
  "(bytes \<Rightarrow> fw_entry \<Rightarrow> fw_entry) \<Rightarrow> (fw_entry list \<Rightarrow> tdx_event list) \<Rightarrow> nat list \<Rightarrow> tdx_guest \<Rightarrow> tdx_guest" where
  "tdx_finalize_vm sect add cpus g =
     (let (entries, sections) = section_loop sect (fw_mem_ptr (tg_tdvf g)) (fw_entries (tg_tdvf g));
          fw = (tg_tdvf g)\<lparr>fw_entries := entries\<rparr>;
          hob = (case tdx_get_hob_entry fw of Some e \<Rightarrow> [CreateHob e] | None \<Rightarrow> []);
          discard = (case tg_tdvf_mr g of Some n \<Rightarrow> [Discard n] | None \<Rightarrow> [])
      in g\<lparr>tg_tdvf := fw,
           tg_events := tg_events g @ [InitRamEntries] @ sections @ [SortRamEntries] @ hob @
             tdx_post_init_vcpus cpus fw @ add entries @ discard @ [FinalizeVm],
           tg_ready := True\<rparr>)"

section \<open>Before the patch\<close>

text \<open>
  The same functions with the lines the patch removes. \<open>None\<close> is the exit of QEMU when there is
  no TD HOB, or the use of a null pointer.
\<close>

definition upstream_finalize_vm ::
  "(bytes \<Rightarrow> fw_entry \<Rightarrow> fw_entry) \<Rightarrow> (fw_entry list \<Rightarrow> tdx_event list) \<Rightarrow> nat list \<Rightarrow> tdx_guest \<Rightarrow> tdx_guest option" where
  "upstream_finalize_vm sect add cpus g = do {
     flash \<leftarrow> fw_mem_ptr (tg_tdvf g);
     let entries = map (sect flash) (fw_entries (tg_tdvf g));
     let fw = (tg_tdvf g)\<lparr>fw_entries := entries\<rparr>;
     hob \<leftarrow> tdx_get_hob_entry fw;
     n \<leftarrow> tg_tdvf_mr g;
     Some (g\<lparr>tg_tdvf := fw,
             tg_events := tg_events g @ [InitRamEntries] @ map Section entries @
               [SortRamEntries, CreateHob hob] @ map (\<lambda>cpu. InitVcpu cpu (fe_address hob)) cpus @
               add entries @ [Discard n, FinalizeVm],
             tg_ready := True\<rparr>)
   }"

lemma section_loop_flash:
  "section_loop sect (Some flash) es = (map (sect flash) es, map (Section \<circ> sect flash) es)"
  by (induction es) simp_all

lemma section_loop_igvm: "section_loop sect None es = (es, [])"
  by (cases es) simp_all

lemma find_kept:
  assumes "\<And>e. fe_type (f e) = fe_type e"
  shows "find (\<lambda>e. fe_type e = t) (map f es) = map_option f (find (\<lambda>e. fe_type e = t) es)"
  by (induction es) (simp_all add: assms)

text \<open>C39: a guest that boots from flash is launched by the patched code exactly as before, and one whose
  metadata names no TD HOB is now refused with an error while it is parsed, where the launch
  used to end QEMU.\<close>

theorem patch_keeps_flash_boots:
  assumes "parse (tg_tdvf g) flash = (0, fw)" "fw_mem_ptr fw = Some b" "tg_tdvf_mr g = Some n"
    and "\<And>b e. fe_type (sect b e) = fe_type e"
  shows "case tdx_parse_tdvf parse flash g of (r, g') \<Rightarrow>
    if tdx_get_hob_entry fw = None
    then r = - 22 \<and> upstream_finalize_vm sect add cpus g' = None
    else r = 0 \<and> upstream_finalize_vm sect add cpus g' = Some (tdx_finalize_vm sect add cpus g')"
proof -
  have hob: "tdx_get_hob_entry (fw\<lparr>fw_entries := map (sect b) (fw_entries fw)\<rparr>) =
      map_option (sect b) (tdx_get_hob_entry fw)"
    by (simp add: tdx_get_hob_entry_def find_kept [of "sect b", OF assms(4)])
  show ?thesis
    using assms(2,3)
    by (auto simp: tdx_parse_tdvf_def assms(1) Let_def upstream_finalize_vm_def tdx_finalize_vm_def
        section_loop_flash tdx_post_init_vcpus_def hob comp_def split: option.splits)
qed

definition demo_flash_entry :: "section_type \<Rightarrow> fw_entry" where
  "demo_flash_entry t = \<lparr>fe_address = 0x809000, fe_size = 0x2000, fe_type = t, fe_attributes = 0,
     fe_mem_ptr = None\<rparr>"

definition demo_guest :: tdx_guest where
  "demo_guest = \<lparr>tg_tdvf = \<lparr>fw_mem_ptr = None, fw_entries = []\<rparr>, tg_tdvf_mr = Some 0x400000,
     tg_events = [], tg_ready = False\<rparr>"

definition demo_firmware :: "section_type \<Rightarrow> tdx_firmware" where
  "demo_firmware t = \<lparr>fw_mem_ptr = Some [1, 2], fw_entries = [demo_flash_entry t]\<rparr>"

definition demo_sect :: "bytes \<Rightarrow> fw_entry \<Rightarrow> fw_entry" where
  "demo_sect flash e = e\<lparr>fe_mem_ptr := Some flash\<rparr>"

definition demo_parse :: "section_type \<Rightarrow> tdx_firmware \<Rightarrow> bytes \<Rightarrow> int \<times> tdx_firmware" where
  "demo_parse t fw flash = (0, demo_firmware t)"

theorem patch_keeps_flash_boots_witness:
  "fst (tdx_parse_tdvf (demo_parse TDVF_SECTION_TYPE_BFV) [1, 2] demo_guest) = - 22 \<and>
   (let g = snd (tdx_parse_tdvf (demo_parse TDVF_SECTION_TYPE_TD_HOB) [1, 2] demo_guest)
    in upstream_finalize_vm demo_sect (\<lambda>es. []) [0] g = Some (tdx_finalize_vm demo_sect (\<lambda>es. []) [0] g))"
proof -
  have "demo_parse t (tg_tdvf demo_guest) [1, 2] = (0, demo_firmware t)"
    "fw_mem_ptr (demo_firmware t) = Some [1, 2]" "tg_tdvf_mr demo_guest = Some 0x400000"
    "fe_type (demo_sect b e) = fe_type e" for t b e
    by (simp_all add: demo_guest_def demo_parse_def demo_firmware_def demo_sect_def)
  note keeps = patch_keeps_flash_boots [where sect = demo_sect and parse = "demo_parse t" for t, OF this,
      where add = "\<lambda>es. []" and cpus = "[0]"]
  show ?thesis
    using keeps [of TDVF_SECTION_TYPE_BFV] keeps [of TDVF_SECTION_TYPE_TD_HOB]
    by (simp add: Let_def case_prod_unfold tdx_get_hob_entry_def demo_firmware_def demo_flash_entry_def)
qed

section \<open>Launching an image\<close>

text \<open>
  \<^item> \<open>visits_pages\<close>: the walk over the directives loads the pages of a file in their order, each
    call with a run of adjacent whole pages, of zeros or of data.
  \<^item> \<open>hands_over\<close>: the launch path hands every entry to the TDX module once, in their order, and
    has the module extend the pages of an entry with the attribute.
\<close>

definition visits_pages :: "(u32 \<Rightarrow> directive list \<Rightarrow> (u64 \<times> bytes \<times> cgs_page_type) list) \<Rightarrow> bool" where
  "visits_pages visit \<longleftrightarrow>
     (\<forall>pgs. (\<forall>q\<in>set pgs. whole_page q) \<longrightarrow>
        (let calls = visit COMPAT (map (\<lambda>(gpa, data). page_directive gpa NORMAL data) pgs)
         in concat (map (\<lambda>(gpa, data, ty). pages gpa data) calls) = pgs \<and>
            (\<forall>(gpa, data, ty)\<in>set calls. length data < 2 ^ 64 \<and>
               ty \<in> {CGS_PAGE_TYPE_NORMAL, CGS_PAGE_TYPE_ZERO})))"

definition hands_over :: "u32 \<Rightarrow> (fw_entry list \<Rightarrow> tdx_event list) \<Rightarrow> bool" where
  "hands_over mr_extend_bit add \<longleftrightarrow>
     (\<forall>es. (\<forall>e\<in>set es. fe_type e = TDVF_SECTION_TYPE_BFV \<and> fe_mem_ptr e \<noteq> None) \<longrightarrow>
        add es = map (\<lambda>e. AddMemory (fe_address e) (take (unat (fe_size e)) (the (fe_mem_ptr e)))
          (fe_attributes e AND mr_extend_bit \<noteq> 0)) es)"

definition unknown_type :: "u64 \<times> bytes \<times> cgs_page_type \<Rightarrow> bool" where
  "unknown_type call \<longleftrightarrow> (case call of (gpa, data, ty) \<Rightarrow> \<exists>k. ty = CGS_PAGE_TYPE_OTHER k)"

definition call_entries :: "u32 \<Rightarrow> u64 \<times> bytes \<times> cgs_page_type \<Rightarrow> fw_entry list" where
  "call_entries mr_extend_bit call = (case call of (gpa, data, ty) \<Rightarrow>
     map (\<lambda>attributes. \<lparr>fe_address = gpa, fe_size = of_nat (length data), fe_type = TDVF_SECTION_TYPE_BFV,
         fe_attributes = attributes, fe_mem_ptr = Some data\<rparr>)
       (if ty \<in> {CGS_PAGE_TYPE_NORMAL, CGS_PAGE_TYPE_ZERO} then [mr_extend_bit]
        else if ty = CGS_PAGE_TYPE_UNMEASURED then [0] else []))"

text \<open>The calls leave the entries of those before the first of an unknown type, which fails.\<close>

lemma set_guest_states_eq:
  "set_guest_states mr calls g =
     (if \<exists>c\<in>set calls. unknown_type c then - 1 else 0,
      g\<lparr>tg_tdvf := (tg_tdvf g)\<lparr>fw_entries := fw_entries (tg_tdvf g) @
        concat (map (call_entries mr) (takeWhile (\<lambda>c. \<not> unknown_type c) calls))\<rparr>\<rparr>)"
proof (induction mr calls g rule: set_guest_states.induct)
  case (1 mr g)
  then show ?case by simp
next
  case (2 mr gpa data ty calls g)
  note ih = 2 [OF refl]
  show ?case
    by (cases ty)
      (simp_all add: tdx_cgs_set_guest_state_def unknown_type_def call_entries_def ih)
qed

lemma igvm_pages_directives:
  assumes "igvm_pages ex img = Inr pgs"
  obtains f where "ex_igvm_parse ex img = Inr f"
    "ex_directives ex f = map (\<lambda>(gpa, data). page_directive gpa NORMAL data) pgs"
    "\<forall>q\<in>set pgs. whole_page q"
proof -
  from assms obtain f where f: "ex_igvm_parse ex img = Inr f" "map_result measured_page (ex_directives ex f) = Inr pgs"
    by (auto simp: igvm_pages_def bind_result_Inr_conv extern_result_Inr_conv)
  have "measured_page d = Inr q \<longleftrightarrow> d = page_directive (fst q) NORMAL (snd q) \<and> whole_page q" for d q
    by (cases d) (auto simp: page_directive_def whole_page_def PAGE_def prod_eq_iff)
  then have "map_result measured_page ds = Inr pgs \<Longrightarrow>
      ds = map (\<lambda>(gpa, data). page_directive gpa NORMAL data) pgs \<and> (\<forall>q\<in>set pgs. whole_page q)" for ds
    by (induction ds arbitrary: pgs) (auto simp: bind_result_Inr_conv case_prod_unfold)
  with f show thesis using that by blast
qed

text \<open>A TD before an IGVM file is loaded into it: there is no flash image.\<close>

definition igvm_guest :: tdx_guest where
  "igvm_guest = \<lparr>tg_tdvf = \<lparr>fw_mem_ptr = None, fw_entries = []\<rparr>, tg_tdvf_mr = None,
     tg_events = [], tg_ready = False\<rparr>"

definition loader_header :: "platform_header \<Rightarrow> supported_platform" where
  "loader_header h = \<lparr>sp_type = (case ph_type h of TDX \<Rightarrow> IGVM_PLATFORM_TYPE_TDX
       | SEV_SNP \<Rightarrow> IGVM_PLATFORM_TYPE_SEV_SNP), sp_version = ph_version h,
     sp_highest_vtl = ph_highest_vtl h, sp_shared_gpa_boundary = ph_shared_gpa_boundary h,
     sp_compatibility_mask = ph_mask h\<rparr>"

definition measured_pages :: "tdx_event list \<Rightarrow> (u64 \<times> bytes) list" where
  "measured_pages events = concat (map (\<lambda>e. case e of
       AddMemory gpa data True \<Rightarrow> pages gpa data | _ \<Rightarrow> []) events)"

definition launch_calls_ok :: "(u64 \<times> bytes \<times> cgs_page_type) list \<Rightarrow> bool" where
  "launch_calls_ok calls \<longleftrightarrow> (\<forall>(gpa, data, ty)\<in>set calls. length data < 2 ^ 64 \<and>
     ty \<in> {CGS_PAGE_TYPE_NORMAL, CGS_PAGE_TYPE_ZERO})"

lemma launch_calls_entries:
  assumes "launch_calls_ok calls" "hands_over mr add" "mr \<noteq> 0"
  defines "es \<equiv> concat (map (call_entries mr) calls)"
  shows "\<forall>c\<in>set calls. \<not> unknown_type c" "\<forall>e\<in>set es. fe_type e = TDVF_SECTION_TYPE_BFV"
    "add es = map (\<lambda>(gpa, data, ty). AddMemory gpa data True) calls"
proof -
  let ?entry = "\<lambda>(gpa, data, ty). \<lparr>fe_address = gpa, fe_size = of_nat (length data),
    fe_type = TDVF_SECTION_TYPE_BFV, fe_attributes = mr, fe_mem_ptr = Some data\<rparr>"
  have one: "call_entries mr c = [?entry c] \<and> \<not> unknown_type c" if "c \<in> set calls" for c
    using assms(1) that by (auto simp: launch_calls_ok_def call_entries_def unknown_type_def)
  then show "\<forall>c\<in>set calls. \<not> unknown_type c" by blast
  have "map (call_entries mr) calls = map (\<lambda>c. [?entry c]) calls"
    using one by (intro map_cong) auto
  then have es: "es = map ?entry calls" by (simp only: es_def concat_map_singleton)
  then show bfv: "\<forall>e\<in>set es. fe_type e = TDVF_SECTION_TYPE_BFV" by auto
  have "\<forall>e\<in>set es. fe_type e = TDVF_SECTION_TYPE_BFV \<and> fe_mem_ptr e \<noteq> None" by (auto simp: es)
  then have "add es = map (\<lambda>e. AddMemory (fe_address e) (take (unat (fe_size e)) (the (fe_mem_ptr e)))
      (fe_attributes e AND mr \<noteq> 0)) es"
    using assms(2) unfolding hands_over_def by blast
  also have "\<dots> = map (\<lambda>(gpa, data, ty). AddMemory gpa data True) calls"
    unfolding es map_map using assms(1,3)
    by (intro map_cong) (auto simp: launch_calls_ok_def unat_of_nat_u64)
  finally show "add es = map (\<lambda>(gpa, data, ty). AddMemory gpa data True) calls" .
qed

lemma launch_of_calls:
  assumes "launch_calls_ok calls" "hands_over mr add" "mr \<noteq> 0"
  shows "\<exists>g. set_guest_states mr calls igvm_guest = (0, g) \<and>
    tg_events (tdx_finalize_vm sect add cpus g) =
      [InitRamEntries, SortRamEntries] @ map (\<lambda>cpu. InitVcpu cpu 0) cpus @
      map (\<lambda>(gpa, data, ty). AddMemory gpa data True) calls @ [FinalizeVm]"
proof -
  note es = launch_calls_entries [OF assms]
  let ?es = "concat (map (call_entries mr) calls)"
  have known: "takeWhile (\<lambda>c. \<not> unknown_type c) calls = calls"
    using es(1) by (simp add: takeWhile_eq_all_conv)
  have hob: "tdx_get_hob_entry \<lparr>fw_mem_ptr = None, fw_entries = ?es\<rparr> = None"
    using es(2) by (force simp: tdx_get_hob_entry_def find_None_iff)
  have "set_guest_states mr calls igvm_guest =
      (0, igvm_guest\<lparr>tg_tdvf := \<lparr>fw_mem_ptr = None, fw_entries = ?es\<rparr>\<rparr>)"
    unfolding set_guest_states_eq known using es(1) by (simp add: igvm_guest_def)
  then show ?thesis
    using hob es(3) by (simp add: tdx_finalize_vm_def igvm_guest_def section_loop_igvm
        tdx_post_init_vcpus_def Let_def)
qed

text \<open>C26: QEMU with the patch launches the image of a successful TDX build: it takes the image's platform
  header, no page is refused, every page of the image is handed to the TDX module and extended
  into MRTD, in the order and with the contents the builder measured, so that the measurement is
  the one the manifest expects; and nothing else is added: no TD HOB, no flash image to discard,
  and every processor starts with RCX clear.\<close>

theorem qemu_measures_the_image:
  assumes "build_tdx ex kernel_path initramfs_path out params config_hash s = (Inr (), s')"
    and "ex_platform_version ex = 1"
    and "visits_pages visit" "hands_over mr_extend_bit add" "mr_extend_bit \<noteq> 0"
  shows "\<exists>img parsed pgs manifest mrtd g.
    fs_files s' out = Inr img \<and> ex_igvm_parse ex img = Inr parsed \<and>
    tdx_published ex out s s' pgs manifest \<and> tm_expected_mrtd manifest = ex_hex ex mrtd \<and>
    supported_platform_compat_mask sev weaker tdx_cgs_check_support True
      [loader_header (tdx_platform (ex_platform_version ex))] = (COMPAT, IGVM_PLATFORM_TYPE_TDX) \<and>
    set_guest_states mr_extend_bit (visit COMPAT (ex_directives ex parsed)) igvm_guest = (0, g) \<and>
    (let events = tg_events (tdx_finalize_vm sect add cpus g)
     in measured_pages events = pgs \<and> mrtd_calculate (ex_sha384 ex) (measured_pages events) = Some mrtd \<and>
        (\<forall>e\<in>set events. e \<in> {InitRamEntries, SortRamEntries, FinalizeVm} \<or>
           (\<exists>cpu\<in>set cpus. e = InitVcpu cpu 0) \<or> (\<exists>gpa data. e = AddMemory gpa data True)))"
proof -
  obtain field p placed owned pgs img mrtd json where
    f: "tdx_file ex (sort_key pl_base placed) = Inr (pgs, img, mrtd)"
    and j: "ex_json_tdx ex (tdx_manifest_of ex params p (sort_key pl_base placed) owned mrtd field)
        = Inr json"
    and s': "s' = s\<lparr>fs_files := (fs_files s)(out := Inr img, manifest_path out := Inr (json @ [10]))\<rparr>"
    using assms(1) unfolding build_tdx_Inr_conv by auto
  let ?m = "tdx_manifest_of ex params p (sort_key pl_base placed) owned mrtd field"
  from f have rb: "igvm_pages ex img = Inr pgs" and mrtd: "mrtd_calculate (ex_sha384 ex) pgs = Some mrtd"
    by (simp_all add: tdx_file_Inr_conv)
  have pub: "tdx_published ex out s s' pgs ?m"
    using rb j s' unfolding tdx_published_def by blast
  have img: "fs_files s' out = Inr img" by (simp add: s' manifest_path_def)
  obtain parsed where parsed: "ex_igvm_parse ex img = Inr parsed"
    "ex_directives ex parsed = map (\<lambda>(gpa, data). page_directive gpa NORMAL data) pgs"
    and whole: "\<forall>q\<in>set pgs. whole_page q"
    by (rule igvm_pages_directives [OF rb])
  let ?calls = "visit COMPAT (ex_directives ex parsed)"
  have runs: "concat (map (\<lambda>(gpa, data, ty). pages gpa data) ?calls) = pgs"
    and ok: "launch_calls_ok ?calls"
    using assms(3) whole unfolding visits_pages_def launch_calls_ok_def parsed(2) Let_def by blast+
  obtain g where g: "set_guest_states mr_extend_bit ?calls igvm_guest = (0, g)"
    and ev: "tg_events (tdx_finalize_vm sect add cpus g) =
      [InitRamEntries, SortRamEntries] @ map (\<lambda>cpu. InitVcpu cpu 0) cpus @
      map (\<lambda>(gpa, data, ty). AddMemory gpa data True) ?calls @ [FinalizeVm]"
    using launch_of_calls [OF ok assms(4,5)] by blast
  have "measured_pages (map (\<lambda>cpu. InitVcpu cpu 0) cpus) = []" by (simp add: measured_pages_def)
  moreover have "measured_pages (map (\<lambda>(gpa, data, ty). AddMemory gpa data True) calls) =
      concat (map (\<lambda>(gpa, data, ty). pages gpa data) calls)" for calls :: "(u64 \<times> bytes \<times> cgs_page_type) list"
    by (induction calls) (auto simp: measured_pages_def)
  ultimately have mp: "measured_pages (tg_events (tdx_finalize_vm sect add cpus g)) = pgs"
    unfolding ev runs [symmetric] by (simp add: measured_pages_def)
  have "supported_platform_compat_mask sev weaker tdx_cgs_check_support True
      [loader_header (tdx_platform (ex_platform_version ex))] = (COMPAT, IGVM_PLATFORM_TYPE_TDX)"
    by (simp add: supported_platform_compat_mask_def platform_step_def loader_header_def
        tdx_platform_def tdx_cgs_check_support_def assms(2) COMPAT_def)
  moreover have "tm_expected_mrtd ?m = ex_hex ex mrtd" by (simp add: tdx_manifest_of_def)
  moreover have "\<forall>e\<in>set (tg_events (tdx_finalize_vm sect add cpus g)).
      e \<in> {InitRamEntries, SortRamEntries, FinalizeVm} \<or> (\<exists>cpu\<in>set cpus. e = InitVcpu cpu 0) \<or>
      (\<exists>gpa data. e = AddMemory gpa data True)"
    by (auto simp: ev)
  ultimately show ?thesis
    using img parsed(1) pub g mp mrtd
    by (intro exI [of _ img] exI [of _ parsed] exI [of _ pgs] exI [of _ ?m] exI [of _ mrtd] exI [of _ g])
      (simp only: Let_def simp_thms)
qed

definition demo_visit :: "u32 \<Rightarrow> directive list \<Rightarrow> (u64 \<times> bytes \<times> cgs_page_type) list" where
  "demo_visit cmask ds = concat (map (\<lambda>d. case d of
       PageData gpa m f t data \<Rightarrow> if m AND cmask \<noteq> 0 then [(gpa, data, CGS_PAGE_TYPE_NORMAL)] else []
     | _ \<Rightarrow> []) ds)"

definition demo_add :: "fw_entry list \<Rightarrow> tdx_event list" where
  "demo_add es = map (\<lambda>e. AddMemory (fe_address e) (take (unat (fe_size e)) (the (fe_mem_ptr e)))
     (fe_attributes e AND 1 \<noteq> 0)) es"

lemma demo_visit_pages: "visits_pages demo_visit"
proof -
  have "concat (map (\<lambda>(gpa, data, ty). pages gpa data)
          (demo_visit COMPAT (map (\<lambda>(gpa, data). page_directive gpa NORMAL data) pgs))) = pgs \<and>
      (\<forall>(gpa, data, ty)\<in>set (demo_visit COMPAT (map (\<lambda>(gpa, data). page_directive gpa NORMAL data) pgs)).
         length data < 2 ^ 64 \<and> ty \<in> {CGS_PAGE_TYPE_NORMAL, CGS_PAGE_TYPE_ZERO})"
    if "\<forall>q\<in>set pgs. whole_page q" for pgs
    using that
    by (induction pgs) (auto simp: demo_visit_def page_directive_def COMPAT_def whole_page_def one_page)
  then show ?thesis unfolding visits_pages_def Let_def by blast
qed

theorem qemu_measures_the_image_witness:
  "\<exists>s' img parsed pgs manifest g.
     build_tdx demo_externs (lit ''k'') (lit ''i'') (lit ''o'') default_params None demo_fs = (Inr (), s') \<and>
     fs_files s' (lit ''o'') = Inr img \<and> ex_igvm_parse demo_externs img = Inr parsed \<and>
     tdx_published demo_externs (lit ''o'') demo_fs s' pgs manifest \<and>
     set_guest_states 1 (demo_visit COMPAT (ex_directives demo_externs parsed)) igvm_guest = (0, g) \<and>
     measured_pages (tg_events (tdx_finalize_vm demo_sect demo_add [0, 1, 2, 3] g)) = pgs"
proof -
  obtain s' where
    b: "build_tdx demo_externs (lit ''k'') (lit ''i'') (lit ''o'') default_params None demo_fs = (Inr (), s')"
    using demo_build by blast
  have v: "ex_platform_version demo_externs = 1" by (simp add: demo_externs_def)
  have add: "hands_over 1 demo_add" by (simp add: hands_over_def demo_add_def)
  show ?thesis
    using qemu_measures_the_image [OF b v demo_visit_pages add, of "\<lambda>p m. m"
        "\<lambda>m. (cm_native m, IGVM_PLATFORM_TYPE_NATIVE)" demo_sect "[0, 1, 2, 3]"] b
    unfolding Let_def by simp blast
qed

end
