(* ===== verification/Spec2Isabelle.thy ===== *)
theory Spec2Isabelle
  imports Program Apertures Snp_Live Mode_Switch Build_Script Kernel_View Reproducible Conformance_Boot
    Conformance_Formats Conformance_Manifest Conformance_Launch Qemu_Loader
begin

text \<open>
  A verification library of boot-shim: the Rust program that builds deterministic Linux images
  in the IGVM format for Intel TDX and AMD SEV-SNP guests, and the two assembly shims those
  images start in.

  \<^bold>\<open>The program.\<close> The command line (src/src/main.rs) names a kernel, an initramfs and the
  parameters of the guest (src/src/layout.rs). A builder (\<open>build\<close> in src/src/image.rs for TDX and
  src/src/snp.rs for SNP) checks the inputs, lays every region of the guest out in one list of
  \<open>Placed\<close> values (src/src/boot.rs), and derives from that list alone everything the guest
  and its verifier see: the E820 map in the zero page, the list of memory the shim must accept,
  the pages the loader imports, the launch measurement (src/src/mrtd.rs, or
  \<open>launch_measurement\<close>) and the manifest beside the image. The ACPI tables
  (src/src/acpi.rs), the page tables and the descriptor table are regions of the list. In the
  guest, the shim (src/src/reset.S, src/src/snp_reset.S) switches to 64-bit mode, accepts or
  validates the memory of its list, wakes or parks the other processors and enters the kernel.

  \<^bold>\<open>The theories, bottom up.\<close>
  \<^item> \<open>Prelude\<close>: machine words, the error type of the whole program (\<open>error\<close>, one constructor per
    message, \<open>Panic\<close> for an index out of range) and \<open>bind_result\<close> for the \<open>?\<close> operator.
    \<open>Bytes\<close>: slices, in-place copies, little-endian integers, and the locale \<open>fixed_codec\<close> of a
    record format. \<open>Rust_Str\<close>: strings as lists of scalar values, and the methods used.
  \<^item> \<open>Layout\<close> (layout.rs): every constant, \<open>params\<close>, \<open>new_params\<close>.
  \<^item> \<open>Placement\<close> (boot.rs, \<open>Fill\<close> to \<open>accept_ranges\<close>): \<open>fill\<close>, \<open>placed\<close>, \<open>pages\<close>,
    \<open>fill_region\<close>, \<open>validate\<close>, \<open>e820\<close>, \<open>accept_ranges\<close>; \<open>Launch\<close>: what a validated placement
    loads. \<open>Boot_Protocol\<close> (the rest of boot.rs): \<open>parse_bzimage\<close>, \<open>zero_page\<close>, \<open>gdt_stack\<close>.
  \<^item> \<open>Acpi\<close> (acpi.rs), \<open>Page_Tables\<close> (\<open>identity_map\<close>), \<open>Mrtd\<close> (mrtd.rs).
  \<^item> \<open>Externals\<close>: the file system as a state with \<open>io\<close> computations over it, and the record
    \<open>externs\<close> of everything that is not under src/. A write truncates its file first, so one that
    fails leaves the file alone or a beginning of the new contents (\<open>write_cut\<close>).
  \<^item> \<open>Image\<close> (image.rs): the configuration field, \<open>prepare\<close>, \<open>shim\<close>, the IGVM file and
    \<open>build_tdx\<close>. \<open>Shim_Data\<close>: what a shim reads from its data block. \<open>Tdx_Build\<close>,
    \<open>Tdx_Properties\<close>, \<open>Tdx_Publish\<close>: the placement, the loaded pages and the file system of a
    TDX build.
  \<^item> \<open>Snp\<close> (snp.rs): processor states, CC blob, measurement, ID block, required memory and
    \<open>build_snp\<close>. \<open>Snp_Measure\<close>, \<open>Snp_Memory\<close>, \<open>Snp_Build\<close>, \<open>Snp_Directives\<close>,
    \<open>Snp_Publish\<close>, \<open>Snp_Properties\<close>: the facts about its parts and about a whole SNP build.
  \<^item> \<open>Shim_Walk\<close>: the loop both shims share, over the packed ranges and over the pages of a range,
    with the locales \<open>range_walk\<close>, \<open>live_walk\<close> and \<open>refusing_walk\<close>. \<open>Tdx_Shim\<close> (reset.S, \<open>accept_range\<close>),
    \<open>Snp_Shim\<close> (snp_reset.S, \<open>validate_range\<close>, \<open>wake_aps\<close>), \<open>Snp_Live\<close>, \<open>Mailbox\<close>
    (reset.S, \<open>ap_wait\<close>, as an interleaved step relation) and \<open>Mode_Switch\<close> (\<open>reset_start\<close>,
    \<open>snp_reset_start\<close>, \<open>snp_ap_park\<close>).
  \<^item> \<open>Cli\<close>, \<open>Program\<close> (main.rs): the value parsers, \<open>run\<close> and the exit status.
    \<open>Build_Script\<close> (build.rs): the symbol table the shims are assembled with.
  \<^item> The reader's side. \<open>Guest_Memory\<close>: the memory a loaded image makes, with the locale
    \<open>loader\<close> both builders provide. \<open>Acpi_Walk\<close>: finding tables from the RSDP and the records
    of the MADT, as an operating system does. \<open>Handover\<close>: the boot protocol read from the zero
    page. \<open>Kernel_View\<close>: what a kernel and a verifier find in the images of whole builds.
    \<open>Reproducible\<close>: two runs for one image.
  \<^item> \<open>Apertures\<close>: what a build does with apertures of the user's own. \<open>Qemu_Loader\<close>
    (src/qemu-patches): the C code that lets QEMU launch a TDX image, before and after the patch.
  \<^item> \<open>Conformance_Boot\<close>, \<open>Conformance_Formats\<close>, \<open>Conformance_Image\<close>,
    \<open>Conformance_Manifest\<close>, \<open>Conformance_Snp\<close>, \<open>Conformance_Launch\<close>: the unit tests of boot.rs,
    acpi.rs, image.rs and snp.rs as propositions, under their names, and that the model passes
    them for every behaviour of the crates.

  \<^bold>\<open>What the theorems show.\<close> Each property stands after a text that names it C1, C2, and so on.
  \<^item> End to end: booted from the very page a successful build published, the shim accepts or
    validates every page of the described memory exactly once unless it was loaded or lies in an
    aperture, or it stops; under SNP every page outside the apertures is private and validated
    when the kernel starts, the GHCB page the wake had shared included (\<open>pages_completed\<close>); on a
    willing platform the shim always reaches the kernel; and every processor state the SNP check
    admits, or a TDX hand-over in protected mode with paging off and long mode left enabled, gets
    through the mode switch (with long mode disabled the TDX switch faults). The accounts hold for
    a non-empty initramfs and apertures that do not wrap around; C33 shows the page lost otherwise.
  \<^item> The builds: which inputs succeed, and that declared apertures are refused exactly when they
    meet the image or each other; that the published measurement is that of exactly the
    published pages, what the signature binds, and what a failed build leaves behind, a write cut
    short by the system included (\<open>interrupted\<close>); no run of
    the program panics or touches any file but its outputs.
  \<^item> The launch: patched QEMU hands the TDX module exactly the measured pages of a built image, in
    order, and boots a flash image as before.
  \<^item> The hand-over: a kernel that follows the pointers of the zero page finds the payload, the
    initramfs, the command line, every processor, an E820 map with the right type for every
    address (\<open>map_type\<close>) and, under SNP, the secrets and CPUID pages;
    every component of a manifest is true of the loaded image; the directives of an SNP image
    are well-formed; and a run for the same inputs elsewhere writes the same bytes.
  \<^item> The placement: \<open>validate\<close> decides well-placedness, the E820 map refines the region types and
    the accept list is the complement, address by address.
  \<^item> The encodings: zero page, ACPI page, page tables (against the walk of every lower-half
    address), command line, configuration field, sizes and the symbol file are read back by a
    reader of their format; the two measurements determine what was loaded up to a digest
    collision.
  \<^item> The mailbox: safety and progress of the first request, and an interleaving in which a
    delayed processor takes a later request half-written, whose command then stays for ever.

  \<^bold>\<open>Bounds.\<close> Machine integers keep their width, so every wrap-around of the release build is in the
  model; a hypothesis \<open>vec_len_ok\<close> bounds the length of a Rust vector by \<open>isize::MAX\<close>. There is no
  fuel: the loops of the shims are \<open>partial_function (option)\<close>, and the theorems about them
  state that they return. Loops of the Rust code are structural or have a termination proof.

  \<^bold>\<open>Parameters.\<close> The crates \<open>igvm\<close>, \<open>sha2\<close>, \<open>hex\<close>, \<open>serde_json\<close>, \<open>p384\<close> and the two assembled
  shim pages are fields of \<open>externs\<close>. Theorems that need more of them than their type say so:
  \<open>igvm_round_trip\<close>, \<open>snp_crates_ok\<close>, \<open>key_usable\<close>, \<open>crate_bounds\<close>, \<open>blank_shim\<close>. The TDX
  module, the processor and the host of an SNP guest are functions of the history, unrestricted
  except where a theorem names \<open>willing_module\<close> or \<open>willing_host\<close>. For QEMU, \<open>visits_pages\<close>
  and \<open>hands_over\<close> state what the patch relies on. \<open>demo_externs\<close> instantiates
  the crates for the witnesses.

  \<^bold>\<open>Not modelled.\<close> How clap splits the arguments; the text of the JSON and IGVM encodings; the
  translation from assembly to bytes (the models of the shims are of their source); the TDVMCALL
  registers of the TDX shim's fatal exit (\<open>Fatal\<close> is that exit and the halt after it); the cargo
  directives the build script prints; the packaging; of QEMU, whatever the patch does not show
  (the walk over the directives of a file, the TDVF parser and the loop that adds the memory of an
  entry are parameters); of the tests, the one known answer of SHA-384.
\<close>

end
